theory Spec2Isabelle
  imports Main "HOL-Library.Word"
begin

unbundle bit_operations_syntax

section \<open>RPCSEC_GSS client authentication (net/sunrpc/auth_gss/auth_gss.c)\<close>

text \<open>
  A shallow embedding of the client side of RPCSEC_GSS. Kernel objects that the C code
  reaches through pointers and shares by reference count (security contexts, upcall
  messages) live in an explicit store indexed by addresses (\<open>nat\<close>); a NULL pointer is
  \<open>None\<close>. Credentials and requests are passed by value and returned updated. The width
  of \<open>unsigned long\<close> (jiffies, expiry times) is the type parameter \<open>'w\<close>. The GSS
  mechanism, the XDR encoders of the caller and the pipe file system are outside this
  file: they appear as parameters of the functions that call them.
\<close>

subsection \<open>Basic types and constants\<close>

type_synonym u8 = "8 word"
type_synonym u32 = "32 word"

text \<open>Kernel errno values (asm-generic/errno-base.h, errno.h), used negated.\<close>

definition ENOENT :: int where "ENOENT = 2"
definition EIO :: int where "EIO = 5"
definition EAGAIN :: int where "EAGAIN = 11"
definition ENOMEM :: int where "ENOMEM = 12"
definition EACCES :: int where "EACCES = 13"
definition EFAULT :: int where "EFAULT = 14"
definition EINVAL :: int where "EINVAL = 22"
definition EFBIG :: int where "EFBIG = 27"
definition EPIPE :: int where "EPIPE = 32"
definition ENOSYS :: int where "ENOSYS = 38"
definition EKEYEXPIRED :: int where "EKEYEXPIRED = 127"

text \<open>The ways a call can leave the model other than by returning: the dereference of a
  NULL or dangling pointer (a kernel oops) and \<open>BUG()\<close>.\<close>

datatype fault = OOPS | BUG

text \<open>The bits of \<open>cr_flags\<close> (linux/sunrpc/auth.h); the flag word is the set of bits
  that are set.\<close>

datatype cred_flag =
  RPCAUTH_CRED_NEW | RPCAUTH_CRED_UPTODATE | RPCAUTH_CRED_HASHED | RPCAUTH_CRED_NEGATIVE

definition test_bit :: "cred_flag \<Rightarrow> cred_flag set \<Rightarrow> bool" where
  "test_bit b fl = (b \<in> fl)"

definition set_bit :: "cred_flag \<Rightarrow> cred_flag set \<Rightarrow> cred_flag set" where
  "set_bit b fl = insert b fl"

definition clear_bit :: "cred_flag \<Rightarrow> cred_flag set \<Rightarrow> cred_flag set" where
  "clear_bit b fl = fl - {b}"

datatype rpc_gss_proc =
  RPC_GSS_PROC_DATA | RPC_GSS_PROC_INIT | RPC_GSS_PROC_CONTINUE_INIT | RPC_GSS_PROC_DESTROY

datatype rpc_gss_svc = RPC_GSS_SVC_NONE | RPC_GSS_SVC_INTEGRITY | RPC_GSS_SVC_PRIVACY

text \<open>Wrap-safe comparisons of jiffies (linux/jiffies.h):
  \<open>time_after(a,b)\<close> is \<open>(long)(b - a) < 0\<close>, \<open>time_after_eq(a,b)\<close> is
  \<open>(long)(a - b) >= 0\<close>, \<open>time_before(a,b)\<close> is \<open>time_after(b,a)\<close> and
  \<open>time_in_range_open(a,b,c)\<close> is \<open>time_after_eq(a,b) && time_before(a,c)\<close>.\<close>

definition time_after :: "'w::len word \<Rightarrow> 'w word \<Rightarrow> bool" where
  "time_after a b = (sint (b - a) < 0)"

definition time_after_eq :: "'w::len word \<Rightarrow> 'w word \<Rightarrow> bool" where
  "time_after_eq a b = (0 \<le> sint (a - b))"

definition time_before :: "'w::len word \<Rightarrow> 'w word \<Rightarrow> bool" where
  "time_before a b = time_after b a"

definition time_in_range_open :: "'w::len word \<Rightarrow> 'w word \<Rightarrow> 'w word \<Rightarrow> bool" where
  "time_in_range_open a b c = (time_after_eq a b \<and> time_before a c)"

subsection \<open>Security contexts and credentials\<close>

text \<open>\<open>struct gss_cl_ctx\<close>: \<open>ctx_count\<close> is the field \<open>count\<close> (an \<open>atomic_t\<close>),
  \<open>gc_gss_ctx\<close> the handle of the mechanism's context. The structure is declared in
  linux/sunrpc/auth_gss.h, which is not in src; there \<open>gc_seq\<close> and \<open>gc_win\<close> are
  \<open>u32\<close> (the spec, section 4.1: "the 32-bit value"; \<open>gss_marshal\<close> casts the
  sequence number with \<open>(u32)\<close>) and \<open>gc_expiry\<close> is an \<open>unsigned long\<close>.\<close>

record (overloaded) ('w::len) gss_cl_ctx =
  ctx_count :: int
  gc_proc :: rpc_gss_proc
  gc_seq :: u32
  gc_expiry :: "'w word"
  gc_win :: u32
  gc_wire_ctx :: "u8 list"
  gc_gss_ctx :: "nat option"

text \<open>\<open>struct gss_cred\<close> with the fields of its embedded \<open>struct rpc_cred\<close>
  (\<open>cr_uid\<close>, \<open>cr_flags\<close>).\<close>

record (overloaded) ('w::len) gss_cred =
  cr_uid :: u32
  cr_flags :: "cred_flag set"
  gc_service :: rpc_gss_svc
  gc_principal :: "string option"
  gc_ctx :: "nat option"
  gc_upcall :: "nat option"
  gc_upcall_timestamp :: "'w word"

record auth_cred =
  ac_uid :: u32
  ac_principal :: "string option"
  ac_machine_cred :: bool

type_synonym 'w ctx_store = "nat \<Rightarrow> 'w gss_cl_ctx option"

definition gss_get_ctx :: "nat \<Rightarrow> ('w::len) ctx_store \<Rightarrow> 'w ctx_store" where
  "gss_get_ctx p cs =
     (case cs p of None \<Rightarrow> cs
      | Some c \<Rightarrow> cs(p \<mapsto> c\<lparr>ctx_count := ctx_count c + 1\<rparr>))"

text \<open>\<open>gss_free_ctx\<close> hands the context to \<open>call_rcu\<close>; once the grace period is over
  \<open>gss_do_free_ctx\<close> deletes the mechanism context and frees the memory. The store
  drops the object when its last reference goes.\<close>

definition gss_free_ctx :: "nat \<Rightarrow> ('w::len) ctx_store \<Rightarrow> 'w ctx_store" where
  "gss_free_ctx p cs = cs(p := None)"

definition gss_put_ctx :: "nat \<Rightarrow> ('w::len) ctx_store \<Rightarrow> 'w ctx_store" where
  "gss_put_ctx p cs =
     (case cs p of None \<Rightarrow> cs
      | Some c \<Rightarrow>
          (if ctx_count c - 1 = 0 then gss_free_ctx p cs
           else cs(p \<mapsto> c\<lparr>ctx_count := ctx_count c - 1\<rparr>)))"

text \<open>\<open>gss_alloc_context\<close>: the context that \<open>kzalloc\<close> returned, zero-filled, with
  its procedure, its first sequence number and one reference. (When \<open>kzalloc\<close> fails the
  function returns NULL; its caller models that.)\<close>

definition gss_alloc_context :: "('w::len) gss_cl_ctx" where
  "gss_alloc_context =
     \<lparr>ctx_count = 1, gc_proc = RPC_GSS_PROC_DATA, gc_seq = 1, gc_expiry = 0,
      gc_win = 0, gc_wire_ctx = [], gc_gss_ctx = None\<rparr>"

text \<open>\<open>gss_cred_set_ctx\<close>, statement by statement after the test of the NEW bit:
  \<open>gss_get_ctx\<close>, \<open>rcu_assign_pointer(gss_cred->gc_ctx, ctx)\<close>,
  \<open>set_bit(RPCAUTH_CRED_UPTODATE)\<close>, (barrier), \<open>clear_bit(RPCAUTH_CRED_NEW)\<close>.\<close>

definition gss_cred_set_ctx_steps ::
  "nat \<Rightarrow> (('w::len) gss_cred \<times> 'w ctx_store \<Rightarrow> 'w gss_cred \<times> 'w ctx_store) list" where
  "gss_cred_set_ctx_steps ctx =
     [\<lambda>(cred, cs). (cred, gss_get_ctx ctx cs),
      \<lambda>(cred, cs). (cred\<lparr>gc_ctx := Some ctx\<rparr>, cs),
      \<lambda>(cred, cs). (cred\<lparr>cr_flags := set_bit RPCAUTH_CRED_UPTODATE (cr_flags cred)\<rparr>, cs),
      \<lambda>(cred, cs). (cred\<lparr>cr_flags := clear_bit RPCAUTH_CRED_NEW (cr_flags cred)\<rparr>, cs)]"

text \<open>The states a run of statements goes through, the starting state first.\<close>

fun run_trace :: "('s \<Rightarrow> 's) list \<Rightarrow> 's \<Rightarrow> 's list" where
  "run_trace [] s = [s]"
| "run_trace (f # fs) s = s # run_trace fs (f s)"

definition gss_cred_set_ctx_trace ::
  "('w::len) gss_cred \<Rightarrow> nat \<Rightarrow> 'w ctx_store \<Rightarrow> ('w gss_cred \<times> 'w ctx_store) list" where
  "gss_cred_set_ctx_trace cred ctx cs =
     (if \<not> test_bit RPCAUTH_CRED_NEW (cr_flags cred) then [(cred, cs)]
      else run_trace (gss_cred_set_ctx_steps ctx) (cred, cs))"

definition gss_cred_set_ctx ::
  "('w::len) gss_cred \<Rightarrow> nat \<Rightarrow> 'w ctx_store \<Rightarrow> 'w gss_cred \<times> 'w ctx_store" where
  "gss_cred_set_ctx cred ctx cs = last (gss_cred_set_ctx_trace cred ctx cs)"

text \<open>\<open>gss_create_cred\<close>: the credential is zero-filled, flagged NEW only, takes the
  authenticator's service and, for a machine credential, the requested principal.\<close>

definition gss_create_cred :: "rpc_gss_svc \<Rightarrow> auth_cred \<Rightarrow> ('w::len) gss_cred" where
  "gss_create_cred service acred =
     \<lparr>cr_uid = ac_uid acred,
      cr_flags = {RPCAUTH_CRED_NEW},
      gc_service = service,
      gc_principal = (if ac_machine_cred acred then ac_principal acred else None),
      gc_ctx = None,
      gc_upcall = None,
      gc_upcall_timestamp = 0\<rparr>"

text \<open>The statements of this file that write a live credential's flags or context
  pointer: \<open>gss_cred_set_ctx\<close>, the \<open>clear_bit(RPCAUTH_CRED_UPTODATE)\<close> of the
  per-request hooks, and the \<open>set_bit\<close>/\<open>clear_bit\<close> of NEGATIVE in
  \<open>gss_handle_downcall_result\<close>.\<close>

datatype cred_write = Set_ctx nat | Clear_uptodate | Set_negative | Clear_negative

fun apply_cred_write ::
  "cred_write \<Rightarrow> ('w::len) gss_cred \<times> 'w ctx_store \<Rightarrow> 'w gss_cred \<times> 'w ctx_store" where
  "apply_cred_write (Set_ctx p) (cred, cs) = gss_cred_set_ctx cred p cs"
| "apply_cred_write Clear_uptodate (cred, cs) =
     (cred\<lparr>cr_flags := clear_bit RPCAUTH_CRED_UPTODATE (cr_flags cred)\<rparr>, cs)"
| "apply_cred_write Set_negative (cred, cs) =
     (cred\<lparr>cr_flags := set_bit RPCAUTH_CRED_NEGATIVE (cr_flags cred)\<rparr>, cs)"
| "apply_cred_write Clear_negative (cred, cs) =
     (cred\<lparr>cr_flags := clear_bit RPCAUTH_CRED_NEGATIVE (cr_flags cred)\<rparr>, cs)"

text \<open>The context pointers that a sequence of writes asks to install, in order.\<close>

fun set_ctx_args :: "cred_write list \<Rightarrow> nat list" where
  "set_ctx_args [] = []"
| "set_ctx_args (Set_ctx p # ws) = p # set_ctx_args ws"
| "set_ctx_args (_ # ws) = set_ctx_args ws"

subsection \<open>Matching a cached credential\<close>

text \<open>The code of \<open>gss_match\<close> from its label \<open>out\<close> on.\<close>

definition gss_match_out :: "auth_cred \<Rightarrow> ('w::len) gss_cred \<Rightarrow> int" where
  "gss_match_out acred rc =
     (case ac_principal acred of
        Some p \<Rightarrow>
          (case gc_principal rc of
             None \<Rightarrow> 0
           | Some q \<Rightarrow> if p = q then 1 else 0)
      | None \<Rightarrow>
          (if gc_principal rc \<noteq> None then 0
           else if cr_uid rc = ac_uid acred then 1 else 0))"

definition gss_match ::
  "('w::len) ctx_store \<Rightarrow> 'w word \<Rightarrow> auth_cred \<Rightarrow> 'w gss_cred \<Rightarrow> fault + int" where
  "gss_match cs jiffies acred rc =
     (if test_bit RPCAUTH_CRED_NEW (cr_flags rc) then Inr (gss_match_out acred rc)
      else
        (case gc_ctx rc of
           None \<Rightarrow> Inl OOPS
         | Some p \<Rightarrow>
             (case cs p of
                None \<Rightarrow> Inl OOPS
              | Some ctx \<Rightarrow>
                  if time_after jiffies (gc_expiry ctx) then Inr 0
                  else if \<not> test_bit RPCAUTH_CRED_UPTODATE (cr_flags rc) then Inr 0
                  else Inr (gss_match_out acred rc))))"

subsection \<open>Wire constants and buffers\<close>

definition RPC_AUTH_GSS :: u32 where "RPC_AUTH_GSS = 6"
definition RPC_GSS_VERSION :: u32 where "RPC_GSS_VERSION = 1"
definition GSS_S_CONTEXT_EXPIRED :: u32 where "GSS_S_CONTEXT_EXPIRED = 0x000C0000"

text \<open>The values of the enumerations on the wire (linux/sunrpc/auth_gss.h, gss_api.h).\<close>

fun proc_num :: "rpc_gss_proc \<Rightarrow> u32" where
  "proc_num RPC_GSS_PROC_DATA = 0"
| "proc_num RPC_GSS_PROC_INIT = 1"
| "proc_num RPC_GSS_PROC_CONTINUE_INIT = 2"
| "proc_num RPC_GSS_PROC_DESTROY = 3"

fun svc_num :: "rpc_gss_svc \<Rightarrow> u32" where
  "svc_num RPC_GSS_SVC_NONE = 1"
| "svc_num RPC_GSS_SVC_INTEGRITY = 2"
| "svc_num RPC_GSS_SVC_PRIVACY = 3"

text \<open>Memory reached from a base pointer: a byte at every offset. The sizes of the
  buffers are the business of the RPC layer, which allocates them with the slack the flavor
  asks for; a pointer \<open>__be32 *p\<close> into a buffer is its byte offset from the base.\<close>

type_synonym mem = "nat \<Rightarrow> u8"

fun store :: "nat \<Rightarrow> u8 list \<Rightarrow> mem \<Rightarrow> mem" where
  "store p [] m = m"
| "store p (b # bs) m = store (Suc p) bs (m(p := b))"

definition load :: "nat \<Rightarrow> nat \<Rightarrow> mem \<Rightarrow> u8 list" where
  "load p n m = map m [p ..< p + n]"

text \<open>\<open>htonl\<close> and a 4-byte store; a 4-byte load and \<open>ntohl\<close>.\<close>

definition htonl :: "u32 \<Rightarrow> u8 list" where
  "htonl x = [ucast (drop_bit 24 x), ucast (drop_bit 16 x), ucast (drop_bit 8 x), ucast x]"

definition ntohl :: "u8 list \<Rightarrow> u32" where
  "ntohl bs = foldl (\<lambda>acc b. push_bit 8 acc OR ucast b) 0 bs"

definition put_be32 :: "nat \<Rightarrow> u32 \<Rightarrow> mem \<Rightarrow> mem" where
  "put_be32 p x m = store p (htonl x) m"

definition get_be32 :: "nat \<Rightarrow> mem \<Rightarrow> u32" where
  "get_be32 p m = ntohl (load p 4 m)"

definition XDR_QUADLEN :: "nat \<Rightarrow> nat" where
  "XDR_QUADLEN l = (l + 3) div 4"

text \<open>Modelled from the spec: \<open>xdr_encode_netobj\<close> and \<open>xdr_encode_opaque\<close>
  (net/sunrpc/xdr.c) are not in src. An XDR opaque is a 4-byte big-endian length followed
  by the bytes, zero-filled to a multiple of 4 (section 6, wire header). Both return the
  advanced pointer. \<open>xdr_encode_opaque\<close> is only called with a NULL data pointer here:
  the bytes are in place already and it writes the length and the fill.\<close>

definition xdr_encode_netobj :: "nat \<Rightarrow> u8 list \<Rightarrow> mem \<Rightarrow> nat \<times> mem" where
  "xdr_encode_netobj p obj m =
     (p + 4 + 4 * XDR_QUADLEN (length obj),
      store (p + 4) (obj @ replicate (4 * XDR_QUADLEN (length obj) - length obj) 0)
        (put_be32 p (of_nat (length obj)) m))"

definition xdr_encode_opaque_null :: "nat \<Rightarrow> nat \<Rightarrow> mem \<Rightarrow> nat \<times> mem" where
  "xdr_encode_opaque_null p n m =
     (p + 4 + 4 * XDR_QUADLEN n,
      store (p + 4 + n) (replicate (4 * XDR_QUADLEN n - n) 0) (put_be32 p (of_nat n) m))"

record kvec =
  iov_base :: mem
  iov_len :: nat

text \<open>\<open>struct xdr_buf\<close>; \<open>pages\<close> is the address of the page array, the pages
  themselves are read and written by the mechanism only.\<close>

record xdr_buf =
  head :: kvec
  tail :: kvec
  pages :: nat
  page_base :: u32
  page_len :: u32
  buflen :: u32
  len :: u32

text \<open>\<open>xdr_buf_from_iov\<close> (linux/sunrpc/xdr.h): a buffer that is one head segment.\<close>

definition xdr_buf_from_iov :: "kvec \<Rightarrow> xdr_buf" where
  "xdr_buf_from_iov iov =
     \<lparr>head = iov, tail = \<lparr>iov_base = (\<lambda>_. 0), iov_len = 0\<rparr>, pages = 0,
      page_base = 0, page_len = 0, buflen = of_nat (iov_len iov), len = of_nat (iov_len iov)\<rparr>"

text \<open>The GSS mechanism (\<open>struct gss_api_mech\<close> and its operations), a parameter.
  \<open>gss_get_mic\<close> returns the major status and the MIC it leaves at \<open>mic.data\<close>;
  \<open>gss_wrap\<close> and \<open>gss_unwrap\<close> return the status and the buffer as they leave it;
  \<open>gss_import_sec_context\<close> returns its result and the context handle.\<close>

record gss_api_mech =
  gm_name :: string
  gm_upcall_enctypes :: "string option"
  gss_import_sec_context :: "u8 list \<Rightarrow> int \<times> nat option"
  gss_get_mic :: "nat \<Rightarrow> xdr_buf \<Rightarrow> u32 \<times> u8 list"
  gss_verify_mic :: "nat \<Rightarrow> xdr_buf \<Rightarrow> u8 list \<Rightarrow> u32"
  gss_wrap :: "nat \<Rightarrow> u32 \<Rightarrow> xdr_buf \<Rightarrow> nat \<Rightarrow> u32 \<times> xdr_buf"
  gss_unwrap :: "nat \<Rightarrow> u32 \<Rightarrow> xdr_buf \<Rightarrow> u32 \<times> xdr_buf"

text \<open>What the hooks call outside this file besides the mechanism: the caller's encoder
  and decoder, each with the stream that \<open>xdr_init_encode\<close> or \<open>xdr_init_decode\<close>
  sets up at \<open>p\<close>; \<open>xdr_buf_subsegment\<close> and \<open>xdr_buf_read_netobj\<close>
  (\<open>None\<close> when they fail); the size of the transport header that
  \<open>xprt_skip_transport_header\<close> skips; \<open>PAGE_CACHE_SHIFT\<close>.\<close>

record xdr_ops =
  encode :: "xdr_buf \<Rightarrow> nat \<Rightarrow> xdr_buf"
  decode :: "xdr_buf \<Rightarrow> nat \<Rightarrow> int"
  xdr_buf_subsegment :: "xdr_buf \<Rightarrow> u32 \<Rightarrow> u32 \<Rightarrow> xdr_buf option"
  xdr_buf_read_netobj :: "xdr_buf \<Rightarrow> u32 \<Rightarrow> u8 list option"
  tsh_size :: nat
  PAGE_CACHE_SHIFT :: nat

text \<open>The request (\<open>struct rpc_rqst\<close>) with its credential and the two slack fields of
  the authenticator (\<open>cred->cr_auth\<close>) that the hooks write, both \<open>unsigned int\<close>.\<close>

record (overloaded) ('w::len) rpc_rqst =
  rq_cred :: "'w gss_cred"
  rq_seqno :: u32
  rq_snd_buf :: xdr_buf
  rq_rcv_buf :: xdr_buf
  rq_enc_pages :: "nat option"
  rq_enc_pages_num :: int
  rq_release_snd_buf :: bool
  au_verfsize :: u32
  au_rslack :: u32

subsection \<open>Per-request hooks\<close>

text \<open>\<open>gss_cred_get_ctx\<close>: under \<open>rcu_read_lock\<close>, a counted reference to the context
  of the credential, or NULL.\<close>

definition gss_cred_get_ctx ::
  "('w::len) gss_cred \<Rightarrow> 'w ctx_store \<Rightarrow> nat option \<times> 'w ctx_store" where
  "gss_cred_get_ctx cred cs =
     (case gc_ctx cred of None \<Rightarrow> (None, cs) | Some p \<Rightarrow> (Some p, gss_get_ctx p cs))"

text \<open>The hooks use the pointer that \<open>gss_cred_get_ctx\<close> returns without a test.\<close>

definition deref_ctx ::
  "nat option \<Rightarrow> ('w::len) ctx_store \<Rightarrow> fault + (nat \<times> 'w gss_cl_ctx)" where
  "deref_ctx po cs =
     (case po of
        None \<Rightarrow> Inl OOPS
      | Some p \<Rightarrow> (case cs p of None \<Rightarrow> Inl OOPS | Some c \<Rightarrow> Inr (p, c)))"


definition set_head_mem :: "mem \<Rightarrow> xdr_buf \<Rightarrow> xdr_buf" where
  "set_head_mem m b = b\<lparr>head := (head b)\<lparr>iov_base := m\<rparr>\<rparr>"

definition clear_uptodate_if_expired :: "u32 \<Rightarrow> ('w::len) gss_cred \<Rightarrow> 'w gss_cred" where
  "clear_uptodate_if_expired maj_stat cred =
     (if maj_stat = GSS_S_CONTEXT_EXPIRED
      then cred\<lparr>cr_flags := clear_bit RPCAUTH_CRED_UPTODATE (cr_flags cred)\<rparr>
      else cred)"

text \<open>\<open>gss_marshal\<close>; \<open>p\<close> points into the head of the send buffer. The result is the
  returned pointer (\<open>None\<close> for NULL) with the request and the context store.\<close>

definition gss_marshal ::
  "gss_api_mech \<Rightarrow> xdr_ops \<Rightarrow> ('w::len) rpc_rqst \<Rightarrow> nat \<Rightarrow> 'w ctx_store \<Rightarrow>
   fault + (nat option \<times> 'w rpc_rqst \<times> 'w ctx_store)" where
  "gss_marshal gm ops req p cs =
     (case gss_cred_get_ctx (rq_cred req) cs of (ctxp, cs1) \<Rightarrow>
      case deref_ctx ctxp cs1 of
        Inl f \<Rightarrow> Inl f
      | Inr (c, ctx) \<Rightarrow>
          let m1 = put_be32 p RPC_AUTH_GSS (iov_base (head (rq_snd_buf req)));
              cred_len = p + 4;
              seqno = gc_seq ctx;
              cs2 = cs1(c \<mapsto> ctx\<lparr>gc_seq := gc_seq ctx + 1\<rparr>);
              m2 = put_be32 (p + 8) RPC_GSS_VERSION m1;
              m3 = put_be32 (p + 12) (proc_num (gc_proc ctx)) m2;
              m4 = put_be32 (p + 16) seqno m3;
              m5 = put_be32 (p + 20) (svc_num (gc_service (rq_cred req))) m4;
              (p2, m6) = xdr_encode_netobj (p + 24) (gc_wire_ctx ctx) m5;
              m7 = put_be32 cred_len (of_nat (p2 - (cred_len + 4))) m6;
              verf_buf = xdr_buf_from_iov
                \<lparr>iov_base = (\<lambda>i. m7 (tsh_size ops + i)), iov_len = p2 - tsh_size ops\<rparr>;
              m8 = put_be32 p2 RPC_AUTH_GSS m7
          in
            (case gc_gss_ctx ctx of
               None \<Rightarrow> Inl OOPS
             | Some h \<Rightarrow>
                 (case gss_get_mic gm h verf_buf of (maj_stat, mic) \<Rightarrow>
                    let m9 = store (p2 + 8) mic m8 in
                    if maj_stat \<noteq> GSS_S_CONTEXT_EXPIRED \<and> maj_stat \<noteq> 0 then
                      Inr (None,
                           req\<lparr>rq_seqno := seqno, rq_snd_buf := set_head_mem m9 (rq_snd_buf req)\<rparr>,
                           gss_put_ctx c cs2)
                    else
                      let (p3, m10) = xdr_encode_opaque_null (p2 + 4) (length mic) m9 in
                      Inr (Some p3,
                           req\<lparr>rq_cred := clear_uptodate_if_expired maj_stat (rq_cred req),
                               rq_seqno := seqno,
                               rq_snd_buf := set_head_mem m10 (rq_snd_buf req)\<rparr>,
                           gss_put_ctx c cs2))))"


text \<open>\<open>gss_wrap_req_encode\<close>: the caller's encoder on a stream that starts at \<open>p\<close>.\<close>

definition gss_wrap_req_encode :: "xdr_ops \<Rightarrow> ('w::len) rpc_rqst \<Rightarrow> nat \<Rightarrow> 'w rpc_rqst" where
  "gss_wrap_req_encode ops req p = req\<lparr>rq_snd_buf := encode ops (rq_snd_buf req) p\<rparr>"

text \<open>The segment that the hooks guess the end of the data to be in: the tail when there
  are pages or a tail, the head otherwise.\<close>

definition in_tail :: "xdr_buf \<Rightarrow> bool" where
  "in_tail b = (page_len b \<noteq> 0 \<or> iov_len (tail b) \<noteq> 0)"

definition end_iov :: "xdr_buf \<Rightarrow> kvec" where
  "end_iov b = (if in_tail b then tail b else head b)"

definition set_end_iov :: "kvec \<Rightarrow> xdr_buf \<Rightarrow> xdr_buf" where
  "set_end_iov iov b = (if in_tail b then b\<lparr>tail := iov\<rparr> else b\<lparr>head := iov\<rparr>)"


text \<open>What the allocator does in \<open>alloc_enc_pages\<close>: \<open>kmalloc\<close> of the page array
  fails, or it returns the array at an address and \<open>alloc_page\<close> fails at an index
  (\<open>None\<close>: at none); the last component is the memory of the last page.\<close>

datatype enc_alloc = Kmalloc_failed | Pages nat "nat option" mem

definition alloc_enc_pages ::
  "xdr_ops \<Rightarrow> enc_alloc \<Rightarrow> ('w::len) rpc_rqst \<Rightarrow> int \<times> 'w rpc_rqst" where
  "alloc_enc_pages ops al req =
     (let snd_buf = rq_snd_buf req in
      if page_len snd_buf = 0 then (0, req\<lparr>rq_enc_pages_num := 0\<rparr>)
      else
        let first = uint (drop_bit (PAGE_CACHE_SHIFT ops) (page_base snd_buf));
            last = uint (drop_bit (PAGE_CACHE_SHIFT ops)
                           (page_base snd_buf + page_len snd_buf - 1));
            num = last - first + 1 + 1
        in
          case al of
            Kmalloc_failed \<Rightarrow> (- EAGAIN, req\<lparr>rq_enc_pages_num := num, rq_enc_pages := None\<rparr>)
          | Pages a fail pm \<Rightarrow>
              (case fail of
                 Some i \<Rightarrow>
                   if int i < num
                   then (- EAGAIN, req\<lparr>rq_enc_pages_num := int i, rq_enc_pages := Some a\<rparr>)
                   else (0, req\<lparr>rq_enc_pages_num := num, rq_enc_pages := Some a,
                                rq_release_snd_buf := True\<rparr>)
               | None \<Rightarrow>
                   (0, req\<lparr>rq_enc_pages_num := num, rq_enc_pages := Some a,
                           rq_release_snd_buf := True\<rparr>)))"

definition last_page_mem :: "enc_alloc \<Rightarrow> mem" where
  "last_page_mem al = (case al of Kmalloc_failed \<Rightarrow> (\<lambda>_. 0) | Pages a fail pm \<Rightarrow> pm)"

text \<open>The code of \<open>gss_wrap_req_priv\<close> after the call of \<open>gss_wrap\<close>, which has
  returned \<open>maj_stat\<close> and left the send buffer as \<open>snd5\<close>.\<close>

definition gss_wrap_req_priv_finish ::
  "u32 \<Rightarrow> xdr_buf \<Rightarrow> u32 \<Rightarrow> nat \<Rightarrow> ('w::len) rpc_rqst \<Rightarrow> fault + (int \<times> 'w rpc_rqst)" where
  "gss_wrap_req_priv_finish maj_stat snd5 offset opaque_len req2 =
     (if len snd5 > buflen snd5 then Inl BUG
      else if maj_stat \<noteq> GSS_S_CONTEXT_EXPIRED \<and> maj_stat \<noteq> 0 then
        Inr (- EIO, req2\<lparr>rq_snd_buf := snd5\<rparr>)
      else
        let snd6 = set_head_mem
                     (put_be32 opaque_len (len snd5 - offset) (iov_base (head snd5))) snd5;
            iov = end_iov snd6;
            pad = 3 - unat ((len snd6 - offset - 1) AND 3);
            iov1 = \<lparr>iov_base = store (iov_len iov) (replicate pad 0) (iov_base iov),
                    iov_len = iov_len iov + pad\<rparr>;
            snd7 = (set_end_iov iov1 snd6)\<lparr>len := len snd6 + of_nat pad\<rparr>
        in
          Inr (0, req2\<lparr>rq_cred := clear_uptodate_if_expired maj_stat (rq_cred req2),
                       rq_snd_buf := snd7\<rparr>))"

definition gss_wrap_req_priv ::
  "gss_api_mech \<Rightarrow> xdr_ops \<Rightarrow> enc_alloc \<Rightarrow> ('w::len) gss_cl_ctx \<Rightarrow> 'w rpc_rqst \<Rightarrow> nat \<Rightarrow>
   fault + (int \<times> 'w rpc_rqst)" where
  "gss_wrap_req_priv gm ops al ctx req p =
     (let opaque_len = p;
          offset = (of_nat (p + 4) :: u32);
          snd1 = set_head_mem
                   (put_be32 (p + 4) (rq_seqno req) (iov_base (head (rq_snd_buf req))))
                   (rq_snd_buf req);
          req1 = gss_wrap_req_encode ops (req\<lparr>rq_snd_buf := snd1\<rparr>) (p + 8)
      in
        case alloc_enc_pages ops al req1 of (status, req2) \<Rightarrow>
        if status \<noteq> 0 then Inr (status, req2)
        else
          let snd2 = rq_snd_buf req2;
              first = drop_bit (PAGE_CACHE_SHIFT ops) (page_base snd2);
              inpages = pages snd2 + unat first;
              snd3 = snd2\<lparr>pages := (case rq_enc_pages req2 of None \<Rightarrow> 0 | Some a \<Rightarrow> a),
                          page_base := page_base snd2 - push_bit (PAGE_CACHE_SHIFT ops) first\<rparr>
          in
            if in_tail snd3 \<and> rq_enc_pages_num req2 - 1 < 0 then Inl OOPS
            else
              let snd4 = (if in_tail snd3
                          then snd3\<lparr>tail := (tail snd3)\<lparr>iov_base :=
                                  store 0 (load 0 (iov_len (tail snd3)) (iov_base (tail snd3)))
                                    (last_page_mem al)\<rparr>\<rparr>
                          else snd3)
              in
                (case gc_gss_ctx ctx of
                   None \<Rightarrow> Inl OOPS
                 | Some h \<Rightarrow>
                     (case gss_wrap gm h offset snd4 inpages of (maj_stat, snd5) \<Rightarrow>
                        gss_wrap_req_priv_finish maj_stat snd5 offset opaque_len req2)))"







text \<open>Successive calls of \<open>gss_marshal\<close>, each with its request and pointer, on one
  context store: the sequence numbers the calls leave in \<open>rq_seqno\<close>, in order, and the
  store after the last call. The run stops at a call that does not return.\<close>

fun marshal_calls ::
  "gss_api_mech \<Rightarrow> xdr_ops \<Rightarrow> (('w::len) rpc_rqst \<times> nat) list \<Rightarrow> 'w ctx_store \<Rightarrow>
   u32 list \<times> 'w ctx_store" where
  "marshal_calls gm ops [] cs = ([], cs)"
| "marshal_calls gm ops ((req, p) # rs) cs =
     (case gss_marshal gm ops req p cs of
        Inl f \<Rightarrow> ([], cs)
      | Inr (r, req1, cs1) \<Rightarrow>
          (case marshal_calls gm ops rs cs1 of (ss, cs2) \<Rightarrow> (rq_seqno req1 # ss, cs2)))"

subsection \<open>Upcall messages, pipes and the pipe version\<close>

definition UPCALL_BUF_LEN :: nat where "UPCALL_BUF_LEN = 128"
definition MSG_BUF_MAXSIZE :: nat where "MSG_BUF_MAXSIZE = 1024"
definition GSSD_MIN_TIMEOUT :: u32 where "GSSD_MIN_TIMEOUT = 60 * 60"
definition GSS_RETRY_EXPIRED :: u32 where "GSS_RETRY_EXPIRED = 5"

text \<open>\<open>struct gss_upcall_msg\<close>: \<open>msg_count\<close> is the field \<open>count\<close>, \<open>msg_data\<close> the
  text that \<open>msg.data\<close> points to (in \<open>databuf\<close>), \<open>msg_len\<close> and \<open>msg_errno\<close>
  the fields \<open>msg.len\<close> and \<open>msg.errno\<close>. Whether the message is linked (\<open>!list_empty(&gss_msg->list)\<close>) is
  whether its address is on the list \<open>in_downcall\<close> of its pipe.\<close>

record gss_upcall_msg =
  msg_count :: int
  msg_uid :: u32
  msg_pipe :: nat
  msg_data :: "u8 list"
  msg_len :: nat
  msg_errno :: int
  msg_ctx :: "nat option"

text \<open>The calls into the pipe file system, the wait queues and the log, recorded in the
  order they are made. \<open>rpc_queue_upcall\<close> is recorded with the result it returns.\<close>

datatype wait_queue =
  Pipe_version_rpc_waitqueue | Msg_rpc_waitqueue nat | Msg_waitqueue nat

datatype event =
    Rpc_queue_upcall nat nat int
  | Rpc_sleep_on wait_queue bool
  | Rpc_wake_up_status wait_queue int
  | Wake_up_all wait_queue
  | Printk_warning
  | Put_rpccred

text \<open>The objects this file shares between its entry points: the contexts and upcall
  messages by address, the list \<open>in_downcall\<close> of every pipe (first entry first), the
  pipe version and its users (\<open>struct sunrpc_net\<close>), the rate limit of \<open>warn_gssd\<close>
  and the recorded calls.\<close>

record (overloaded) ('w::len) gss_state =
  ctxs :: "'w ctx_store"
  msgs :: "nat \<Rightarrow> gss_upcall_msg option"
  in_downcall :: "nat \<Rightarrow> nat list"
  pipe_version :: int
  pipe_users :: int
  ratelimit :: "'w word"
  events :: "event list"

text \<open>\<open>struct gss_auth\<close>: the mechanism, the service, the two pipes \<open>pipe[0]\<close> and
  \<open>pipe[1]\<close>, and the principal \<open>cl_principal\<close> of its client.\<close>

record gss_auth =
  ga_mech :: gss_api_mech
  ga_service :: rpc_gss_svc
  ga_pipe :: "nat list"
  ga_cl_principal :: "string option"

definition get_pipe_version :: "('w::len) gss_state \<Rightarrow> int \<times> 'w gss_state" where
  "get_pipe_version s =
     (if pipe_version s \<ge> 0 then (pipe_version s, s\<lparr>pipe_users := pipe_users s + 1\<rparr>)
      else (- EAGAIN, s))"

definition put_pipe_version :: "('w::len) gss_state \<Rightarrow> 'w gss_state" where
  "put_pipe_version s =
     (if pipe_users s - 1 = 0 then s\<lparr>pipe_users := 0, pipe_version := - 1\<rparr>
      else s\<lparr>pipe_users := pipe_users s - 1\<rparr>)"

definition is_linked :: "nat \<Rightarrow> ('w::len) gss_state \<Rightarrow> bool" where
  "is_linked g s =
     (case msgs s g of None \<Rightarrow> False | Some m \<Rightarrow> g \<in> set (in_downcall s (msg_pipe m)))"

definition list_del_init :: "nat \<Rightarrow> ('w::len) gss_state \<Rightarrow> 'w gss_state" where
  "list_del_init g s =
     (case msgs s g of
        None \<Rightarrow> s
      | Some m \<Rightarrow>
          s\<lparr>in_downcall := (in_downcall s)(msg_pipe m := removeAll g (in_downcall s (msg_pipe m)))\<rparr>)"

definition msg_update ::
  "nat \<Rightarrow> (gss_upcall_msg \<Rightarrow> gss_upcall_msg) \<Rightarrow> ('w::len) gss_state \<Rightarrow> 'w gss_state" where
  "msg_update g f s = s\<lparr>msgs := (msgs s)(g := map_option f (msgs s g))\<rparr>"

definition log_event :: "event \<Rightarrow> ('w::len) gss_state \<Rightarrow> 'w gss_state" where
  "log_event e s = s\<lparr>events := events s @ [e]\<rparr>"

text \<open>\<open>gss_release_msg\<close>: the last reference gives the pipe version back, insists that
  the message is unlinked, drops the reference to its context and frees it.\<close>

definition gss_release_msg :: "nat \<Rightarrow> ('w::len) gss_state \<Rightarrow> fault + 'w gss_state" where
  "gss_release_msg g s =
     (case msgs s g of
        None \<Rightarrow> Inl OOPS
      | Some m \<Rightarrow>
          if msg_count m - 1 \<noteq> 0 then Inr (msg_update g (\<lambda>m. m\<lparr>msg_count := msg_count m - 1\<rparr>) s)
          else
            let s1 = put_pipe_version (msg_update g (\<lambda>m. m\<lparr>msg_count := 0\<rparr>) s) in
            if is_linked g s1 then Inl BUG
            else
              let s2 = (case msg_ctx m of
                          None \<Rightarrow> s1
                        | Some c \<Rightarrow> s1\<lparr>ctxs := gss_put_ctx c (ctxs s1)\<rparr>)
              in Inr (s2\<lparr>msgs := (msgs s2)(g := None)\<rparr>))"

text \<open>The loop of \<open>__gss_find_upcall\<close> over the list, and the function: the first entry
  of the pipe with the uid, with one more reference, or NULL.\<close>

fun find_upcall :: "(nat \<Rightarrow> gss_upcall_msg option) \<Rightarrow> nat list \<Rightarrow> u32 \<Rightarrow> nat option" where
  "find_upcall ms [] uid = None"
| "find_upcall ms (pos # rest) uid =
     (case ms pos of
        None \<Rightarrow> find_upcall ms rest uid
      | Some m \<Rightarrow> if msg_uid m \<noteq> uid then find_upcall ms rest uid else Some pos)"

definition gss_find_upcall ::
  "nat \<Rightarrow> u32 \<Rightarrow> ('w::len) gss_state \<Rightarrow> nat option \<times> 'w gss_state" where
  "gss_find_upcall pipe uid s =
     (case find_upcall (msgs s) (in_downcall s pipe) uid of
        None \<Rightarrow> (None, s)
      | Some pos \<Rightarrow> (Some pos, msg_update pos (\<lambda>m. m\<lparr>msg_count := msg_count m + 1\<rparr>) s))"

text \<open>\<open>gss_add_msg\<close>: under the lock of the pipe, the entry that exists for the uid, or
  else the new message, linked at the head of the list with one more reference.\<close>

definition gss_add_msg :: "nat \<Rightarrow> ('w::len) gss_state \<Rightarrow> nat \<times> 'w gss_state" where
  "gss_add_msg gss_msg s =
     (case msgs s gss_msg of
        None \<Rightarrow> (gss_msg, s)
      | Some m \<Rightarrow>
          (case gss_find_upcall (msg_pipe m) (msg_uid m) s of
             (None, s1) \<Rightarrow>
               (gss_msg,
                (msg_update gss_msg (\<lambda>m. m\<lparr>msg_count := msg_count m + 1\<rparr>) s1)
                  \<lparr>in_downcall := (in_downcall s1)
                     (msg_pipe m := gss_msg # in_downcall s1 (msg_pipe m))\<rparr>)
           | (Some old, s1) \<Rightarrow> (old, s1)))"

definition gss_unhash_msg_locked :: "nat \<Rightarrow> ('w::len) gss_state \<Rightarrow> 'w gss_state" where
  "gss_unhash_msg_locked g s =
     (let s1 = list_del_init g s;
          e = (case msgs s1 g of None \<Rightarrow> 0 | Some m \<Rightarrow> msg_errno m);
          s2 = log_event (Wake_up_all (Msg_waitqueue g))
                 (log_event (Rpc_wake_up_status (Msg_rpc_waitqueue g) e) s1)
      in msg_update g (\<lambda>m. m\<lparr>msg_count := msg_count m - 1\<rparr>) s2)"

definition gss_unhash_msg :: "nat \<Rightarrow> ('w::len) gss_state \<Rightarrow> 'w gss_state" where
  "gss_unhash_msg g s = (if \<not> is_linked g s then s else gss_unhash_msg_locked g s)"

text \<open>The messages linked into the list of a pipe for a uid; the invariant of the data
  model, that there is at most one for every pipe and uid; and that the lists hold live
  messages of their own pipe.\<close>

definition linked_for :: "('w::len) gss_state \<Rightarrow> nat \<Rightarrow> u32 \<Rightarrow> nat list" where
  "linked_for s pipe uid =
     filter (\<lambda>g. case msgs s g of None \<Rightarrow> False | Some m \<Rightarrow> msg_uid m = uid)
       (in_downcall s pipe)"

definition one_upcall_per_uid :: "('w::len) gss_state \<Rightarrow> bool" where
  "one_upcall_per_uid s = (\<forall>pipe uid. length (linked_for s pipe uid) \<le> 1)"

definition listed_live :: "('w::len) gss_state \<Rightarrow> bool" where
  "listed_live s =
     (\<forall>pipe. \<forall>g \<in> set (in_downcall s pipe). \<exists>m. msgs s g = Some m \<and> msg_pipe m = pipe)"

subsection \<open>Encoding an upcall\<close>

text \<open>What \<open>sprintf\<close> prints for \<open>%d\<close>.\<close>

function dec_nat :: "nat \<Rightarrow> string" where
  "dec_nat n =
     (if n < 10 then [char_of (48 + n)]
      else dec_nat (n div 10) @ [char_of (48 + n mod 10)])"
  by pat_completeness auto
termination
  by (relation "measure id") auto

declare dec_nat.simps [simp del]

definition dec_int :: "int \<Rightarrow> string" where
  "dec_int i = (if i < 0 then CHR ''-'' # dec_nat (nat (- i)) else dec_nat (nat i))"

definition bytes_of :: "string \<Rightarrow> u8 list" where
  "bytes_of str = map of_char str"

text \<open>A 32-bit value in the byte order of the machine, which is little-endian on the
  ARM targets of this tree: \<open>memcpy\<close> of an \<open>unsigned int\<close>.\<close>

definition native32 :: "u32 \<Rightarrow> u8 list" where
  "native32 x = rev (htonl x)"

definition of_native32 :: "u8 list \<Rightarrow> u32" where
  "of_native32 bs = ntohl (rev bs)"

text \<open>\<open>gss_encode_v0_msg\<close> and \<open>gss_encode_v1_msg\<close> give \<open>msg.data\<close> and
  \<open>msg.len\<close>. In the second, every \<open>sprintf\<close> appends its text at \<open>p\<close> and adds
  what it returns to \<open>msg.len\<close>; the uid is printed with \<open>%d\<close>, as a signed number;
  the \<open>BUG_ON\<close> on the length comes last.\<close>

definition gss_encode_v0_msg :: "u32 \<Rightarrow> u8 list \<times> nat" where
  "gss_encode_v0_msg uid = (native32 uid, 4)"

definition gss_encode_v1_msg ::
  "gss_api_mech \<Rightarrow> u32 \<Rightarrow> string option \<Rightarrow> string option \<Rightarrow> fault + (u8 list \<times> nat)" where
  "gss_encode_v1_msg mech uid cl_principal service_name =
     (let d0 = ''mech='' @ gm_name mech @ '' uid='' @ dec_int (sint uid) @ '' '';
          len0 = length d0;
          (d1, len1) = (case cl_principal of
                          None \<Rightarrow> (d0, len0)
                        | Some t \<Rightarrow> (d0 @ ''target='' @ t @ '' '',
                                     len0 + length (''target='' @ t @ '' '')));
          (d2, len2) = (case service_name of
                          None \<Rightarrow> (d1, len1)
                        | Some n \<Rightarrow> (d1 @ ''service='' @ n @ '' '',
                                     len1 + length (''service='' @ n @ '' '')));
          (d3, len3) = (case gm_upcall_enctypes mech of
                          None \<Rightarrow> (d2, len2)
                        | Some e \<Rightarrow> (d2 @ ''enctypes='' @ e @ '' '',
                                     len2 + length (''enctypes='' @ e @ '' '')));
          d4 = d3 @ [CHR 0x0A];
          len4 = len3 + length [CHR 0x0A]
      in if len4 > UPCALL_BUF_LEN then Inl BUG else Inr (bytes_of d4, len4))"

text \<open>The payload of a v1 upcall in the words of the specification:
  \<open>mech=<name> uid=<decimal> \<close>, then optionally \<open>target=<principal> \<close>,
  \<open>service=<name> \<close> and \<open>enctypes=<list> \<close>, then a newline. And the number
  that a string of decimal digits, with a sign or without, stands for.\<close>

definition spec_v1_payload ::
  "string \<Rightarrow> string \<Rightarrow> string option \<Rightarrow> string option \<Rightarrow> string option \<Rightarrow> string" where
  "spec_v1_payload name uid_decimal target service enctypes =
     ''mech='' @ name @ '' uid='' @ uid_decimal @ '' '' @
     (case target of None \<Rightarrow> [] | Some t \<Rightarrow> ''target='' @ t @ '' '') @
     (case service of None \<Rightarrow> [] | Some n \<Rightarrow> ''service='' @ n @ '' '') @
     (case enctypes of None \<Rightarrow> [] | Some e \<Rightarrow> ''enctypes='' @ e @ '' '') @
     [CHR 0x0A]"

definition value_of_digits :: "string \<Rightarrow> nat" where
  "value_of_digits ds = foldl (\<lambda>acc d. 10 * acc + (of_char d - 48)) 0 ds"

definition value_of_decimal :: "string \<Rightarrow> int" where
  "value_of_decimal ds =
     (case ds of
        [] \<Rightarrow> 0
      | d # rest \<Rightarrow> if d = CHR ''-'' then - int (value_of_digits rest)
                     else int (value_of_digits ds))"

definition gss_encode_msg ::
  "('w::len) gss_state \<Rightarrow> gss_auth \<Rightarrow> u32 \<Rightarrow> string option \<Rightarrow> fault + (u8 list \<times> nat)" where
  "gss_encode_msg s auth uid service_name =
     (if pipe_version s = 0 then Inr (gss_encode_v0_msg uid)
      else gss_encode_v1_msg (ga_mech auth) uid (ga_cl_principal auth) service_name)"

text \<open>\<open>gss_alloc_msg\<close>; \<open>new\<close> is what \<open>kzalloc\<close> returns, the address of the new
  message or NULL. The result is the error of \<open>ERR_PTR\<close> or the message.\<close>

definition gss_alloc_msg ::
  "gss_auth \<Rightarrow> u32 \<Rightarrow> string option \<Rightarrow> nat option \<Rightarrow> ('w::len) gss_state \<Rightarrow>
   fault + ((int + nat) \<times> 'w gss_state)" where
  "gss_alloc_msg auth uid service_name new s =
     (case new of
        None \<Rightarrow> Inr (Inl (- ENOMEM), s)
      | Some a \<Rightarrow>
          (case get_pipe_version s of (vers, s1) \<Rightarrow>
             if vers < 0 then Inr (Inl vers, s1)
             else
               (case gss_encode_msg s1 auth uid service_name of
                  Inl f \<Rightarrow> Inl f
                | Inr (d, l) \<Rightarrow>
                    Inr (Inr a,
                         s1\<lparr>msgs := (msgs s1)(a \<mapsto>
                              \<lparr>msg_count = 1, msg_uid = uid, msg_pipe = ga_pipe auth ! nat vers,
                               msg_data = d, msg_len = l, msg_errno = 0, msg_ctx = None\<rparr>)\<rparr>))))"

text \<open>\<open>gss_setup_upcall\<close>; \<open>res\<close> is what \<open>rpc_queue_upcall\<close> returns when it is
  called.\<close>

definition gss_setup_upcall ::
  "gss_auth \<Rightarrow> ('w::len) gss_cred \<Rightarrow> nat option \<Rightarrow> int \<Rightarrow> 'w gss_state \<Rightarrow>
   fault + ((int + nat) \<times> 'w gss_state)" where
  "gss_setup_upcall auth cred new res s =
     (case gss_alloc_msg auth (cr_uid cred) (gc_principal cred) new s of
        Inl f \<Rightarrow> Inl f
      | Inr (Inl e, s1) \<Rightarrow> Inr (Inl e, s1)
      | Inr (Inr gss_new, s1) \<Rightarrow>
          (case gss_add_msg gss_new s1 of (gss_msg, s2) \<Rightarrow>
             if gss_msg = gss_new then
               let pipe = (case msgs s2 gss_new of None \<Rightarrow> 0 | Some m \<Rightarrow> msg_pipe m);
                   s3 = log_event (Rpc_queue_upcall pipe gss_new res) s2
               in
                 if res \<noteq> 0 then Inr (Inl res, gss_unhash_msg gss_new s3)
                 else Inr (Inr gss_msg, s3)
             else
               (case gss_release_msg gss_new s2 of
                  Inl f \<Rightarrow> Inl f
                | Inr s3 \<Rightarrow> Inr (Inr gss_msg, s3))))"

subsection \<open>The downcall\<close>

text \<open>\<open>ERR_PTR\<close> and \<open>IS_ERR\<close> (linux/err.h): a pointer is an error for the values
  \<open>-MAX_ERRNO .. -1\<close>; any other value makes a pointer that \<open>IS_ERR\<close> does not
  recognise. Results of type \<open>int + nat\<close> are pointers: \<open>Inl\<close> the error that
  \<open>IS_ERR\<close> sees, \<open>Inr\<close> an offset into the message.\<close>

definition MAX_ERRNO :: int where "MAX_ERRNO = 4095"

definition ERR_PTR :: "int \<Rightarrow> int + nat" where
  "ERR_PTR e = (if - MAX_ERRNO \<le> e \<and> e < 0 then Inl e else Inr 0)"

text \<open>\<open>simple_get_bytes\<close> on the message \<open>buf\<close>, whose end is its length: the
  advanced pointer and the bytes copied to \<open>res\<close>, or \<open>-EFAULT\<close>.
  \<open>simple_get_netobj\<close> likewise; \<open>kmemdup_ok\<close> says whether \<open>kmemdup\<close> finds
  memory.\<close>

definition simple_get_bytes :: "u8 list \<Rightarrow> nat \<Rightarrow> nat \<Rightarrow> int + (nat \<times> u8 list)" where
  "simple_get_bytes buf p n =
     (let q = p + n in
      if q > length buf then Inl (- EFAULT) else Inr (q, take n (drop p buf)))"

definition simple_get_netobj :: "bool \<Rightarrow> u8 list \<Rightarrow> nat \<Rightarrow> int + (nat \<times> u8 list)" where
  "simple_get_netobj kmemdup_ok buf p =
     (case simple_get_bytes buf p 4 of
        Inl e \<Rightarrow> Inl e
      | Inr (p1, lb) \<Rightarrow>
          let l = unat (of_native32 lb);
              q = p1 + l
          in if q > length buf then Inl (- EFAULT)
             else if \<not> kmemdup_ok then Inl (- ENOMEM)
             else Inr (q, take l (drop p1 buf)))"

text \<open>What a downcall meets outside this file: whether \<open>kmalloc\<close> of the buffer,
  \<open>copy_from_user\<close> and \<open>kmemdup\<close> succeed, the address that \<open>kzalloc\<close> returns
  for the new context (or NULL), the mechanism of the authenticator, jiffies and
  \<open>HZ\<close>.\<close>

record (overloaded) ('w::len) downcall_env =
  dc_kmalloc_ok :: bool
  dc_copy_ok :: bool
  dc_ctx :: "nat option"
  dc_kmemdup_ok :: bool
  dc_mech :: gss_api_mech
  dc_jiffies :: "'w word"
  dc_HZ :: nat

text \<open>\<open>gss_fill_context\<close>: the pointer it returns and the context as it leaves it.\<close>

definition gss_fill_context ::
  "('w::len) downcall_env \<Rightarrow> u8 list \<Rightarrow> nat \<Rightarrow> 'w gss_cl_ctx \<Rightarrow> (int + nat) \<times> 'w gss_cl_ctx" where
  "gss_fill_context env buf p ctx =
     (case simple_get_bytes buf p 4 of
        Inl e \<Rightarrow> (Inl e, ctx)
      | Inr (p1, tb) \<Rightarrow>
          let timeout = (if of_native32 tb = 0 then GSSD_MIN_TIMEOUT else of_native32 tb);
              ctx1 = ctx\<lparr>gc_expiry := dc_jiffies env + ucast timeout * of_nat (dc_HZ env)\<rparr>
          in
            (case simple_get_bytes buf p1 4 of
               Inl e \<Rightarrow> (Inl e, ctx1)
             | Inr (p2, wb) \<Rightarrow>
                 let ctx2 = ctx1\<lparr>gc_win := of_native32 wb\<rparr> in
                 if gc_win ctx2 = 0 then
                   (case simple_get_bytes buf p2 4 of
                      Inl e \<Rightarrow> (Inl e, ctx2)
                    | Inr (p3, rb) \<Rightarrow>
                        (if sint (of_native32 rb) = - EKEYEXPIRED then ERR_PTR (- EKEYEXPIRED)
                         else ERR_PTR (- EACCES), ctx2))
                 else
                   (case simple_get_netobj (dc_kmemdup_ok env) buf p2 of
                      Inl e \<Rightarrow> (Inl e, ctx2)
                    | Inr (p3, wire) \<Rightarrow>
                        let ctx3 = ctx2\<lparr>gc_wire_ctx := wire\<rparr> in
                        (case simple_get_bytes buf p3 4 of
                           Inl e \<Rightarrow> (Inl e, ctx3)
                         | Inr (p4, sb) \<Rightarrow>
                             let seclen = unat (of_native32 sb);
                                 q = p4 + seclen
                             in
                               if q > length buf then (ERR_PTR (- EFAULT), ctx3)
                               else
                                 (case gss_import_sec_context (dc_mech env)
                                         (take seclen (drop p4 buf)) of
                                    (ret, h) \<Rightarrow>
                                      if ret < 0 then (ERR_PTR ret, ctx3\<lparr>gc_gss_ctx := h\<rparr>)
                                      else (Inr q, ctx3\<lparr>gc_gss_ctx := h\<rparr>))))))"

text \<open>\<open>uid_valid\<close> of a kuid made in the initial user namespace (linux/uidgid.h): any
  uid but \<open>(uid_t) -1\<close>.\<close>

definition uid_valid :: "u32 \<Rightarrow> bool" where
  "uid_valid uid = (uid \<noteq> - 1)"

text \<open>The code of \<open>gss_pipe_downcall\<close> from the label \<open>err_release_msg\<close> on, the
  message unlinked and released and the reference of the downcall to its context dropped;
  \<open>err\<close> is returned.\<close>

definition downcall_release ::
  "nat \<Rightarrow> nat \<Rightarrow> int \<Rightarrow> ('w::len) gss_state \<Rightarrow> fault + (int \<times> 'w gss_state)" where
  "downcall_release gss_msg ctx err s =
     (case gss_release_msg gss_msg (gss_unhash_msg_locked gss_msg s) of
        Inl f \<Rightarrow> Inl f
      | Inr s1 \<Rightarrow> Inr (err, s1\<lparr>ctxs := gss_put_ctx ctx (ctxs s1)\<rparr>))"

text \<open>\<open>gss_pipe_downcall\<close> on the pipe of the file, with the message \<open>src\<close> of the
  daemon, \<open>mlen\<close> its length. The result is the value returned.\<close>

definition gss_pipe_downcall ::
  "('w::len) downcall_env \<Rightarrow> nat \<Rightarrow> u8 list \<Rightarrow> 'w gss_state \<Rightarrow> fault + (int \<times> 'w gss_state)" where
  "gss_pipe_downcall env pipe src s =
     (let mlen = length src in
      if mlen > MSG_BUF_MAXSIZE then Inr (- EFBIG, s)
      else if \<not> dc_kmalloc_ok env then Inr (- ENOMEM, s)
      else if \<not> dc_copy_ok env then Inr (- EFAULT, s)
      else
        (case simple_get_bytes src 0 4 of
           Inl e \<Rightarrow> Inr (e, s)
         | Inr (p, ib) \<Rightarrow>
             let uid = of_native32 ib in
             if \<not> uid_valid uid then Inr (- EINVAL, s)
             else
               (case dc_ctx env of
                  None \<Rightarrow> Inr (- ENOMEM, s)
                | Some c \<Rightarrow>
                    let s1 = s\<lparr>ctxs := (ctxs s)(c \<mapsto> gss_alloc_context)\<rparr> in
                    (case gss_find_upcall pipe uid s1 of
                       (None, s2) \<Rightarrow> Inr (- ENOENT, s2\<lparr>ctxs := gss_put_ctx c (ctxs s2)\<rparr>)
                     | (Some gss_msg, s2) \<Rightarrow>
                         let s3 = list_del_init gss_msg s2 in
                         (case gss_fill_context env src p gss_alloc_context of
                            (r, ctx) \<Rightarrow>
                              let s4 = s3\<lparr>ctxs := (ctxs s3)(c \<mapsto> ctx)\<rparr> in
                              (case r of
                                 Inl err \<Rightarrow>
                                   if err = - EACCES \<or> err = - EKEYEXPIRED then
                                     downcall_release gss_msg c (int mlen)
                                       (msg_update gss_msg (\<lambda>m. m\<lparr>msg_errno := err\<rparr>) s4)
                                   else if err = - EFAULT \<or> err = - ENOMEM \<or>
                                           err = - EINVAL \<or> err = - ENOSYS then
                                     downcall_release gss_msg c err
                                       (msg_update gss_msg (\<lambda>m. m\<lparr>msg_errno := - EAGAIN\<rparr>) s4)
                                   else Inl BUG
                               | Inr q \<Rightarrow>
                                   downcall_release gss_msg c (int mlen)
                                     (msg_update gss_msg (\<lambda>m. m\<lparr>msg_ctx := Some c\<rparr>)
                                        (s4\<lparr>ctxs := gss_get_ctx c (ctxs s4)\<rparr>))))))))"

subsection \<open>Refreshing a credential\<close>

text \<open>\<open>gss_handle_downcall_result\<close> at the time \<open>jiffies\<close>: the credential and the
  state as it leaves them.\<close>

definition gss_handle_downcall_result ::
  "'w word \<Rightarrow> ('w::len) gss_cred \<Rightarrow> nat \<Rightarrow> 'w gss_state \<Rightarrow> fault + ('w gss_cred \<times> 'w gss_state)" where
  "gss_handle_downcall_result jiffies cred gss_msg s =
     (case msgs s gss_msg of
        None \<Rightarrow> Inl OOPS
      | Some m \<Rightarrow>
          let (cred1, cs1) =
                (if msg_errno m = 0 then
                   (case msg_ctx m of
                      None \<Rightarrow> (cred, ctxs s)
                    | Some c \<Rightarrow>
                        gss_cred_set_ctx
                          (cred\<lparr>cr_flags := clear_bit RPCAUTH_CRED_NEGATIVE (cr_flags cred)\<rparr>)
                          c (ctxs s))
                 else if msg_errno m = - EKEYEXPIRED then
                   (cred\<lparr>cr_flags := set_bit RPCAUTH_CRED_NEGATIVE (cr_flags cred)\<rparr>, ctxs s)
                 else (cred, ctxs s))
          in
            Inr (cred1\<lparr>gc_upcall_timestamp := jiffies, gc_upcall := None\<rparr>,
                 log_event (Rpc_wake_up_status (Msg_rpc_waitqueue gss_msg) (msg_errno m))
                   (s\<lparr>ctxs := cs1\<rparr>)))"

record (overloaded) ('w::len) rpc_task =
  tk_rqstp :: "'w rpc_rqst"
  tk_status :: int
  tk_timeout :: "'w word"

definition task_cred :: "('w::len) rpc_task \<Rightarrow> 'w gss_cred" where
  "task_cred task = rq_cred (tk_rqstp task)"

definition set_task_cred :: "('w::len) gss_cred \<Rightarrow> 'w rpc_task \<Rightarrow> 'w rpc_task" where
  "set_task_cred cred task = task\<lparr>tk_rqstp := (tk_rqstp task)\<lparr>rq_cred := cred\<rparr>\<rparr>"

definition gss_upcall_callback ::
  "'w word \<Rightarrow> ('w::len) rpc_task \<Rightarrow> 'w gss_state \<Rightarrow> fault + ('w rpc_task \<times> 'w gss_state)" where
  "gss_upcall_callback jiffies task s =
     (case gc_upcall (task_cred task) of
        None \<Rightarrow> Inl OOPS
      | Some gss_msg \<Rightarrow>
          (case gss_handle_downcall_result jiffies (task_cred task) gss_msg s of
             Inl f \<Rightarrow> Inl f
           | Inr (cred1, s1) \<Rightarrow>
               (case msgs s1 gss_msg of
                  None \<Rightarrow> Inl OOPS
                | Some m \<Rightarrow>
                    (case gss_release_msg gss_msg s1 of
                       Inl f \<Rightarrow> Inl f
                     | Inr s2 \<Rightarrow>
                         Inr ((set_task_cred cred1 task)\<lparr>tk_status := msg_errno m\<rparr>, s2)))))"

text \<open>In \<open>gss_create_upcall\<close>, one turn of the loop that waits for the downcall and
  the code after the loop. The caller holds a reference to \<open>gss_msg\<close>. \<open>None\<close>: the
  caller calls \<open>schedule\<close>, and takes the next turn once it is woken; else the value
  returned, with the credential and the state as the function leaves them.\<close>

definition ERESTARTSYS :: int where "ERESTARTSYS = 512"

definition gss_create_upcall_wait ::
  "bool \<Rightarrow> ('w::len) gss_cred \<Rightarrow> nat \<Rightarrow> 'w gss_state \<Rightarrow>
   fault + (int \<times> 'w gss_cred \<times> 'w gss_state) option" where
  "gss_create_upcall_wait fatal_signal_pending cred gss_msg s =
     (case msgs s gss_msg of
        None \<Rightarrow> Inl OOPS
      | Some m \<Rightarrow>
          if msg_ctx m \<noteq> None \<or> msg_errno m < 0 then
            (case (case msg_ctx m of
                     Some c \<Rightarrow> (0, gss_cred_set_ctx cred c (ctxs s))
                   | None \<Rightarrow> (msg_errno m, cred, ctxs s)) of
               (err, cred1, cs1) \<Rightarrow>
                 (case gss_release_msg gss_msg (s\<lparr>ctxs := cs1\<rparr>) of
                    Inl f \<Rightarrow> Inl f
                  | Inr s1 \<Rightarrow> Inr (Some (err, cred1, s1))))
          else if fatal_signal_pending then
            (case gss_release_msg gss_msg s of
               Inl f \<Rightarrow> Inl f
             | Inr s1 \<Rightarrow> Inr (Some (- ERESTARTSYS, cred, s1)))
          else Inr None)"

text \<open>What a refresh meets outside this file: jiffies, \<open>HZ\<close>, the module parameter
  \<open>expired_cred_retry_delay\<close>, the authenticator of the credential, the lookup in the
  credential cache (\<open>rpcauth_lookup_credcache\<close>: an error or the credential found),
  what \<open>kzalloc\<close> returns for a new message and what \<open>rpc_queue_upcall\<close> returns.\<close>

record (overloaded) ('w::len) refresh_env =
  rf_jiffies :: "'w word"
  rf_HZ :: nat
  rf_delay :: u32
  rf_auth :: gss_auth
  rf_lookup :: "auth_cred \<Rightarrow> int + 'w gss_cred"
  rf_new :: "nat option"
  rf_res :: int

definition warn_gssd :: "('w::len) refresh_env \<Rightarrow> 'w gss_state \<Rightarrow> 'w gss_state" where
  "warn_gssd env s =
     (if time_after (rf_jiffies env) (ratelimit s)
      then (log_event Printk_warning s)\<lparr>ratelimit := rf_jiffies env + of_nat (15 * rf_HZ env)\<rparr>
      else s)"

definition gss_refresh_upcall ::
  "('w::len) refresh_env \<Rightarrow> 'w rpc_task \<Rightarrow> 'w gss_state \<Rightarrow> fault + (int \<times> 'w rpc_task \<times> 'w gss_state)" where
  "gss_refresh_upcall env task s =
     (case gss_setup_upcall (rf_auth env) (task_cred task) (rf_new env) (rf_res env) s of
        Inl f \<Rightarrow> Inl f
      | Inr (Inl e, s1) \<Rightarrow>
          if e = - EAGAIN then
            Inr (- EAGAIN, task\<lparr>tk_timeout := of_nat (15 * rf_HZ env)\<rparr>,
                 log_event (Rpc_sleep_on Pipe_version_rpc_waitqueue False) (warn_gssd env s1))
          else Inr (e, task, s1)
      | Inr (Inr gss_msg, s1) \<Rightarrow>
          (case msgs s1 gss_msg of
             None \<Rightarrow> Inl OOPS
           | Some m \<Rightarrow>
               (case (case gc_upcall (task_cred task) of
                        Some up \<Rightarrow>
                          Inr (0, task, log_event (Rpc_sleep_on (Msg_rpc_waitqueue up) False) s1)
                      | None \<Rightarrow>
                          if msg_ctx m = None \<and> msg_errno m \<ge> 0 then
                            Inr (0,
                                 (set_task_cred ((task_cred task)\<lparr>gc_upcall := Some gss_msg\<rparr>) task)
                                   \<lparr>tk_timeout := 0\<rparr>,
                                 log_event (Rpc_sleep_on (Msg_rpc_waitqueue gss_msg) True)
                                   (msg_update gss_msg (\<lambda>m. m\<lparr>msg_count := msg_count m + 1\<rparr>) s1))
                          else
                            (case gss_handle_downcall_result (rf_jiffies env) (task_cred task)
                                    gss_msg s1 of
                               Inl f \<Rightarrow> Inl f
                             | Inr (cred1, s2) \<Rightarrow> Inr (msg_errno m, set_task_cred cred1 task, s2))) of
                  Inl f \<Rightarrow> Inl f
                | Inr (err, task1, s2) \<Rightarrow>
                    (case gss_release_msg gss_msg s2 of
                       Inl f \<Rightarrow> Inl f
                     | Inr s3 \<Rightarrow> Inr (err, task1, s3)))))"

definition gss_renew_cred ::
  "('w::len) refresh_env \<Rightarrow> 'w rpc_task \<Rightarrow> 'w gss_state \<Rightarrow> int \<times> 'w rpc_task \<times> 'w gss_state" where
  "gss_renew_cred env task s =
     (let oldcred = task_cred task;
          acred = \<lparr>ac_uid = cr_uid oldcred, ac_principal = gc_principal oldcred,
                   ac_machine_cred = (gc_principal oldcred \<noteq> None)\<rparr>
      in case rf_lookup env acred of
           Inl e \<Rightarrow> (e, task, s)
         | Inr new \<Rightarrow> (0, set_task_cred new task, log_event Put_rpccred s))"

definition gss_cred_is_negative_entry :: "('w::len) refresh_env \<Rightarrow> 'w gss_cred \<Rightarrow> int" where
  "gss_cred_is_negative_entry env cred =
     (if test_bit RPCAUTH_CRED_NEGATIVE (cr_flags cred) then
        let now = rf_jiffies env;
            begin = gc_upcall_timestamp cred;
            expire = begin + ucast (rf_delay env * of_nat (rf_HZ env))
        in if time_in_range_open now begin expire then 1 else 0
      else 0)"

text \<open>The code of \<open>gss_refresh\<close> after the test of the negative entry.\<close>

definition gss_refresh_rest ::
  "('w::len) refresh_env \<Rightarrow> 'w rpc_task \<Rightarrow> 'w gss_state \<Rightarrow> fault + (int \<times> 'w rpc_task \<times> 'w gss_state)" where
  "gss_refresh_rest env task s =
     (case (if \<not> test_bit RPCAUTH_CRED_NEW (cr_flags (task_cred task)) \<and>
               \<not> test_bit RPCAUTH_CRED_UPTODATE (cr_flags (task_cred task))
            then gss_renew_cred env task s
            else (0, task, s)) of
        (ret, task1, s1) \<Rightarrow>
          if ret < 0 then Inr (ret, task1, s1)
          else if test_bit RPCAUTH_CRED_NEW (cr_flags (task_cred task1))
          then gss_refresh_upcall env task1 s1
          else Inr (ret, task1, s1))"

definition gss_refresh ::
  "('w::len) refresh_env \<Rightarrow> 'w rpc_task \<Rightarrow> 'w gss_state \<Rightarrow> fault + (int \<times> 'w rpc_task \<times> 'w gss_state)" where
  "gss_refresh env task s =
     (if gss_cred_is_negative_entry env (task_cred task) \<noteq> 0 then Inr (- EKEYEXPIRED, task, s)
      else gss_refresh_rest env task s)"

subsection \<open>Concrete instances for the examples\<close>

text \<open>A mechanism whose operations all return the status \<open>maj\<close>: a 4-byte MIC, a wrap
  that adds 5 bytes to the head. An XDR environment whose encoder writes an 8-byte body.
  A send buffer with 40 bytes in its head; a receive buffer with the words 6 and 4 at the
  offsets 40 and 44 of its head. A context and a request that uses it.\<close>

definition demo_mech :: "u32 \<Rightarrow> gss_api_mech" where
  "demo_mech maj =
     \<lparr>gm_name = ''krb5'',
      gm_upcall_enctypes = None,
      gss_import_sec_context = (\<lambda>tok. (0, Some 1)),
      gss_get_mic = (\<lambda>h b. (maj, [1, 2, 3, 4])),
      gss_verify_mic = (\<lambda>h b mic. maj),
      gss_wrap = (\<lambda>h off b inpages.
         (maj, b\<lparr>head := (head b)\<lparr>iov_len := iov_len (head b) + 5\<rparr>, len := len b + 5\<rparr>)),
      gss_unwrap = (\<lambda>h off b. (maj, b))\<rparr>"

definition demo_ops :: xdr_ops where
  "demo_ops =
     \<lparr>encode = (\<lambda>b p. b\<lparr>head := (head b)\<lparr>iov_len := p + 8\<rparr>, len := of_nat (p + 8)\<rparr>),
      decode = (\<lambda>b p. 0),
      xdr_buf_subsegment = (\<lambda>b base l. Some (b\<lparr>len := l\<rparr>)),
      xdr_buf_read_netobj = (\<lambda>b off. Some [1, 2, 3, 4]),
      tsh_size = 4,
      PAGE_CACHE_SHIFT = 12\<rparr>"

definition demo_buf :: xdr_buf where
  "demo_buf =
     \<lparr>head = \<lparr>iov_base = (\<lambda>_. 0), iov_len = 40\<rparr>,
      tail = \<lparr>iov_base = (\<lambda>_. 0), iov_len = 0\<rparr>,
      pages = 0, page_base = 0, page_len = 0, buflen = 1024, len = 40\<rparr>"

definition demo_rcv_buf :: xdr_buf where
  "demo_rcv_buf =
     \<lparr>head = \<lparr>iov_base = put_be32 40 RPC_AUTH_GSS (put_be32 44 4 (\<lambda>_. 0)), iov_len = 100\<rparr>,
      tail = \<lparr>iov_base = (\<lambda>_. 0), iov_len = 0\<rparr>,
      pages = 0, page_base = 0, page_len = 0, buflen = 1024, len = 100\<rparr>"

definition demo_auth :: gss_auth where
  "demo_auth =
     \<lparr>ga_mech = demo_mech 0, ga_service = RPC_GSS_SVC_NONE, ga_pipe = [10, 11],
      ga_cl_principal = None\<rparr>"

definition demo_state :: "int \<Rightarrow> 32 gss_state" where
  "demo_state vers =
     \<lparr>ctxs = Map.empty, msgs = Map.empty, in_downcall = (\<lambda>_. []),
      pipe_version = vers, pipe_users = 1, ratelimit = 0, events = []\<rparr>"

definition demo_ctx :: "u32 \<Rightarrow> 32 gss_cl_ctx" where
  "demo_ctx s =
     \<lparr>ctx_count = 1, gc_proc = RPC_GSS_PROC_DATA, gc_seq = s, gc_expiry = 360000,
      gc_win = 128, gc_wire_ctx = [7, 7], gc_gss_ctx = Some 1\<rparr>"

definition demo_cred :: "rpc_gss_svc \<Rightarrow> 32 gss_cred" where
  "demo_cred svc =
     \<lparr>cr_uid = 1000, cr_flags = {RPCAUTH_CRED_UPTODATE}, gc_service = svc,
      gc_principal = None, gc_ctx = Some 9, gc_upcall = None, gc_upcall_timestamp = 0\<rparr>"

definition demo_req :: "rpc_gss_svc \<Rightarrow> 32 rpc_rqst" where
  "demo_req svc =
     \<lparr>rq_cred = demo_cred svc, rq_seqno = 0, rq_snd_buf = demo_buf, rq_rcv_buf = demo_rcv_buf,
      rq_enc_pages = None, rq_enc_pages_num = 0, rq_release_snd_buf = False,
      au_verfsize = 0, au_rslack = 0\<rparr>"

definition demo_refresh_env :: "32 word \<Rightarrow> 32 refresh_env" where
  "demo_refresh_env now =
     \<lparr>rf_jiffies = now, rf_HZ = 100, rf_delay = GSS_RETRY_EXPIRED, rf_auth = demo_auth,
      rf_lookup = (\<lambda>_. Inl (- ENOMEM)), rf_new = Some 20, rf_res = 0\<rparr>"

definition demo_negative_task :: "32 rpc_task" where
  "demo_negative_task =
     \<lparr>tk_rqstp = (demo_req RPC_GSS_SVC_NONE)
        \<lparr>rq_cred := (demo_cred RPC_GSS_SVC_NONE)
           \<lparr>cr_flags := {RPCAUTH_CRED_NEW, RPCAUTH_CRED_NEGATIVE}, gc_ctx := None,
            gc_upcall_timestamp := 1000\<rparr>\<rparr>,
      tk_status = 0, tk_timeout = 0\<rparr>"

definition demo_downcall_env :: "int \<Rightarrow> 32 downcall_env" where
  "demo_downcall_env ret =
     \<lparr>dc_kmalloc_ok = True, dc_copy_ok = True, dc_ctx = Some 30, dc_kmemdup_ok = True,
      dc_mech = (demo_mech 0)\<lparr>gss_import_sec_context := (\<lambda>tok. (ret, None))\<rparr>,
      dc_jiffies = 5000, dc_HZ = 100\<rparr>"

definition demo_upcall_msg :: gss_upcall_msg where
  "demo_upcall_msg =
     \<lparr>msg_count = 2, msg_uid = 1000, msg_pipe = 10, msg_data = native32 1000, msg_len = 4,
      msg_errno = 0, msg_ctx = None\<rparr>"

definition demo_pending :: "32 gss_state" where
  "demo_pending =
     (demo_state 0)\<lparr>msgs := [20 \<mapsto> demo_upcall_msg], in_downcall := (\<lambda>_. [])(10 := [20])\<rparr>"

definition demo_error_downcall :: "u32 \<Rightarrow> u8 list" where
  "demo_error_downcall e = native32 1000 @ native32 0 @ native32 0 @ native32 e"

definition demo_context_downcall :: "u8 list" where
  "demo_context_downcall =
     native32 1000 @ native32 0 @ native32 128 @ native32 2 @ [7, 7] @ native32 3 @ [1, 2, 3]"

definition demo_new_cred :: "32 gss_cred" where
  "demo_new_cred =
     \<lparr>cr_uid = 1000, cr_flags = {RPCAUTH_CRED_NEW}, gc_service = RPC_GSS_SVC_NONE,
      gc_principal = None, gc_ctx = None, gc_upcall = Some 20, gc_upcall_timestamp = 0\<rparr>"

definition demo_waiting_task :: "32 rpc_task" where
  "demo_waiting_task =
     \<lparr>tk_rqstp = (demo_req RPC_GSS_SVC_NONE)\<lparr>rq_cred := demo_new_cred\<rparr>,
      tk_status = 0, tk_timeout = 0\<rparr>"
section \<open>Properties\<close>

subsection \<open>Signed reading of a word and the jiffies comparisons\<close>

lemma odd_div_half: 
  assumes "0 \<le> (u::int)" "u < 2 * m" "0 < m" 
  shows "odd (u div m) \<longleftrightarrow> m \<le> u"
proof (cases "u < m")
  case True
  then show ?thesis using assms by simp
next
  case False
  then have "0 \<le> u - m" "u - m < m" using assms by auto
  then have "(u - m) div m = 0" by simp
  moreover have "u div m = (u - m) div m + 1" using assms
    by (metis diff_add_cancel div_add_self2 less_irrefl)
  ultimately show ?thesis using False by simp
qed

lemma sint_nonneg_iff:
  "0 \<le> sint (d::'w::len word) \<longleftrightarrow> uint d < 2 ^ (LENGTH('w) - 1)"
proof -
  have "(2::int) ^ LENGTH('w) = 2 ^ Suc (LENGTH('w) - 1)" by simp
  then have "(2::int) ^ LENGTH('w) = 2 * 2 ^ (LENGTH('w) - 1)" by (simp only: power_Suc)
  then have lt: "uint d < 2 * 2 ^ (LENGTH('w) - 1)"
    using uint_lt2p[of d] by simp
  have pos: "(0::int) < 2 ^ (LENGTH('w) - 1)" by simp
  have nn: "0 \<le> uint d" by simp
  have "0 \<le> sint d \<longleftrightarrow> \<not> bit (uint d) (LENGTH('w) - Suc 0)"
    by (simp add: sint_uint)
  also have "\<dots> \<longleftrightarrow> \<not> odd (uint d div 2 ^ (LENGTH('w) - 1))"
    by (simp add: bit_iff_odd)
  also have "\<dots> \<longleftrightarrow> uint d < 2 ^ (LENGTH('w) - 1)"
    using odd_div_half[OF nn lt pos] by linarith
  finally show ?thesis .
qed

lemma sint_neg_iff:
  "sint (d::'w::len word) < 0 \<longleftrightarrow> 2 ^ (LENGTH('w) - 1) \<le> uint d"
  using sint_nonneg_iff[of d] by linarith

lemma sint_nonneg_iff_unat:
  "0 \<le> sint (d::'w::len word) \<longleftrightarrow> unat d < 2 ^ (LENGTH('w) - 1)"
proof -
  have "uint d < 2 ^ (LENGTH('w) - 1) \<longleftrightarrow> int (unat d) < int (2 ^ (LENGTH('w) - 1))"
    by simp
  then show ?thesis unfolding sint_nonneg_iff by (simp only: of_nat_less_iff)
qed

lemma half_double: "(2::nat) ^ LENGTH('w::len) = 2 * 2 ^ (LENGTH('w) - 1)"
proof -
  have "(2::nat) ^ LENGTH('w) = 2 ^ Suc (LENGTH('w) - 1)" by simp
  then show ?thesis by (simp only: power_Suc)
qed

lemma time_after_plain:
  fixes a b :: "'w::len word"
  assumes "unat a < unat b + 2 ^ (LENGTH('w) - 1)" "unat b < unat a + 2 ^ (LENGTH('w) - 1)"
  shows "time_after a b \<longleftrightarrow> b < a"
proof -
  have "time_after a b \<longleftrightarrow> \<not> unat (b - a) < 2 ^ (LENGTH('w) - 1)"
    unfolding time_after_def using sint_nonneg_iff_unat[of "b - a"] by linarith
  also have "\<dots> \<longleftrightarrow> unat b < unat a"
    using assms half_double[where 'w='w] by (simp add: unat_sub_if') arith
  finally show ?thesis by (simp add: word_less_nat_alt)
qed

subsection \<open>Installing a context on a credential\<close>

lemma run_trace_ne: "run_trace fs s \<noteq> []"
  by (cases fs) auto

lemma set_ctx_new:
  "test_bit RPCAUTH_CRED_NEW (cr_flags cred) \<Longrightarrow>
   gss_cred_set_ctx cred ctx cs =
     (cred\<lparr>gc_ctx := Some ctx,
           cr_flags := clear_bit RPCAUTH_CRED_NEW (set_bit RPCAUTH_CRED_UPTODATE (cr_flags cred))\<rparr>,
      gss_get_ctx ctx cs)"
  by (simp add: gss_cred_set_ctx_def gss_cred_set_ctx_trace_def gss_cred_set_ctx_steps_def)

lemma set_ctx_not_new:
  "\<not> test_bit RPCAUTH_CRED_NEW (cr_flags cred) \<Longrightarrow> gss_cred_set_ctx cred ctx cs = (cred, cs)"
  by (simp add: gss_cred_set_ctx_def gss_cred_set_ctx_trace_def)

lemma set_ctx_clears_new:
  "\<not> test_bit RPCAUTH_CRED_NEW (cr_flags (fst (gss_cred_set_ctx cred ctx cs)))"
  by (cases "test_bit RPCAUTH_CRED_NEW (cr_flags cred)")
     (simp_all add: set_ctx_new set_ctx_not_new test_bit_def clear_bit_def)

lemma trace_order:
  "test_bit RPCAUTH_CRED_NEW (cr_flags cred) \<Longrightarrow>
   (c, cs') \<in> set (gss_cred_set_ctx_trace cred ctx cs) \<Longrightarrow>
   (cr_flags c \<noteq> cr_flags cred \<longrightarrow> gc_ctx c = Some ctx) \<and>
   (\<not> test_bit RPCAUTH_CRED_NEW (cr_flags c) \<longrightarrow>
       test_bit RPCAUTH_CRED_UPTODATE (cr_flags c) \<and> gc_ctx c = Some ctx)"
  by (auto simp add: gss_cred_set_ctx_trace_def gss_cred_set_ctx_steps_def test_bit_def set_bit_def clear_bit_def)

lemma apply_write_new_clear:
  "\<not> test_bit RPCAUTH_CRED_NEW (cr_flags (fst s)) \<Longrightarrow>
   \<not> test_bit RPCAUTH_CRED_NEW (cr_flags (fst (apply_cred_write w s))) \<and>
   gc_ctx (fst (apply_cred_write w s)) = gc_ctx (fst s)"
  by (cases w; cases s) (auto simp: set_ctx_not_new test_bit_def set_bit_def clear_bit_def)

lemma fold_write_new_clear:
  "\<not> test_bit RPCAUTH_CRED_NEW (cr_flags (fst s)) \<Longrightarrow>
   gc_ctx (fst (fold apply_cred_write ws s)) = gc_ctx (fst s)"
proof (induction ws arbitrary: s)
  case Nil then show ?case by simp
next
  case (Cons w ws)
  from apply_write_new_clear[OF Cons.prems, of w]
  show ?case using Cons.IH[of "apply_cred_write w s"] by simp
qed

lemma fold_write_new:
  "test_bit RPCAUTH_CRED_NEW (cr_flags (fst s)) \<Longrightarrow> gc_ctx (fst s) = None \<Longrightarrow>
   gc_ctx (fst (fold apply_cred_write ws s)) =
     (case set_ctx_args ws of [] \<Rightarrow> None | p # _ \<Rightarrow> Some p)"
proof (induction ws arbitrary: s)
  case Nil then show ?case by simp
next
  case (Cons w ws)
  obtain cred cs where s: "s = (cred, cs)" by (cases s)
  show ?case
  proof (cases w)
    case (Set_ctx p)
    have "\<not> test_bit RPCAUTH_CRED_NEW (cr_flags (fst (apply_cred_write w s)))"
      using Set_ctx s set_ctx_clears_new[of cred p cs] by simp
    from fold_write_new_clear[OF this, of ws]
    show ?thesis using Set_ctx s Cons.prems by (simp add: set_ctx_new)
  next
    case Clear_uptodate
    then show ?thesis using Cons s
      by (simp add: test_bit_def clear_bit_def)
  next
    case Set_negative
    then show ?thesis using Cons s
      by (simp add: test_bit_def set_bit_def)
  next
    case Clear_negative
    then show ?thesis using Cons s
      by (simp add: test_bit_def clear_bit_def)
  qed
qed

text \<open>Claim C10. \<open>gss_cred_set_ctx\<close> is guarded by the NEW bit: on a credential whose
  NEW bit is clear it returns the credential and the context store as they were. On a NEW
  credential it takes a reference, publishes the pointer, sets UPTODATE and clears NEW, in
  this order: in every state the call goes through, flags that differ from the flags at
  entry, and a clear NEW bit in particular, come with the pointer already published (and a
  clear NEW bit with UPTODATE set). The call always leaves NEW clear, and no write of this
  file sets it again: from \<open>gss_create_cred\<close> on, through any sequence of such writes, the
  context pointer of the credential is the argument of the first \<open>gss_cred_set_ctx\<close>, or
  still NULL when there was none.\<close>

theorem gss_cred_set_ctx_once:
  fixes cred :: "('w::len) gss_cred"
  shows
  "(\<not> test_bit RPCAUTH_CRED_NEW (cr_flags cred) \<longrightarrow> gss_cred_set_ctx cred ctx cs = (cred, cs)) \<and>
   (test_bit RPCAUTH_CRED_NEW (cr_flags cred) \<longrightarrow>
      gss_cred_set_ctx cred ctx cs =
        (cred\<lparr>gc_ctx := Some ctx,
              cr_flags := clear_bit RPCAUTH_CRED_NEW
                            (set_bit RPCAUTH_CRED_UPTODATE (cr_flags cred))\<rparr>,
         gss_get_ctx ctx cs) \<and>
      (\<forall>(c, cs') \<in> set (gss_cred_set_ctx_trace cred ctx cs).
         (cr_flags c \<noteq> cr_flags cred \<longrightarrow> gc_ctx c = Some ctx) \<and>
         (\<not> test_bit RPCAUTH_CRED_NEW (cr_flags c) \<longrightarrow>
            test_bit RPCAUTH_CRED_UPTODATE (cr_flags c) \<and> gc_ctx c = Some ctx))) \<and>
   \<not> test_bit RPCAUTH_CRED_NEW (cr_flags (fst (gss_cred_set_ctx cred ctx cs))) \<and>
   gc_ctx (fst (fold apply_cred_write ws (gss_create_cred service acred :: 'w gss_cred, cs))) =
     (case set_ctx_args ws of [] \<Rightarrow> None | p # _ \<Rightarrow> Some p)"
proof -
  have "test_bit RPCAUTH_CRED_NEW (cr_flags (gss_create_cred service acred :: 'w gss_cred))"
       "gc_ctx (gss_create_cred service acred :: 'w gss_cred) = None"
    by (simp_all add: gss_create_cred_def test_bit_def)
  then have "gc_ctx (fst (fold apply_cred_write ws (gss_create_cred service acred :: 'w gss_cred, cs))) =
     (case set_ctx_args ws of [] \<Rightarrow> None | p # _ \<Rightarrow> Some p)"
    using fold_write_new[of "(gss_create_cred service acred :: 'w gss_cred, cs)" ws] by simp
  moreover have "test_bit RPCAUTH_CRED_NEW (cr_flags cred) \<longrightarrow>
      (\<forall>(c, cs') \<in> set (gss_cred_set_ctx_trace cred ctx cs).
         (cr_flags c \<noteq> cr_flags cred \<longrightarrow> gc_ctx c = Some ctx) \<and>
         (\<not> test_bit RPCAUTH_CRED_NEW (cr_flags c) \<longrightarrow>
            test_bit RPCAUTH_CRED_UPTODATE (cr_flags c) \<and> gc_ctx c = Some ctx))"
    using trace_order[of cred _ _ ctx cs] by blast
  ultimately show ?thesis
    using set_ctx_new[of cred ctx cs] set_ctx_not_new[of cred ctx cs] set_ctx_clears_new[of cred ctx cs]
    by blast
qed

theorem gss_cred_set_ctx_once_witness:
  "gss_cred_set_ctx
     (gss_create_cred RPC_GSS_SVC_NONE \<lparr>ac_uid = 1000, ac_principal = None, ac_machine_cred = False\<rparr>
        :: 32 gss_cred) 7 Map.empty =
     (\<lparr>cr_uid = 1000, cr_flags = {RPCAUTH_CRED_UPTODATE}, gc_service = RPC_GSS_SVC_NONE,
       gc_principal = None, gc_ctx = Some 7, gc_upcall = None, gc_upcall_timestamp = 0\<rparr>,
      Map.empty) \<and>
   gss_cred_set_ctx
     (\<lparr>cr_uid = 1000, cr_flags = {RPCAUTH_CRED_UPTODATE}, gc_service = RPC_GSS_SVC_NONE,
       gc_principal = None, gc_ctx = Some 7, gc_upcall = None, gc_upcall_timestamp = 0\<rparr> :: 32 gss_cred)
     8 Map.empty =
     (\<lparr>cr_uid = 1000, cr_flags = {RPCAUTH_CRED_UPTODATE}, gc_service = RPC_GSS_SVC_NONE,
       gc_principal = None, gc_ctx = Some 7, gc_upcall = None, gc_upcall_timestamp = 0\<rparr>,
      Map.empty) \<and>
   gc_ctx (fst (fold apply_cred_write [Clear_negative, Set_ctx 7, Clear_uptodate, Set_ctx 8]
     (gss_create_cred RPC_GSS_SVC_NONE \<lparr>ac_uid = 1000, ac_principal = None, ac_machine_cred = False\<rparr>
        :: 32 gss_cred, Map.empty))) = Some 7"
proof -
  let ?c0 = "gss_create_cred RPC_GSS_SVC_NONE
      \<lparr>ac_uid = 1000, ac_principal = None, ac_machine_cred = False\<rparr> :: 32 gss_cred"
  let ?c1 = "\<lparr>cr_uid = 1000, cr_flags = {RPCAUTH_CRED_UPTODATE}, gc_service = RPC_GSS_SVC_NONE,
       gc_principal = None, gc_ctx = Some 7, gc_upcall = None, gc_upcall_timestamp = 0\<rparr> :: 32 gss_cred"
  have n0: "test_bit RPCAUTH_CRED_NEW (cr_flags ?c0)"
    by (simp add: gss_create_cred_def test_bit_def)
  have n1: "\<not> test_bit RPCAUTH_CRED_NEW (cr_flags ?c1)"
    by (simp add: test_bit_def)
  have a: "gss_cred_set_ctx ?c0 7 Map.empty = (?c1, Map.empty)"
    using gss_cred_set_ctx_once[of ?c0 7 Map.empty] n0
    by (simp add: gss_create_cred_def gss_get_ctx_def set_bit_def clear_bit_def insert_Diff_if)
  have b: "gss_cred_set_ctx ?c1 8 Map.empty = (?c1, Map.empty)"
    using gss_cred_set_ctx_once[of ?c1 8 Map.empty] n1 by blast
  have c: "gc_ctx (fst (fold apply_cred_write [Clear_negative, Set_ctx 7, Clear_uptodate, Set_ctx 8]
     (?c0, Map.empty))) = Some 7"
    using gss_cred_set_ctx_once[of ?c0 7 Map.empty "[Clear_negative, Set_ctx 7, Clear_uptodate, Set_ctx 8]"
        RPC_GSS_SVC_NONE "\<lparr>ac_uid = 1000, ac_principal = None, ac_machine_cred = False\<rparr>"]
    by simp
  show ?thesis using a b c by blast
qed

subsection \<open>Matching\<close>

text \<open>Claim C5. \<open>gss_match\<close> on a cached credential \<open>rc\<close> and a requested key
  \<open>acred\<close>. A NEW credential skips the checks of the context and is matched by principal
  or uid alone. A credential that is not NEW (its context pointer valid) does not match
  when jiffies is after the expiry of its context (\<open>time_after\<close>) or when it is not
  UPTODATE; otherwise it is matched by principal or uid too. With a principal requested the
  match holds exactly when the credential has the same principal; with none requested,
  exactly when the credential has none and the uids are equal. As long as jiffies and the
  expiry are less than half the range of \<open>unsigned long\<close> apart, \<open>time_after\<close> is
  the plain comparison: the expiry is less than jiffies.\<close>

theorem gss_match_rules:
  fixes rc :: "('w::len) gss_cred"
  shows
  "(test_bit RPCAUTH_CRED_NEW (cr_flags rc) \<longrightarrow>
      gss_match cs now acred rc =
        Inr (case ac_principal acred of
               Some p \<Rightarrow> if gc_principal rc = Some p then 1 else 0
             | None \<Rightarrow> if gc_principal rc = None \<and> cr_uid rc = ac_uid acred then 1 else 0)) \<and>
   (\<not> test_bit RPCAUTH_CRED_NEW (cr_flags rc) \<and> gc_ctx rc = Some p \<and> cs p = Some ctx \<longrightarrow>
      gss_match cs now acred rc =
        Inr (if time_after now (gc_expiry ctx) \<or> \<not> test_bit RPCAUTH_CRED_UPTODATE (cr_flags rc)
             then 0
             else case ac_principal acred of
                    Some p \<Rightarrow> if gc_principal rc = Some p then 1 else 0
                  | None \<Rightarrow> if gc_principal rc = None \<and> cr_uid rc = ac_uid acred then 1 else 0)) \<and>
   (unat now < unat (gc_expiry ctx) + 2 ^ (LENGTH('w) - 1) \<and>
    unat (gc_expiry ctx) < unat now + 2 ^ (LENGTH('w) - 1) \<longrightarrow>
      time_after now (gc_expiry ctx) = (gc_expiry ctx < now))"
  using time_after_plain[of now "gc_expiry ctx"]
  by (auto simp add: gss_match_def gss_match_out_def split: option.splits)

theorem gss_match_rules_witness:
  "gss_match
     (Map.empty(1 \<mapsto> \<lparr>ctx_count = 1, gc_proc = RPC_GSS_PROC_DATA, gc_seq = 1, gc_expiry = 100,
                        gc_win = 128, gc_wire_ctx = [], gc_gss_ctx = Some 0\<rparr>))
     (50 :: 32 word)
     \<lparr>ac_uid = 1000, ac_principal = None, ac_machine_cred = False\<rparr>
     \<lparr>cr_uid = 1000, cr_flags = {RPCAUTH_CRED_UPTODATE}, gc_service = RPC_GSS_SVC_NONE,
       gc_principal = None, gc_ctx = Some 1, gc_upcall = None, gc_upcall_timestamp = 0\<rparr> = Inr 1 \<and>
   gss_match
     (Map.empty(1 \<mapsto> \<lparr>ctx_count = 1, gc_proc = RPC_GSS_PROC_DATA, gc_seq = 1, gc_expiry = 100,
                        gc_win = 128, gc_wire_ctx = [], gc_gss_ctx = Some 0\<rparr>))
     (200 :: 32 word)
     \<lparr>ac_uid = 1000, ac_principal = None, ac_machine_cred = False\<rparr>
     \<lparr>cr_uid = 1000, cr_flags = {RPCAUTH_CRED_UPTODATE}, gc_service = RPC_GSS_SVC_NONE,
       gc_principal = None, gc_ctx = Some 1, gc_upcall = None, gc_upcall_timestamp = 0\<rparr> = Inr 0 \<and>
   gss_match Map.empty (200 :: 32 word)
     \<lparr>ac_uid = 0, ac_principal = Some ''nfs@host'', ac_machine_cred = True\<rparr>
     \<lparr>cr_uid = 0, cr_flags = {RPCAUTH_CRED_NEW}, gc_service = RPC_GSS_SVC_NONE,
       gc_principal = Some ''nfs@host'', gc_ctx = None, gc_upcall = None, gc_upcall_timestamp = 0\<rparr> = Inr 1 \<and>
   time_after (200 :: 32 word) 100 = ((100 :: 32 word) < 200)"
proof -
  let ?ctx = "\<lparr>ctx_count = 1, gc_proc = RPC_GSS_PROC_DATA, gc_seq = 1, gc_expiry = 100 :: 32 word,
                        gc_win = 128, gc_wire_ctx = [], gc_gss_ctx = Some 0\<rparr>"
  let ?cs = "Map.empty(1 \<mapsto> ?ctx)"
  let ?ac = "\<lparr>ac_uid = 1000, ac_principal = None, ac_machine_cred = False\<rparr>"
  let ?rc = "\<lparr>cr_uid = 1000, cr_flags = {RPCAUTH_CRED_UPTODATE}, gc_service = RPC_GSS_SVC_NONE,
       gc_principal = None, gc_ctx = Some 1, gc_upcall = None, gc_upcall_timestamp = 0\<rparr> :: 32 gss_cred"
  have a: "gss_match ?cs 50 ?ac ?rc = Inr 1"
    using gss_match_rules[of ?rc ?cs 50 ?ac 1 ?ctx]
    by (simp add: test_bit_def time_after_def)
  have b: "gss_match ?cs 200 ?ac ?rc = Inr 0"
    using gss_match_rules[of ?rc ?cs 200 ?ac 1 ?ctx]
    by (simp add: test_bit_def time_after_def)
  have c: "gss_match Map.empty (200 :: 32 word)
     \<lparr>ac_uid = 0, ac_principal = Some ''nfs@host'', ac_machine_cred = True\<rparr>
     \<lparr>cr_uid = 0, cr_flags = {RPCAUTH_CRED_NEW}, gc_service = RPC_GSS_SVC_NONE,
       gc_principal = Some ''nfs@host'', gc_ctx = None, gc_upcall = None, gc_upcall_timestamp = 0\<rparr> = Inr 1"
    using gss_match_rules[of "\<lparr>cr_uid = 0, cr_flags = {RPCAUTH_CRED_NEW}, gc_service = RPC_GSS_SVC_NONE,
       gc_principal = Some ''nfs@host'', gc_ctx = None, gc_upcall = None, gc_upcall_timestamp = 0 :: 32 word\<rparr>"
       Map.empty 200 "\<lparr>ac_uid = 0, ac_principal = Some ''nfs@host'', ac_machine_cred = True\<rparr>"]
    by (simp add: test_bit_def)
  have d: "time_after (200 :: 32 word) 100 = ((100 :: 32 word) < 200)"
    using gss_match_rules[of ?rc ?cs 200 ?ac 1 ?ctx] by simp
  show ?thesis using a b c d by blast
qed

subsection \<open>Memory, byte order and the pad of a wrapped request\<close>

lemma store_outside: "i < p \<or> p + length bs \<le> i \<Longrightarrow> store p bs m i = m i"
  by (induction bs arbitrary: p m) auto

lemma store_inside: "p \<le> i \<Longrightarrow> i < p + length bs \<Longrightarrow> store p bs m i = bs ! (i - p)"
proof (induction bs arbitrary: p m)
  case Nil then show ?case by simp
next
  case (Cons b bs)
  show ?case
  proof (cases "i = p")
    case True
    then show ?thesis by (simp add: store_outside)
  next
    case False
    then have "Suc p \<le> i" "i < Suc p + length bs" using Cons.prems by auto
    from Cons.IH[OF this] show ?thesis using False Cons.prems
      by (simp add: nth_Cons')
  qed
qed

lemma load_store: "load p (length bs) (store p bs m) = bs"
  by (rule nth_equalityI) (simp_all add: load_def store_inside)

lemma load_store_outside:
  "q + n \<le> p \<or> p + length bs \<le> q \<Longrightarrow> load q n (store p bs m) = load q n m"
  by (auto simp add: load_def store_outside)

lemma ntohl_htonl: "ntohl (htonl x) = x"
  unfolding ntohl_def htonl_def
  apply simp
  apply (rule bit_word_eqI)
  subgoal for n
    apply (cases "n < 8"; cases "n < 16"; cases "n < 24")
    apply (auto simp add: bit_simps)
    done
  done

lemma length_htonl: "length (htonl x) = 4"
  by (simp add: htonl_def)

lemma get_put_be32: "get_be32 p (put_be32 p x m) = x"
  using load_store[of p "htonl x" m]
  by (simp add: get_be32_def put_be32_def length_htonl ntohl_htonl)

lemma get_put_be32_outside:
  "q + 4 \<le> p \<or> p + length bs \<le> q \<Longrightarrow> get_be32 q (store p bs m) = get_be32 q m"
  by (simp add: get_be32_def load_store_outside)

lemma and3_mod4: "unat ((x::u32) AND 3) = unat x mod 4"
proof -
  have "x AND 3 = take_bit 2 x"
    by (simp add: take_bit_eq_mask mask_eq_exp_minus_1)
  then have "x AND 3 = x mod 4" by (simp add: take_bit_eq_mod)
  then show ?thesis by (simp add: unat_mod_distrib)
qed

lemma unat_minus1_mod4: "int (unat ((l::u32) - 1) mod 4) = (uint l - 1) mod 4"
proof (cases "l = 0")
  case True
  then show ?thesis by (simp add: unsigned_minus_1_eq_mask mask_eq_exp_minus_1)
next
  case False
  then have "unat (l - 1) = unat l - 1"
    by (simp add: unat_minus_one)
  moreover have "0 < unat l" using False by (simp add: unat_gt_0)
  ultimately show ?thesis
    by (simp add: zmod_int of_nat_diff)
qed

lemma pad_val: "int (3 - unat (((l::u32) - 1) AND 3)) = 3 - (uint l - 1) mod 4"
proof -
  have "unat (l - 1) mod 4 < 4" by simp
  then have "int (3 - unat (l - 1) mod 4) = 3 - int (unat (l - 1) mod 4)"
    by linarith
  then show ?thesis by (simp only: and3_mod4 unat_minus1_mod4)
qed

lemma pad_aligns: "(uint (l::u32) + (3 - (uint l - 1) mod 4)) mod 4 = 0"
proof -
  have "(uint l - 1) mod 4 \<in> {0,1,2,3}" by auto
  then show ?thesis by presburger
qed

lemma pad_nat: "3 - unat (((l::u32) - 1) AND 3) = nat (3 - (uint l - 1) mod 4)"
  using pad_val[of l] by linarith

lemma priv_finish_ok:
  fixes req :: "('w::len) rpc_rqst"
  assumes "gss_wrap_req_priv_finish maj_stat b offset p req = Inr (0, req')"
  defines "l \<equiv> len b - offset"
  defines "pad \<equiv> nat (3 - (uint l - 1) mod 4)"
  defines "b' \<equiv> rq_snd_buf req'"
  shows "in_tail b' = in_tail b"
    and "iov_len (end_iov b') = iov_len (end_iov b) + pad"
    and "load (iov_len (end_iov b)) pad (iov_base (end_iov b')) = replicate pad 0"
    and "len b' = len b + of_nat pad"
    and "in_tail b \<or> p + 4 \<le> iov_len (head b) \<Longrightarrow> get_be32 p (iov_base (head b')) = l"
    and "pad \<le> 3"
    and "(uint l + int pad) mod 4 = 0"
proof -
  have nb: "\<not> len b > buflen b" and okm: "maj_stat = GSS_S_CONTEXT_EXPIRED \<or> maj_stat = 0"
    using assms(1) by (auto simp add: gss_wrap_req_priv_finish_def EIO_def split: if_splits)
  define b6 where "b6 = set_head_mem (put_be32 p (len b - offset) (iov_base (head b))) b"
  define iov1 where "iov1 = \<lparr>iov_base = store (iov_len (end_iov b6)) (replicate pad 0) (iov_base (end_iov b6)),
                    iov_len = iov_len (end_iov b6) + pad\<rparr>"
  have len6: "len b6 = len b" by (simp add: b6_def set_head_mem_def)
  have padeq: "3 - unat ((len b6 - offset - 1) AND 3) = pad"
    unfolding pad_def l_def len6 by (rule pad_nat)
  have b': "b' = (set_end_iov iov1 b6)\<lparr>len := len b6 + of_nat pad\<rparr>"
    using assms(1) nb okm padeq
    by (auto simp add: gss_wrap_req_priv_finish_def Let_def b'_def b6_def iov1_def split: if_splits)
  have it6: "in_tail b6 = in_tail b" by (simp add: b6_def set_head_mem_def in_tail_def)
  have same6: "page_len b6 = page_len b" "tail b6 = tail b"
    by (simp_all add: b6_def set_head_mem_def)
  show "in_tail b' = in_tail b"
    unfolding b' by (auto simp add: set_end_iov_def in_tail_def iov1_def same6 end_iov_def)
  have e': "end_iov b' = iov1"
    unfolding b' by (auto simp add: set_end_iov_def in_tail_def iov1_def same6 end_iov_def)
  have l6: "iov_len (end_iov b6) = iov_len (end_iov b)"
    by (simp add: b6_def set_head_mem_def end_iov_def in_tail_def)
  show "iov_len (end_iov b') = iov_len (end_iov b) + pad"
    by (simp add: e' iov1_def l6)
  show "load (iov_len (end_iov b)) pad (iov_base (end_iov b')) = replicate pad 0"
    using load_store[of "iov_len (end_iov b)" "replicate pad 0"]
    by (simp add: e' iov1_def l6)
  show "len b' = len b + of_nat pad"
    by (simp add: b' len6)
  show "pad \<le> 3" unfolding pad_def by simp
  show "(uint l + int pad) mod 4 = 0"
  proof -
    have "0 \<le> 3 - (uint l - 1) mod 4" by simp
    then have "int pad = 3 - (uint l - 1) mod 4" unfolding pad_def by simp
    then show ?thesis using pad_aligns[of l] by simp
  qed
  show "get_be32 p (iov_base (head b')) = l" if h: "in_tail b \<or> p + 4 \<le> iov_len (head b)"
  proof (cases "in_tail b")
    case True
    then have "head b' = head b6"
      unfolding b' by (simp add: set_end_iov_def it6)
    then show ?thesis by (simp add: b6_def set_head_mem_def get_put_be32 l_def)
  next
    case False
    then have hl: "p + 4 \<le> iov_len (head b)" using h by simp
    have "head b' = iov1" unfolding b' using False by (simp add: set_end_iov_def it6)
    moreover have "end_iov b6 = head b6" using False by (simp add: end_iov_def it6)
    ultimately show ?thesis using hl
      by (simp add: iov1_def b6_def set_head_mem_def get_put_be32_outside get_put_be32 l_def)
  qed
qed

lemma priv_calls_finish:
  fixes req :: "('w::len) rpc_rqst"
  assumes "gss_wrap_req_priv gm ops al ctx req p = Inr (0, req')"
  shows "\<exists>h snd4 inpages req2 maj_stat b.
           gc_gss_ctx ctx = Some h \<and>
           gss_wrap gm h (of_nat (p + 4)) snd4 inpages = (maj_stat, b) \<and>
           gss_wrap_req_priv_finish maj_stat b (of_nat (p + 4)) p req2 = Inr (0, req')"
  using assms
  apply (auto simp add: gss_wrap_req_priv_def Let_def split: prod.splits if_splits option.splits)
     apply blast+
  done

text \<open>Claim C8. When \<open>gss_wrap_req_priv\<close> returns 0, the mechanism's \<open>gss_wrap\<close> was
  called with the offset of the seqno field and left a buffer \<open>b\<close>. With \<open>l\<close> the
  length of \<open>b\<close> minus that offset (the ciphertext length) and
  \<open>pad = 3 - ((l - 1) mod 4)\<close>: the length field in the head holds \<open>l\<close> (the head
  reaching the seqno field, or the data ending in the tail); the segment that ends the
  data has grown by exactly \<open>pad\<close> bytes, all zero; the length of the buffer has grown
  by \<open>pad\<close>; \<open>pad\<close> is between 0 and 3 and \<open>l + pad\<close> is a multiple of 4.\<close>

theorem gss_wrap_req_priv_pad:
  fixes req :: "('w::len) rpc_rqst"
  assumes "gss_wrap_req_priv gm ops al ctx req p = Inr (0, req')"
  shows "\<exists>h snd4 inpages maj_stat b.
           gc_gss_ctx ctx = Some h \<and>
           gss_wrap gm h (of_nat (p + 4)) snd4 inpages = (maj_stat, b) \<and>
           (let l = len b - of_nat (p + 4);
                pad = nat (3 - (uint l - 1) mod 4);
                b' = rq_snd_buf req'
            in (in_tail b \<or> p + 4 \<le> iov_len (head b) \<longrightarrow> get_be32 p (iov_base (head b')) = l) \<and>
               in_tail b' = in_tail b \<and>
               iov_len (end_iov b') = iov_len (end_iov b) + pad \<and>
               load (iov_len (end_iov b)) pad (iov_base (end_iov b')) = replicate pad 0 \<and>
               len b' = len b + of_nat pad \<and>
               pad \<le> 3 \<and>
               (uint l + int pad) mod 4 = 0)"
proof -
  from priv_calls_finish[OF assms] obtain h snd4 inpages req2 maj_stat b where
    h: "gc_gss_ctx ctx = Some h" and
    w: "gss_wrap gm h (of_nat (p + 4)) snd4 inpages = (maj_stat, b)" and
    f: "gss_wrap_req_priv_finish maj_stat b (of_nat (p + 4)) p req2 = Inr (0, req')"
    by blast
  note r = priv_finish_ok[OF f]
  have "(let l = len b - of_nat (p + 4);
                pad = nat (3 - (uint l - 1) mod 4);
                b' = rq_snd_buf req'
            in (in_tail b \<or> p + 4 \<le> iov_len (head b) \<longrightarrow> get_be32 p (iov_base (head b')) = l) \<and>
               in_tail b' = in_tail b \<and>
               iov_len (end_iov b') = iov_len (end_iov b) + pad \<and>
               load (iov_len (end_iov b)) pad (iov_base (end_iov b')) = replicate pad 0 \<and>
               len b' = len b + of_nat pad \<and>
               pad \<le> 3 \<and>
               (uint l + int pad) mod 4 = 0)"
    unfolding Let_def using r by blast
  with h w show ?thesis by blast
qed

lemma demo_priv_eval:
  "\<exists>req'. gss_wrap_req_priv (demo_mech 0) demo_ops Kmalloc_failed (demo_ctx 1)
             (demo_req RPC_GSS_SVC_PRIVACY) 40 = Inr (0, req') \<and>
          len (rq_snd_buf req') = 64 \<and> iov_len (head (rq_snd_buf req')) = 64"
  by (simp add: gss_wrap_req_priv_def gss_wrap_req_priv_finish_def gss_wrap_req_encode_def
      alloc_enc_pages_def demo_mech_def demo_ops_def demo_ctx_def demo_req_def demo_buf_def
      set_head_mem_def in_tail_def end_iov_def set_end_iov_def Let_def
      GSS_S_CONTEXT_EXPIRED_def)

theorem gss_wrap_req_priv_pad_witness:
  "\<exists>req'. gss_wrap_req_priv (demo_mech 0) demo_ops Kmalloc_failed (demo_ctx 1)
             (demo_req RPC_GSS_SVC_PRIVACY) 40 = Inr (0, req') \<and>
          len (rq_snd_buf req') = 64 \<and>
          (\<exists>h snd4 inpages maj_stat b.
             gss_wrap (demo_mech 0) h (of_nat (40 + 4)) snd4 inpages = (maj_stat, b) \<and>
             len (rq_snd_buf req') = len b + of_nat (nat (3 - (uint (len b - of_nat (40 + 4)) - 1) mod 4)))"
proof -
  from demo_priv_eval obtain req' where
    e: "gss_wrap_req_priv (demo_mech 0) demo_ops Kmalloc_failed (demo_ctx 1)
             (demo_req RPC_GSS_SVC_PRIVACY) 40 = Inr (0, req')"
    and l: "len (rq_snd_buf req') = 64" by blast
  from gss_wrap_req_priv_pad[OF e] obtain h snd4 inpages maj_stat b where
    "gss_wrap (demo_mech 0) h (of_nat (40 + 4)) snd4 inpages = (maj_stat, b)"
    "len (rq_snd_buf req') = len b + of_nat (nat (3 - (uint (len b - of_nat (40 + 4)) - 1) mod 4))"
    unfolding Let_def by blast
  with e l show ?thesis by blast
qed

subsection \<open>Sequence numbers\<close>

lemma get_deref:
  fixes cred :: "('w::len) gss_cred"
  assumes "gc_ctx cred = Some c" "cs c = Some ctx"
  shows "gss_cred_get_ctx cred cs = (Some c, cs(c \<mapsto> ctx\<lparr>ctx_count := ctx_count ctx + 1\<rparr>))"
    and "deref_ctx (Some c) (cs(c \<mapsto> ctx\<lparr>ctx_count := ctx_count ctx + 1\<rparr>)) =
           Inr (c, ctx\<lparr>ctx_count := ctx_count ctx + 1\<rparr>)"
  using assms by (simp_all add: gss_cred_get_ctx_def gss_get_ctx_def deref_ctx_def)

lemma put_after_get:
  fixes ctx :: "('w::len) gss_cl_ctx"
  assumes "ctx_count ctx \<noteq> 0"
  shows "gss_put_ctx c (cs(c \<mapsto> ctx\<lparr>ctx_count := ctx_count ctx + 1, gc_seq := s\<rparr>)) =
           cs(c \<mapsto> ctx\<lparr>gc_seq := s\<rparr>)"
  using assms by (simp add: gss_put_ctx_def)

lemma marshal_step:
  fixes req :: "('w::len) rpc_rqst"
  assumes "gc_ctx (rq_cred req) = Some c" "cs c = Some ctx" "gc_gss_ctx ctx = Some h"
    "ctx_count ctx \<noteq> 0"
  shows "\<exists>r req'. gss_marshal gm ops req p cs =
            Inr (r, req', cs(c \<mapsto> ctx\<lparr>gc_seq := gc_seq ctx + 1\<rparr>)) \<and>
          rq_seqno req' = gc_seq ctx"
  using assms put_after_get[OF assms(4), of c cs "gc_seq ctx + 1"]
  by (simp add: gss_marshal_def get_deref Let_def split: prod.splits)

lemma marshal_calls_seq:
  fixes rs :: "(('w::len) rpc_rqst \<times> nat) list"
  assumes "\<forall>(req, p) \<in> set rs. gc_ctx (rq_cred req) = Some c"
    "cs c = Some ctx" "gc_gss_ctx ctx = Some h" "ctx_count ctx \<noteq> 0"
  shows "marshal_calls gm ops rs cs =
           (map (\<lambda>i. gc_seq ctx + of_nat i) [0 ..< length rs],
            cs(c \<mapsto> ctx\<lparr>gc_seq := gc_seq ctx + of_nat (length rs)\<rparr>))"
  using assms
proof (induction rs arbitrary: cs ctx)
  case Nil
  then show ?case by (simp add: fun_upd_idem)
next
  case (Cons a rs)
  obtain req p where a: "a = (req, p)" by (cases a)
  from Cons.prems a have c: "gc_ctx (rq_cred req) = Some c" by simp
  from marshal_step[of req c cs ctx h gm ops p] c Cons.prems(2,3,4) obtain r req' where
    m: "gss_marshal gm ops req p cs = Inr (r, req', cs(c \<mapsto> ctx\<lparr>gc_seq := gc_seq ctx + 1\<rparr>))"
    and s: "rq_seqno req' = gc_seq ctx" by blast
  let ?ctx1 = "ctx\<lparr>gc_seq := gc_seq ctx + 1\<rparr>"
  let ?cs1 = "cs(c \<mapsto> ?ctx1)"
  have ih: "marshal_calls gm ops rs ?cs1 =
           (map (\<lambda>i. gc_seq ?ctx1 + of_nat i) [0 ..< length rs],
            ?cs1(c \<mapsto> ?ctx1\<lparr>gc_seq := gc_seq ?ctx1 + of_nat (length rs)\<rparr>))"
    using Cons.prems by (intro Cons.IH) auto
  have shift: "map (\<lambda>i. gc_seq ctx + of_nat i) [0 ..< Suc (length rs)] =
      gc_seq ctx # map (\<lambda>i. gc_seq ctx + 1 + of_nat i) [0 ..< length rs]"
    by (simp add: upt_conv_Cons map_Suc_upt[symmetric] add.assoc del: upt_Suc)
  have fin: "?cs1(c \<mapsto> ?ctx1\<lparr>gc_seq := gc_seq ?ctx1 + of_nat (length rs)\<rparr>) =
      cs(c \<mapsto> ctx\<lparr>gc_seq := gc_seq ctx + of_nat (length (a # rs))\<rparr>)"
    by (simp add: add.assoc)
  have "marshal_calls gm ops (a # rs) cs =
      (rq_seqno req' # map (\<lambda>i. gc_seq ?ctx1 + of_nat i) [0 ..< length rs],
       ?cs1(c \<mapsto> ?ctx1\<lparr>gc_seq := gc_seq ?ctx1 + of_nat (length rs)\<rparr>))"
    unfolding a by (simp only: marshal_calls.simps m ih sum.case prod.case)
  also have "\<dots> = (map (\<lambda>i. gc_seq ctx + of_nat i) [0 ..< length (a # rs)],
            cs(c \<mapsto> ctx\<lparr>gc_seq := gc_seq ctx + of_nat (length (a # rs))\<rparr>))"
    unfolding fin using s shift by simp
  finally show ?case .
qed

lemma seqs_increasing:
  fixes s :: u32
  assumes "unat s + n \<le> 2 ^ 32"
  shows "sorted_wrt (<) (map (\<lambda>i. s + of_nat i) [0 ..< n])"
proof -
  have u: "unat (s + of_nat i) = unat s + i" if "i < n" for i
  proof -
    have "unat s + i < 2 ^ 32" using that assms by simp
    then show ?thesis by (simp add: unat_word_ariths unat_of_nat)
  qed
  show ?thesis
    by (auto simp add: sorted_wrt_iff_nth_less word_less_nat_alt u)
qed

text \<open>Claim C1, as amended. \<open>gss_alloc_context\<close> gives a context with procedure
  DATA, sequence number 1 and one reference. Successive calls of \<open>gss_marshal\<close> on
  requests whose credentials hold the same live context all return, and the call number
  \<open>i\<close> (from 0) leaves the sequence number \<open>gc_seq + i\<close> in its request, the counter
  of the context moving on by one per call, modulo \<open>2^32\<close>. As long as the 32-bit
  counter does not wrap during the calls the numbers are strictly increasing, hence
  distinct; from a fresh context that is the first \<open>2^32 - 1\<close> calls.\<close>

theorem marshal_seqnos_increase:
  fixes rs :: "(('w::len) rpc_rqst \<times> nat) list"
  assumes "\<forall>(req, p) \<in> set rs. gc_ctx (rq_cred req) = Some c"
    and "cs c = Some ctx" and "gc_gss_ctx ctx = Some h" and "ctx_count ctx \<noteq> 0"
  shows "gc_proc (gss_alloc_context :: 'w gss_cl_ctx) = RPC_GSS_PROC_DATA \<and>
         gc_seq (gss_alloc_context :: 'w gss_cl_ctx) = 1 \<and>
         ctx_count (gss_alloc_context :: 'w gss_cl_ctx) = 1 \<and>
         fst (marshal_calls gm ops rs cs) = map (\<lambda>i. gc_seq ctx + of_nat i) [0 ..< length rs] \<and>
         snd (marshal_calls gm ops rs cs) c =
           Some (ctx\<lparr>gc_seq := gc_seq ctx + of_nat (length rs)\<rparr>) \<and>
         (unat (gc_seq ctx) + length rs \<le> 2 ^ 32 \<longrightarrow>
            sorted_wrt (<) (fst (marshal_calls gm ops rs cs)) \<and>
            distinct (fst (marshal_calls gm ops rs cs)))"
proof -
  have mc: "marshal_calls gm ops rs cs =
           (map (\<lambda>i. gc_seq ctx + of_nat i) [0 ..< length rs],
            cs(c \<mapsto> ctx\<lparr>gc_seq := gc_seq ctx + of_nat (length rs)\<rparr>))"
    using marshal_calls_seq[of rs c cs ctx h gm ops] assms by blast
  have "sorted_wrt (<) (fst (marshal_calls gm ops rs cs)) \<and>
        distinct (fst (marshal_calls gm ops rs cs))"
    if "unat (gc_seq ctx) + length rs \<le> 2 ^ 32"
    using seqs_increasing[OF that] by (simp add: mc strict_sorted_iff)
  then show ?thesis by (simp add: mc gss_alloc_context_def)
qed

lemma demo_marshal_pre:
  "\<forall>(req, p) \<in> set (replicate n (demo_req svc, 40 :: nat)). gc_ctx (rq_cred req) = Some 9"
  by (simp add: demo_req_def demo_cred_def)

theorem marshal_seqnos_increase_witness:
  "fst (marshal_calls (demo_mech 0) demo_ops (replicate 3 (demo_req RPC_GSS_SVC_NONE, 40))
         (Map.empty(9 \<mapsto> demo_ctx 1))) = [1, 2, 3] \<and>
   sorted_wrt (<) (fst (marshal_calls (demo_mech 0) demo_ops
         (replicate 3 (demo_req RPC_GSS_SVC_NONE, 40)) (Map.empty(9 \<mapsto> demo_ctx 1))))"
proof -
  have a: "(Map.empty(9 \<mapsto> demo_ctx 1)) (9 :: nat) = Some (demo_ctx 1)" by simp
  have b: "gc_gss_ctx (demo_ctx 1) = Some 1" "ctx_count (demo_ctx 1) \<noteq> 0" "gc_seq (demo_ctx 1) = 1"
    by (simp_all add: demo_ctx_def)
  have c: "unat (gc_seq (demo_ctx 1)) + length (replicate 3 (demo_req RPC_GSS_SVC_NONE, 40 :: nat)) \<le> 2 ^ 32"
    by (simp add: b)
  have d: "map (\<lambda>i. gc_seq (demo_ctx 1) + of_nat i)
             [0 ..< length (replicate 3 (demo_req RPC_GSS_SVC_NONE, 40 :: nat))] = [1, 2, 3]"
    by (simp add: b upt_rec)
  show ?thesis
    using marshal_seqnos_increase[of "replicate 3 (demo_req RPC_GSS_SVC_NONE, 40)" 9
        "Map.empty(9 \<mapsto> demo_ctx 1)" "demo_ctx 1" 1 "demo_mech 0" demo_ops]
      demo_marshal_pre[of 3 RPC_GSS_SVC_NONE] a b c d by simp
qed

text \<open>The claim as stated fails once the counter wraps: \<open>2^32\<close> calls on a freshly
  allocated context (given a mechanism handle) assign \<open>1, 2, ..., 2^32 - 1, 0\<close>.\<close>

theorem marshal_seqnos_wrap_counterexample:
  "\<not> sorted_wrt (<) (fst (marshal_calls (demo_mech 0) demo_ops
         (replicate 4294967296 (demo_req RPC_GSS_SVC_NONE, 40))
         (Map.empty(9 \<mapsto> (gss_alloc_context :: 32 gss_cl_ctx)\<lparr>gc_gss_ctx := Some 1\<rparr>))))"
proof
  let ?ctx = "(gss_alloc_context :: 32 gss_cl_ctx)\<lparr>gc_gss_ctx := Some 1\<rparr>"
  let ?rs = "replicate 4294967296 (demo_req RPC_GSS_SVC_NONE, 40 :: nat)"
  let ?l = "fst (marshal_calls (demo_mech 0) demo_ops ?rs (Map.empty(9 \<mapsto> ?ctx)))"
  assume s: "sorted_wrt (<) ?l"
  have a: "(Map.empty(9 \<mapsto> ?ctx)) (9 :: nat) = Some ?ctx" by simp
  have b: "gc_gss_ctx ?ctx = Some 1" "ctx_count ?ctx \<noteq> 0" "gc_seq ?ctx = 1"
    by (simp_all add: gss_alloc_context_def)
  have l: "?l = map (\<lambda>i. 1 + of_nat i) [0 ..< 4294967296]"
    using marshal_calls_seq[of ?rs 9 "Map.empty(9 \<mapsto> ?ctx)" ?ctx 1 "demo_mech 0" demo_ops]
      demo_marshal_pre[of 4294967296 RPC_GSS_SVC_NONE] a b
    by simp
  let ?m = "map (\<lambda>i. (1 :: u32) + of_nat i) [0 ..< 4294967296]"
  have s': "sorted_wrt (<) ?m" using s unfolding l .
  have "?m ! 4294967294 < ?m ! 4294967295"
    by (rule sorted_wrt_nth_less[OF s']) simp_all
  moreover have "?m ! 4294967294 = (4294967295 :: u32)" "?m ! 4294967295 = (0 :: u32)"
    by simp_all
  ultimately show False by simp
qed

subsection \<open>A context that the mechanism reports expired\<close>



















subsection \<open>The text of a v1 upcall\<close>

lemma digit_val: "d < 10 \<Longrightarrow> (of_char (char_of (48 + d :: nat)) :: nat) = 48 + d"
  by simp

lemma value_of_digits_snoc:
  "value_of_digits (ds @ [d]) = 10 * value_of_digits ds + (of_char d - 48)"
  by (simp add: value_of_digits_def)

lemma value_of_dec_nat: "value_of_digits (dec_nat n) = n"
proof (induction n rule: dec_nat.induct)
  case (1 n)
  show ?case
  proof (cases "n < 10")
    case True
    then show ?thesis
      by (subst dec_nat.simps) (simp add: value_of_digits_def)
  next
    case False
    then have "value_of_digits (dec_nat (n div 10)) = n div 10" using 1 by simp
    moreover have "(of_char (char_of (48 + n mod 10)) :: nat) = 48 + n mod 10"
      by (rule digit_val) simp
    ultimately show ?thesis using False
      by (subst dec_nat.simps) (simp add: value_of_digits_snoc)
  qed
qed

lemma dec_nat_nonempty: "dec_nat n \<noteq> []"
  by (subst dec_nat.simps) simp

lemma dec_nat_no_minus: "hd (dec_nat n) \<noteq> CHR ''-''"
proof (induction n rule: dec_nat.induct)
  case (1 n)
  show ?case
  proof (cases "n < 10")
    case True
    have "char_of (48 + n) \<noteq> CHR ''-''"
    proof
      assume "char_of (48 + n) = CHR ''-''"
      then have "(of_char (char_of (48 + n)) :: nat) = of_char CHR ''-''" by simp
      then show False using True by simp
    qed
    then show ?thesis using True by (subst dec_nat.simps) simp
  next
    case False
    then show ?thesis using 1 dec_nat_nonempty[of "n div 10"]
      by (subst dec_nat.simps) simp
  qed
qed

lemma value_of_dec_int: "value_of_decimal (dec_int i) = i"
proof (cases "i < 0")
  case True
  then show ?thesis by (simp add: value_of_decimal_def dec_int_def value_of_dec_nat)
next
  case False
  obtain d rest where dr: "dec_nat (nat i) = d # rest"
    using dec_nat_nonempty[of "nat i"] by (cases "dec_nat (nat i)") auto
  then have "d \<noteq> CHR ''-''" using dec_nat_no_minus[of "nat i"] by simp
  then show ?thesis using False dr value_of_dec_nat[of "nat i"]
    by (simp add: value_of_decimal_def dec_int_def)
qed

lemma length_bytes_of: "length (bytes_of t) = length t"
  by (simp add: bytes_of_def)

text \<open>Claim C7. What \<open>gss_encode_v1_msg\<close> produces is the payload of the
  specification, \<open>mech=<name> uid=<decimal> \<close> with the optional \<open>target=\<close>,
  \<open>service=\<close> and \<open>enctypes=\<close> fields and the final newline, the decimal being the
  uid read as a signed 32-bit number, together with its length in \<open>msg.len\<close>, when the
  text is at most 128 bytes long (exactly 128 included); a longer text stops at the
  \<open>BUG_ON\<close> and no message is produced. So a message that is produced has
  \<open>msg.len\<close> bytes of data and at most 128.\<close>

theorem gss_encode_v1_msg_limit:
  "gss_encode_v1_msg mech uid cl_principal service_name =
     (let txt = spec_v1_payload (gm_name mech) (dec_int (sint uid)) cl_principal service_name
                  (gm_upcall_enctypes mech)
      in if length txt \<le> 128 then Inr (bytes_of txt, length txt) else Inl BUG) \<and>
   value_of_decimal (dec_int (sint uid)) = sint uid \<and>
   (\<forall>d l. gss_encode_v1_msg mech uid cl_principal service_name = Inr (d, l) \<longrightarrow>
      length d = l \<and> l \<le> 128)"
proof -
  have a: "gss_encode_v1_msg mech uid cl_principal service_name =
     (let txt = spec_v1_payload (gm_name mech) (dec_int (sint uid)) cl_principal service_name
                  (gm_upcall_enctypes mech)
      in if length txt \<le> 128 then Inr (bytes_of txt, length txt) else Inl BUG)"
    by (cases cl_principal; cases service_name; cases "gm_upcall_enctypes mech")
      (simp_all add: gss_encode_v1_msg_def spec_v1_payload_def UPCALL_BUF_LEN_def Let_def
        not_le[symmetric])
  show ?thesis
    unfolding a by (simp add: value_of_dec_int Let_def length_bytes_of)
qed

lemma dec_1000: "dec_int 1000 = ''1000''"
  by (simp add: dec_int_def dec_nat.simps char_of_def bit_Suc_0_iff)

theorem gss_encode_v1_msg_limit_witness:
  "gss_encode_v1_msg (demo_mech 0) 1000 (Some (replicate 100 CHR ''a'')) None =
     Inr (bytes_of (''mech=krb5 uid=1000 target='' @ replicate 100 CHR ''a'' @ '' '' @ [CHR 0x0A]), 128) \<and>
   gss_encode_v1_msg (demo_mech 0) 1000 (Some (replicate 101 CHR ''a'')) None = Inl BUG \<and>
   gss_encode_v1_msg (demo_mech 0) 1000 None None = Inr (bytes_of (''mech=krb5 uid=1000 '' @ [CHR 0x0A]), 20)"
  using gss_encode_v1_msg_limit[of "demo_mech 0" 1000 "Some (replicate 100 CHR ''a'')" None]
    gss_encode_v1_msg_limit[of "demo_mech 0" 1000 "Some (replicate 101 CHR ''a'')" None]
    gss_encode_v1_msg_limit[of "demo_mech 0" 1000 None None]
  by (simp add: spec_v1_payload_def demo_mech_def dec_1000 Let_def)

subsection \<open>One upcall message for a pipe and a uid\<close>

lemma find_upcall_None:
  "find_upcall ms xs uid = None \<longleftrightarrow>
   filter (\<lambda>g. case ms g of None \<Rightarrow> False | Some m \<Rightarrow> msg_uid m = uid) xs = []"
  by (induction xs) (auto split: option.splits)

lemma find_upcall_Some:
  "find_upcall ms xs uid = Some pos \<Longrightarrow>
   pos \<in> set xs \<and> (\<exists>m. ms pos = Some m \<and> msg_uid m = uid)"
  by (induction xs) (auto split: option.splits if_splits)

lemma find_upcall_hd:
  "find_upcall ms xs uid = Some pos \<Longrightarrow>
   hd (filter (\<lambda>g. case ms g of None \<Rightarrow> False | Some m \<Rightarrow> msg_uid m = uid) xs) = pos"
  by (induction xs) (auto split: option.splits if_splits)

lemma linked_for_msg_update:
  assumes "\<And>m. msg_uid (f m) = msg_uid m"
  shows "linked_for (msg_update g f s) pipe uid = linked_for s pipe uid"
  unfolding linked_for_def msg_update_def
  by (rule filter_cong) (auto simp add: assms split: option.splits)

lemma msg_update_in_downcall [simp]: "in_downcall (msg_update g f s) = in_downcall s"
  by (simp add: msg_update_def)

lemma log_event_simps [simp]:
  "in_downcall (log_event e s) = in_downcall s" "msgs (log_event e s) = msgs s"
  by (simp_all add: log_event_def)

lemma linked_for_log_event [simp]: "linked_for (log_event e s) = linked_for s"
  by (intro ext) (simp add: linked_for_def)

lemma inv_msg_update:
  assumes "\<And>m. msg_uid (f m) = msg_uid m" "\<And>m. msg_pipe (f m) = msg_pipe m"
  shows "one_upcall_per_uid s \<Longrightarrow> one_upcall_per_uid (msg_update g f s)"
    and "listed_live s \<Longrightarrow> listed_live (msg_update g f s)"
proof -
  show "one_upcall_per_uid s \<Longrightarrow> one_upcall_per_uid (msg_update g f s)"
    by (simp add: one_upcall_per_uid_def linked_for_msg_update[of f, OF assms(1)])
  show "listed_live s \<Longrightarrow> listed_live (msg_update g f s)"
    unfolding listed_live_def
    by (fastforce simp add: msg_update_def assms(2))
qed

lemma inv_log_event:
  "one_upcall_per_uid (log_event e s) = one_upcall_per_uid s"
  "listed_live (log_event e s) = listed_live s"
  by (simp_all add: one_upcall_per_uid_def listed_live_def)

lemma length_filter_conj_le:
  "length (filter (\<lambda>x. P x \<and> Q x) xs) \<le> length (filter Q xs)"
  by (induction xs) auto

lemma inv_list_del_init:
  "one_upcall_per_uid s \<Longrightarrow> one_upcall_per_uid (list_del_init g s)"
  "listed_live s \<Longrightarrow> listed_live (list_del_init g s)"
proof -
  assume a: "one_upcall_per_uid s"
  show "one_upcall_per_uid (list_del_init g s)"
  proof (cases "msgs s g")
    case None
    then show ?thesis using a by (simp add: list_del_init_def)
  next
    case (Some m)
    have "length (linked_for (list_del_init g s) pipe uid) \<le> length (linked_for s pipe uid)"
      for pipe uid
      using Some
      by (auto simp add: linked_for_def list_del_init_def removeAll_filter_not_eq
          length_filter_conj_le)
    then show ?thesis using a unfolding one_upcall_per_uid_def
      by (meson le_trans)
  qed
next
  assume "listed_live s"
  then show "listed_live (list_del_init g s)"
    unfolding listed_live_def list_del_init_def
    by (auto split: option.splits)
qed

lemma add_msg_found:
  assumes "msgs s g = Some m"
    and "find_upcall (msgs s) (in_downcall s (msg_pipe m)) (msg_uid m) = Some old"
  shows "gss_add_msg g s = (old, msg_update old (\<lambda>m. m\<lparr>msg_count := msg_count m + 1\<rparr>) s)"
  using assms by (simp add: gss_add_msg_def gss_find_upcall_def)

lemma add_msg_new:
  assumes "msgs s g = Some m"
    and "find_upcall (msgs s) (in_downcall s (msg_pipe m)) (msg_uid m) = None"
  shows "gss_add_msg g s =
     (g, (msg_update g (\<lambda>m. m\<lparr>msg_count := msg_count m + 1\<rparr>) s)
           \<lparr>in_downcall := (in_downcall s)(msg_pipe m := g # in_downcall s (msg_pipe m))\<rparr>)"
  using assms by (simp add: gss_add_msg_def gss_find_upcall_def)

lemma linked_for_in_downcall_upd:
  "linked_for (s\<lparr>in_downcall := d\<rparr>) pipe uid =
     filter (\<lambda>g. case msgs s g of None \<Rightarrow> False | Some m \<Rightarrow> msg_uid m = uid) (d pipe)"
  by (simp add: linked_for_def)

lemma inv_link_new:
  assumes m: "msgs s g = Some m"
    and none: "find_upcall (msgs s) (in_downcall s (msg_pipe m)) (msg_uid m) = None"
    and inv: "one_upcall_per_uid s" "listed_live s"
  defines "t \<equiv> (msg_update g (\<lambda>m. m\<lparr>msg_count := msg_count m + 1\<rparr>) s)
           \<lparr>in_downcall := (in_downcall s)(msg_pipe m := g # in_downcall s (msg_pipe m))\<rparr>"
  shows "one_upcall_per_uid t" and "listed_live t"
    and "linked_for t (msg_pipe m) (msg_uid m) = [g]"
proof -
  let ?u = "msg_update g (\<lambda>m. m\<lparr>msg_count := msg_count m + 1\<rparr>) s"
  have lf: "linked_for ?u pipe uid = linked_for s pipe uid" for pipe uid
    by (rule linked_for_msg_update) simp
  have e: "linked_for s (msg_pipe m) (msg_uid m) = []"
    using none by (simp add: find_upcall_None linked_for_def)
  have mu: "msgs ?u g = Some (m\<lparr>msg_count := msg_count m + 1\<rparr>)"
    using m by (simp add: msg_update_def)
  have t: "linked_for t pipe uid =
      (if pipe = msg_pipe m
       then (if uid = msg_uid m then [g] else linked_for s pipe uid)
       else linked_for s pipe uid)" for pipe uid
    using lf[of pipe uid] e mu
    by (auto simp add: t_def linked_for_in_downcall_upd linked_for_def)
  show "one_upcall_per_uid t"
    using inv(1) by (auto simp add: one_upcall_per_uid_def t)
  show "linked_for t (msg_pipe m) (msg_uid m) = [g]" by (simp add: t)
  have "listed_live ?u" using inv(2) by (rule inv_msg_update(2)[rotated -1]) simp_all
  then show "listed_live t"
    using mu unfolding listed_live_def t_def by auto
qed

lemma inv_add_msg:
  assumes "msgs s g = Some m" "one_upcall_per_uid s" "listed_live s"
  shows "one_upcall_per_uid (snd (gss_add_msg g s))" "listed_live (snd (gss_add_msg g s))"
proof -
  show "one_upcall_per_uid (snd (gss_add_msg g s))"
  proof (cases "find_upcall (msgs s) (in_downcall s (msg_pipe m)) (msg_uid m)")
    case None
    then show ?thesis using inv_link_new(1)[OF assms(1) None assms(2,3)]
      by (simp add: add_msg_new[OF assms(1)])
  next
    case (Some old)
    then show ?thesis using inv_msg_update(1)[OF _ _ assms(2), of "\<lambda>m. m\<lparr>msg_count := msg_count m + 1\<rparr>" old]
      by (simp add: add_msg_found[OF assms(1)])
  qed
  show "listed_live (snd (gss_add_msg g s))"
  proof (cases "find_upcall (msgs s) (in_downcall s (msg_pipe m)) (msg_uid m)")
    case None
    then show ?thesis using inv_link_new(2)[OF assms(1) None assms(2,3)]
      by (simp add: add_msg_new[OF assms(1)])
  next
    case (Some old)
    then show ?thesis using inv_msg_update(2)[OF _ _ assms(3), of "\<lambda>m. m\<lparr>msg_count := msg_count m + 1\<rparr>" old]
      by (simp add: add_msg_found[OF assms(1)])
  qed
qed

lemma put_pipe_version_simps [simp]:
  "in_downcall (put_pipe_version s) = in_downcall s" "msgs (put_pipe_version s) = msgs s"
  "events (put_pipe_version s) = events s" "ctxs (put_pipe_version s) = ctxs s"
  by (simp_all add: put_pipe_version_def)

lemma inv_put_pipe_version [simp]:
  "one_upcall_per_uid (put_pipe_version s) = one_upcall_per_uid s"
  "listed_live (put_pipe_version s) = listed_live s"
  by (simp_all add: one_upcall_per_uid_def listed_live_def linked_for_def)

lemma inv_free:
  assumes "one_upcall_per_uid s" "listed_live s" "\<not> is_linked g s"
  shows "one_upcall_per_uid (s\<lparr>msgs := (msgs s)(g := None)\<rparr>)"
    and "listed_live (s\<lparr>msgs := (msgs s)(g := None)\<rparr>)"
proof -
  have "length (linked_for (s\<lparr>msgs := (msgs s)(g := None)\<rparr>) pipe uid) \<le> length (linked_for s pipe uid)"
    for pipe uid
  proof -
    have "linked_for (s\<lparr>msgs := (msgs s)(g := None)\<rparr>) pipe uid =
        filter (\<lambda>x. x \<noteq> g \<and> (case msgs s x of None \<Rightarrow> False | Some m \<Rightarrow> msg_uid m = uid))
          (in_downcall s pipe)"
      unfolding linked_for_def by (rule filter_cong) auto
    then show ?thesis by (simp add: linked_for_def length_filter_conj_le)
  qed
  then show "one_upcall_per_uid (s\<lparr>msgs := (msgs s)(g := None)\<rparr>)"
    using assms(1) unfolding one_upcall_per_uid_def by (meson le_trans)
  show "listed_live (s\<lparr>msgs := (msgs s)(g := None)\<rparr>)"
    using assms(2,3) unfolding listed_live_def is_linked_def
    by (fastforce split: option.splits)
qed

lemma inv_ctxs_upd [simp]:
  "one_upcall_per_uid (s\<lparr>ctxs := c\<rparr>) = one_upcall_per_uid s"
  "listed_live (s\<lparr>ctxs := c\<rparr>) = listed_live s"
  "is_linked g (s\<lparr>ctxs := c\<rparr>) = is_linked g s"
  by (simp_all add: one_upcall_per_uid_def listed_live_def linked_for_def is_linked_def
      split: option.splits)

lemma inv_release_msg:
  assumes "gss_release_msg g s = Inr s'" "one_upcall_per_uid s" "listed_live s"
  shows "one_upcall_per_uid s'" "listed_live s'"
proof -
  obtain m where m: "msgs s g = Some m"
    using assms(1) by (cases "msgs s g") (auto simp add: gss_release_msg_def)
  let ?dec = "\<lambda>m. m\<lparr>msg_count := msg_count m - 1\<rparr>"
  let ?z = "\<lambda>m. m\<lparr>msg_count := 0\<rparr>"
  have i1: "one_upcall_per_uid (msg_update g f s)" "listed_live (msg_update g f s)"
    if "\<And>m. msg_uid (f m) = msg_uid m" "\<And>m. msg_pipe (f m) = msg_pipe m" for f
    using inv_msg_update[of f, OF that] assms(2,3) by blast+
  show "one_upcall_per_uid s'"
  proof (cases "msg_count m - 1 \<noteq> 0")
    case True
    then show ?thesis using assms(1) m i1(1)[of ?dec] by (auto simp add: gss_release_msg_def)
  next
    case False
    let ?s1 = "put_pipe_version (msg_update g ?z s)"
    have nl: "\<not> is_linked g ?s1" using assms(1) m False
      by (auto simp add: gss_release_msg_def Let_def split: if_splits)
    have inv1: "one_upcall_per_uid ?s1" "listed_live ?s1" using i1[of ?z] by simp_all
    show ?thesis
      using assms(1) m False nl inv_free(1)[OF inv1 nl]
        inv_free(1)[of "?s1\<lparr>ctxs := c\<rparr>" g for c] inv1
      by (auto simp add: gss_release_msg_def Let_def split: if_splits option.splits)
  qed
  show "listed_live s'"
  proof (cases "msg_count m - 1 \<noteq> 0")
    case True
    then show ?thesis using assms(1) m i1(2)[of ?dec] by (auto simp add: gss_release_msg_def)
  next
    case False
    let ?s1 = "put_pipe_version (msg_update g ?z s)"
    have nl: "\<not> is_linked g ?s1" using assms(1) m False
      by (auto simp add: gss_release_msg_def Let_def split: if_splits)
    have inv1: "one_upcall_per_uid ?s1" "listed_live ?s1" using i1[of ?z] by simp_all
    show ?thesis
      using assms(1) m False nl inv_free(2)[OF inv1 nl]
        inv_free(2)[of "?s1\<lparr>ctxs := c\<rparr>" g for c] inv1
      by (auto simp add: gss_release_msg_def Let_def split: if_splits option.splits)
  qed
qed

lemma inv_unhash_locked:
  assumes "one_upcall_per_uid s" "listed_live s"
  shows "one_upcall_per_uid (gss_unhash_msg_locked g s)" "listed_live (gss_unhash_msg_locked g s)"
proof -
  let ?dec = "\<lambda>m. m\<lparr>msg_count := msg_count m - 1\<rparr>"
  have a: "one_upcall_per_uid (list_del_init g s)" "listed_live (list_del_init g s)"
    using inv_list_del_init assms by blast+
  show "one_upcall_per_uid (gss_unhash_msg_locked g s)"
    unfolding gss_unhash_msg_locked_def Let_def
    by (rule inv_msg_update(1)) (simp_all add: inv_log_event a)
  show "listed_live (gss_unhash_msg_locked g s)"
    unfolding gss_unhash_msg_locked_def Let_def
    by (rule inv_msg_update(2)) (simp_all add: inv_log_event a)
qed

lemma inv_unhash:
  assumes "one_upcall_per_uid s" "listed_live s"
  shows "one_upcall_per_uid (gss_unhash_msg g s)" "listed_live (gss_unhash_msg g s)"
  using assms inv_unhash_locked[OF assms] by (simp_all add: gss_unhash_msg_def)

lemma inv_alloc:
  assumes "one_upcall_per_uid s" "listed_live s" "msgs s a = None"
  shows "one_upcall_per_uid (s\<lparr>msgs := (msgs s)(a \<mapsto> m)\<rparr>)"
    and "listed_live (s\<lparr>msgs := (msgs s)(a \<mapsto> m)\<rparr>)"
    and "linked_for (s\<lparr>msgs := (msgs s)(a \<mapsto> m)\<rparr>) pipe uid = linked_for s pipe uid"
    and "a \<notin> set (in_downcall s pipe)"
proof -
  show na: "a \<notin> set (in_downcall s pipe)" for pipe
    using assms(2,3) unfolding listed_live_def by fastforce
  show lf: "linked_for (s\<lparr>msgs := (msgs s)(a \<mapsto> m)\<rparr>) pipe uid = linked_for s pipe uid" for pipe uid
    unfolding linked_for_def using na[of pipe]
    by (auto intro!: filter_cong)
  show "one_upcall_per_uid (s\<lparr>msgs := (msgs s)(a \<mapsto> m)\<rparr>)"
    using assms(1) by (simp add: one_upcall_per_uid_def lf)
  show "listed_live (s\<lparr>msgs := (msgs s)(a \<mapsto> m)\<rparr>)"
    using assms(2) na unfolding listed_live_def by auto
qed

lemma inv_pipe_users [simp]:
  "one_upcall_per_uid (s\<lparr>pipe_users := n\<rparr>) = one_upcall_per_uid s"
  "listed_live (s\<lparr>pipe_users := n\<rparr>) = listed_live s"
  "linked_for (s\<lparr>pipe_users := n\<rparr>) = linked_for s"
  by (simp_all add: one_upcall_per_uid_def listed_live_def linked_for_def fun_eq_iff)

lemma find_upcall_cong:
  "(\<And>g. g \<in> set xs \<Longrightarrow> ms g = ms' g) \<Longrightarrow> find_upcall ms xs uid = find_upcall ms' xs uid"
  by (induction xs) (auto split: option.splits)

lemma setup_upcall_cases:
  fixes s :: "('w::len) gss_state"
  assumes inv: "one_upcall_per_uid s" "listed_live s" and fresh: "msgs s a = None"
    and pv: "0 \<le> pipe_version s"
    and enc: "gss_encode_msg s auth (cr_uid cred) (gc_principal cred) = Inr (d, l)"
  defines "pipe \<equiv> ga_pipe auth ! nat (pipe_version s)"
  defines "m0 \<equiv> \<lparr>msg_count = 1, msg_uid = cr_uid cred, msg_pipe = pipe,
                   msg_data = d, msg_len = l, msg_errno = 0, msg_ctx = None\<rparr>"
  defines "s1 \<equiv> s\<lparr>pipe_users := pipe_users s + 1, msgs := (msgs s)(a \<mapsto> m0)\<rparr>"
  shows "find_upcall (msgs s) (in_downcall s pipe) (cr_uid cred) = Some old \<Longrightarrow>
           gss_setup_upcall auth cred (Some a) res s =
             (case gss_release_msg a (msg_update old (\<lambda>m. m\<lparr>msg_count := msg_count m + 1\<rparr>) s1) of
                Inl f \<Rightarrow> Inl f | Inr s3 \<Rightarrow> Inr (Inr old, s3))"
    and "find_upcall (msgs s) (in_downcall s pipe) (cr_uid cred) = None \<Longrightarrow>
           gss_setup_upcall auth cred (Some a) res s =
             (let s2 = (msg_update a (\<lambda>m. m\<lparr>msg_count := msg_count m + 1\<rparr>) s1)
                         \<lparr>in_downcall := (in_downcall s)(pipe := a # in_downcall s pipe)\<rparr>;
                  s3 = log_event (Rpc_queue_upcall pipe a res) s2
              in if res \<noteq> 0 then Inr (Inl res, gss_unhash_msg a s3) else Inr (Inr a, s3))"
proof -
  have enc1: "gss_encode_msg (s\<lparr>pipe_users := pipe_users s + 1\<rparr>) auth (cr_uid cred) (gc_principal cred)
      = Inr (d, l)"
    using enc by (simp add: gss_encode_msg_def)
  have al: "gss_alloc_msg auth (cr_uid cred) (gc_principal cred) (Some a) s = Inr (Inr a, s1)"
    using pv enc1
    by (simp add: gss_alloc_msg_def get_pipe_version_def s1_def m0_def pipe_def)
  have m1: "msgs s1 a = Some m0" by (simp add: s1_def)
  have na: "a \<notin> set (in_downcall s pipe)" using inv_alloc(4)[OF inv fresh] .
  have f1: "find_upcall (msgs s1) (in_downcall s1 (msg_pipe m0)) (msg_uid m0) =
      find_upcall (msgs s) (in_downcall s pipe) (cr_uid cred)"
    using na by (auto simp add: s1_def m0_def intro!: find_upcall_cong)
  {
    assume f: "find_upcall (msgs s) (in_downcall s pipe) (cr_uid cred) = Some old"
    then have oa: "old \<noteq> a" using find_upcall_Some[OF f] na by auto
    show "gss_setup_upcall auth cred (Some a) res s =
             (case gss_release_msg a (msg_update old (\<lambda>m. m\<lparr>msg_count := msg_count m + 1\<rparr>) s1) of
                Inl f \<Rightarrow> Inl f | Inr s3 \<Rightarrow> Inr (Inr old, s3))"
      using add_msg_found[OF m1, of old] f f1 oa
      by (simp add: gss_setup_upcall_def al)
  }
  {
    assume f: "find_upcall (msgs s) (in_downcall s pipe) (cr_uid cred) = None"
    have "gss_add_msg a s1 = (a, (msg_update a (\<lambda>m. m\<lparr>msg_count := msg_count m + 1\<rparr>) s1)
           \<lparr>in_downcall := (in_downcall s1)(msg_pipe m0 := a # in_downcall s1 (msg_pipe m0))\<rparr>)"
      using add_msg_new[OF m1] f f1 by simp
    then show "gss_setup_upcall auth cred (Some a) res s =
             (let s2 = (msg_update a (\<lambda>m. m\<lparr>msg_count := msg_count m + 1\<rparr>) s1)
                         \<lparr>in_downcall := (in_downcall s)(pipe := a # in_downcall s pipe)\<rparr>;
                  s3 = log_event (Rpc_queue_upcall pipe a res) s2
              in if res \<noteq> 0 then Inr (Inl res, gss_unhash_msg a s3) else Inr (Inr a, s3))"
      by (simp add: gss_setup_upcall_def al Let_def s1_def m0_def msg_update_def)
  }
qed

lemma setup_upcall_inv:
  fixes s :: "('w::len) gss_state"
  assumes inv: "one_upcall_per_uid s" "listed_live s" and fresh: "msgs s a = None"
    and r: "gss_setup_upcall auth cred (Some a) res s = Inr (r, s')"
  shows "one_upcall_per_uid s' \<and> listed_live s'"
proof (cases "pipe_version s \<ge> 0")
  case False
  then have "s' = s" using r
    by (auto simp add: gss_setup_upcall_def gss_alloc_msg_def get_pipe_version_def EAGAIN_def)
  then show ?thesis using inv by simp
next
  case True
  obtain d l where enc: "gss_encode_msg (s\<lparr>pipe_users := pipe_users s + 1\<rparr>) auth (cr_uid cred)
      (gc_principal cred) = Inr (d, l)"
    using r True
    by (cases "gss_encode_msg (s\<lparr>pipe_users := pipe_users s + 1\<rparr>) auth (cr_uid cred) (gc_principal cred)")
       (auto simp add: gss_setup_upcall_def gss_alloc_msg_def get_pipe_version_def)
  define m0 where "m0 = \<lparr>msg_count = 1, msg_uid = cr_uid cred,
      msg_pipe = ga_pipe auth ! nat (pipe_version s),
      msg_data = d, msg_len = l, msg_errno = 0, msg_ctx = None\<rparr>"
  define s1 where "s1 = s\<lparr>pipe_users := pipe_users s + 1, msgs := (msgs s)(a \<mapsto> m0)\<rparr>"
  have al: "gss_alloc_msg auth (cr_uid cred) (gc_principal cred) (Some a) s = Inr (Inr a, s1)"
    using True enc by (simp add: gss_alloc_msg_def get_pipe_version_def s1_def m0_def)
  have s1': "s1 = (s\<lparr>pipe_users := pipe_users s + 1\<rparr>)\<lparr>msgs := (msgs (s\<lparr>pipe_users := pipe_users s + 1\<rparr>))(a \<mapsto> m0)\<rparr>"
    by (simp add: s1_def)
  have inv1: "one_upcall_per_uid s1" "listed_live s1"
  proof -
    show "one_upcall_per_uid s1" unfolding s1'
      by (rule inv_alloc(1)) (use inv fresh in simp_all)
    show "listed_live s1" unfolding s1'
      by (rule inv_alloc(2)) (use inv fresh in simp_all)
  qed
  have m1: "msgs s1 a = Some m0" by (simp add: s1_def)
  obtain g s2 where ad: "gss_add_msg a s1 = (g, s2)" by (cases "gss_add_msg a s1")
  have inv2: "one_upcall_per_uid s2" "listed_live s2"
    using inv_add_msg[OF m1 inv1] ad by simp_all
  show ?thesis
  proof (cases "g = a")
    case True
    then show ?thesis using r inv2 inv_unhash[of "log_event e s2" a for e]
      by (auto simp add: gss_setup_upcall_def al ad Let_def inv_log_event split: if_splits)
  next
    case False
    then obtain s3 where "gss_release_msg a s2 = Inr s3" "s' = s3"
      using r by (auto simp add: gss_setup_upcall_def al ad split: sum.splits)
    then show ?thesis using inv_release_msg[OF _ inv2] by blast
  qed
qed

lemma release_fresh:
  fixes u :: "('w::len) gss_state"
  assumes "msgs u a = Some m" "msg_count m = 1" "msg_ctx m = None" "a \<notin> set (in_downcall u (msg_pipe m))"
  shows "gss_release_msg a u = Inr ((put_pipe_version u)\<lparr>msgs := (msgs u)(a := None)\<rparr>)"
  using assms
  by (simp add: gss_release_msg_def Let_def is_linked_def msg_update_def put_pipe_version_def)

lemma setup_upcall_dedup_aux:
  fixes s :: "('w::len) gss_state"
  assumes "one_upcall_per_uid s" and "listed_live s" and "msgs s a = None"
    and "gss_setup_upcall auth cred (Some a) res s = Inr (r, s')"
  shows "one_upcall_per_uid s' \<and> listed_live s' \<and>
     (0 \<le> pipe_version s \<longrightarrow>
        (case find_upcall (msgs s) (in_downcall s (ga_pipe auth ! nat (pipe_version s))) (cr_uid cred) of
           Some old \<Rightarrow>
             r = Inr old \<and> in_downcall s' = in_downcall s \<and> msgs s' a = None \<and>
             msgs s' old = map_option (\<lambda>m. m\<lparr>msg_count := msg_count m + 1\<rparr>) (msgs s old) \<and>
             events s' = events s
         | None \<Rightarrow>
             (res = 0 \<longrightarrow>
                r = Inr a \<and>
                in_downcall s' = (in_downcall s)
                   (ga_pipe auth ! nat (pipe_version s) :=
                      a # in_downcall s (ga_pipe auth ! nat (pipe_version s))) \<and>
                linked_for s' (ga_pipe auth ! nat (pipe_version s)) (cr_uid cred) = [a] \<and>
                events s' = events s @ [Rpc_queue_upcall (ga_pipe auth ! nat (pipe_version s)) a 0]) \<and>
             (res \<noteq> 0 \<longrightarrow>
                r = Inl res \<and> in_downcall s' = in_downcall s \<and>
                linked_for s' (ga_pipe auth ! nat (pipe_version s)) (cr_uid cred) = [])))"
proof -
  let ?pipe = "ga_pipe auth ! nat (pipe_version s)"
  let ?inc = "\<lambda>m. m\<lparr>msg_count := msg_count m + 1\<rparr>"
  note inv' = setup_upcall_inv[OF assms]
  have rest: "(case find_upcall (msgs s) (in_downcall s ?pipe) (cr_uid cred) of
           Some old \<Rightarrow>
             r = Inr old \<and> in_downcall s' = in_downcall s \<and> msgs s' a = None \<and>
             msgs s' old = map_option ?inc (msgs s old) \<and>
             events s' = events s
         | None \<Rightarrow>
             (res = 0 \<longrightarrow>
                r = Inr a \<and>
                in_downcall s' = (in_downcall s)(?pipe := a # in_downcall s ?pipe) \<and>
                linked_for s' ?pipe (cr_uid cred) = [a] \<and>
                events s' = events s @ [Rpc_queue_upcall ?pipe a 0]) \<and>
             (res \<noteq> 0 \<longrightarrow>
                r = Inl res \<and> in_downcall s' = in_downcall s \<and>
                linked_for s' ?pipe (cr_uid cred) = []))"
    if pv: "0 \<le> pipe_version s"
  proof -
    obtain d l where enc: "gss_encode_msg s auth (cr_uid cred) (gc_principal cred) = Inr (d, l)"
      using assms(4) pv
      by (cases "gss_encode_msg s auth (cr_uid cred) (gc_principal cred)")
        (auto simp add: gss_setup_upcall_def gss_alloc_msg_def get_pipe_version_def gss_encode_msg_def)
    define m0 where "m0 = \<lparr>msg_count = 1, msg_uid = cr_uid cred, msg_pipe = ?pipe,
      msg_data = d, msg_len = l, msg_errno = 0, msg_ctx = None\<rparr>"
    define s1 where "s1 = s\<lparr>pipe_users := pipe_users s + 1, msgs := (msgs s)(a \<mapsto> m0)\<rparr>"
    note cases = setup_upcall_cases[OF assms(1-3) pv enc, folded m0_def, folded s1_def]
    have na: "a \<notin> set (in_downcall s p)" for p using inv_alloc(4)[OF assms(1-3)] .
    show ?thesis
    proof (cases "find_upcall (msgs s) (in_downcall s ?pipe) (cr_uid cred)")
      case (Some old)
      have oa: "old \<noteq> a" using find_upcall_Some[OF Some] na by auto
      let ?u = "msg_update old ?inc s1"
      have "gss_release_msg a ?u = Inr ((put_pipe_version ?u)\<lparr>msgs := (msgs ?u)(a := None)\<rparr>)"
        by (rule release_fresh[where m = m0])
           (use oa na in \<open>simp_all add: msg_update_def s1_def m0_def\<close>)
      then have "r = Inr old" "s' = (put_pipe_version ?u)\<lparr>msgs := (msgs ?u)(a := None)\<rparr>"
        using cases(1)[OF Some] assms(4) by simp_all
      then show ?thesis using Some oa
        by (simp add: msg_update_def s1_def)
    next
      case None
      let ?s2 = "(msg_update a ?inc s1)\<lparr>in_downcall := (in_downcall s)(?pipe := a # in_downcall s ?pipe)\<rparr>"
      let ?s3 = "log_event (Rpc_queue_upcall ?pipe a res) ?s2"
      have e: "linked_for s ?pipe (cr_uid cred) = []"
        using None by (simp add: find_upcall_None linked_for_def)
      have ma: "msgs ?s3 a = Some (m0\<lparr>msg_count := 2\<rparr>)"
        by (simp add: msg_update_def s1_def m0_def)
      have mo: "g \<noteq> a \<Longrightarrow> msgs ?s3 g = msgs s g" for g
        by (simp add: msg_update_def s1_def)
      have ev: "events ?s3 = events s @ [Rpc_queue_upcall ?pipe a res]"
        by (simp add: log_event_def msg_update_def s1_def)
      have id3: "in_downcall ?s3 = (in_downcall s)(?pipe := a # in_downcall s ?pipe)"
        by simp
      have lfL: "filter (\<lambda>g. case msgs t g of None \<Rightarrow> False | Some m \<Rightarrow> msg_uid m = cr_uid cred)
                  (in_downcall s ?pipe) = []"
        if "\<And>g. g \<noteq> a \<Longrightarrow> msgs t g = msgs s g" for t :: "'w gss_state"
      proof -
        have "filter (\<lambda>g. case msgs t g of None \<Rightarrow> False | Some m \<Rightarrow> msg_uid m = cr_uid cred)
                  (in_downcall s ?pipe) = linked_for s ?pipe (cr_uid cred)"
          unfolding linked_for_def
        proof (intro filter_cong refl)
          fix x assume "x \<in> set (in_downcall s ?pipe)"
          then have "x \<noteq> a" using na[of ?pipe] by auto
          then show "(case msgs t x of None \<Rightarrow> False | Some m \<Rightarrow> msg_uid m = cr_uid cred) =
                     (case msgs s x of None \<Rightarrow> False | Some m \<Rightarrow> msg_uid m = cr_uid cred)"
            using that[of x] by simp
        qed
        then show ?thesis using e by simp
      qed
      show ?thesis
      proof (cases "res = 0")
        case True
        then have "gss_setup_upcall auth cred (Some a) res s = Inr (Inr a, ?s3)"
          using cases(2)[OF None, of res] by (simp add: Let_def)
        then have rs: "r = Inr a" "s' = ?s3" using assms(4) by simp_all
        have "linked_for ?s3 ?pipe (cr_uid cred) = [a]"
          using lfL[of ?s3, OF mo] ma
          by (simp add: linked_for_def id3 m0_def)
        then show ?thesis using None True rs ev id3 by simp
      next
        case False
        then have "gss_setup_upcall auth cred (Some a) res s = Inr (Inl res, gss_unhash_msg a ?s3)"
          using cases(2)[OF None, of res] by (simp add: Let_def)
        then have rs: "r = Inl res" "s' = gss_unhash_msg a ?s3" using assms(4) by simp_all
        have li: "is_linked a ?s3" using ma by (simp add: is_linked_def id3 m0_def)
        have s'': "s' = gss_unhash_msg_locked a ?s3" using rs li by (simp add: gss_unhash_msg_def)
        have ldi: "in_downcall (list_del_init a ?s3) = in_downcall s"
          using ma na[of ?pipe]
          by (simp add: list_del_init_def m0_def fun_eq_iff)
        have id': "in_downcall s' = in_downcall s"
          unfolding s'' gss_unhash_msg_locked_def Let_def by (simp add: ldi)
        have mo': "g \<noteq> a \<Longrightarrow> msgs s' g = msgs s g" for g
          unfolding s'' gss_unhash_msg_locked_def Let_def
          using ma by (simp add: msg_update_def list_del_init_def s1_def m0_def)
        have "linked_for s' ?pipe (cr_uid cred) = []"
          using lfL[of s', OF mo'] by (simp add: linked_for_def id')
        then show ?thesis using None False rs id' by simp
      qed
    qed
  qed
  show ?thesis using inv' rest by blast
qed


lemma setup_upcall_returns:
  fixes s :: "('w::len) gss_state"
  assumes "one_upcall_per_uid s" and "listed_live s" and "msgs s a = None"
    and "pipe_version s < 0 \<or> gss_encode_msg s auth (cr_uid cred) (gc_principal cred) = Inr dl"
  shows "\<exists>r s'. gss_setup_upcall auth cred (Some a) res s = Inr (r, s')"
proof (cases "pipe_version s < 0")
  case True
  then show ?thesis
    by (simp add: gss_setup_upcall_def gss_alloc_msg_def get_pipe_version_def EAGAIN_def)
next
  case False
  then have pv: "0 \<le> pipe_version s" by simp
  obtain d l where dl: "dl = (d, l)" by (cases dl)
  have enc: "gss_encode_msg s auth (cr_uid cred) (gc_principal cred) = Inr (d, l)"
    using assms(4) False dl by simp
  let ?pipe = "ga_pipe auth ! nat (pipe_version s)"
  define m0 where "m0 = \<lparr>msg_count = 1, msg_uid = cr_uid cred, msg_pipe = ?pipe,
      msg_data = d, msg_len = l, msg_errno = 0, msg_ctx = None\<rparr>"
  define s1 where "s1 = s\<lparr>pipe_users := pipe_users s + 1, msgs := (msgs s)(a \<mapsto> m0)\<rparr>"
  note cases = setup_upcall_cases[OF assms(1-3) pv enc, folded m0_def, folded s1_def]
  have na: "a \<notin> set (in_downcall s p)" for p using inv_alloc(4)[OF assms(1-3)] .
  show ?thesis
  proof (cases "find_upcall (msgs s) (in_downcall s ?pipe) (cr_uid cred)")
    case (Some old)
    have oa: "old \<noteq> a" using find_upcall_Some[OF Some] na by auto
    let ?u = "msg_update old (\<lambda>m. m\<lparr>msg_count := msg_count m + 1\<rparr>) s1"
    have "gss_release_msg a ?u = Inr ((put_pipe_version ?u)\<lparr>msgs := (msgs ?u)(a := None)\<rparr>)"
      by (rule release_fresh[where m = m0])
         (use oa na in \<open>simp_all add: msg_update_def s1_def m0_def\<close>)
    then show ?thesis using cases(1)[OF Some, of res] by simp
  next
    case None
    show ?thesis using cases(2)[OF None, of res] by (simp add: Let_def)
  qed
qed

text \<open>Claim C2. A state in which every pipe has at most one linked message for every uid
  (and the lists hold live messages of their pipe), a new message at a fresh address, and
  an encoding that does not hit the \<open>BUG_ON\<close>. Then \<open>gss_setup_upcall\<close> returns and
  the invariant holds again. With a pipe open: when the list of the pipe has an entry for
  the uid, the call returns that entry with one more reference, the list and the recorded
  calls are as before (nothing is queued) and the new message is freed; when it has none
  and \<open>rpc_queue_upcall\<close> returns 0, the call returns the new message, now the head of
  the list and the only entry for its uid, and \<open>rpc_queue_upcall\<close> has been called on
  it; when \<open>rpc_queue_upcall\<close> fails, the message is unlinked again and the error
  returned. (The lemmas \<open>inv_list_del_init\<close>, \<open>inv_unhash\<close> and
  \<open>inv_release_msg\<close> keep the invariant over the other functions that change a list
  or free a message.)\<close>

theorem gss_setup_upcall_dedup:
  fixes s :: "('w::len) gss_state"
  assumes "one_upcall_per_uid s" and "listed_live s" and "msgs s a = None"
    and "pipe_version s < 0 \<or> gss_encode_msg s auth (cr_uid cred) (gc_principal cred) = Inr dl"
  shows "\<exists>r s'. gss_setup_upcall auth cred (Some a) res s = Inr (r, s') \<and>
     one_upcall_per_uid s' \<and> listed_live s' \<and>
     (0 \<le> pipe_version s \<longrightarrow>
        (case find_upcall (msgs s) (in_downcall s (ga_pipe auth ! nat (pipe_version s))) (cr_uid cred) of
           Some old \<Rightarrow>
             r = Inr old \<and> in_downcall s' = in_downcall s \<and> msgs s' a = None \<and>
             msgs s' old = map_option (\<lambda>m. m\<lparr>msg_count := msg_count m + 1\<rparr>) (msgs s old) \<and>
             events s' = events s
         | None \<Rightarrow>
             (res = 0 \<longrightarrow>
                r = Inr a \<and>
                in_downcall s' = (in_downcall s)
                   (ga_pipe auth ! nat (pipe_version s) :=
                      a # in_downcall s (ga_pipe auth ! nat (pipe_version s))) \<and>
                linked_for s' (ga_pipe auth ! nat (pipe_version s)) (cr_uid cred) = [a] \<and>
                events s' = events s @ [Rpc_queue_upcall (ga_pipe auth ! nat (pipe_version s)) a 0]) \<and>
             (res \<noteq> 0 \<longrightarrow>
                r = Inl res \<and> in_downcall s' = in_downcall s \<and>
                linked_for s' (ga_pipe auth ! nat (pipe_version s)) (cr_uid cred) = [])))"
proof -
  from setup_upcall_returns[OF assms, of res] obtain r s' where
    r: "gss_setup_upcall auth cred (Some a) res s = Inr (r, s')" by blast
  from setup_upcall_dedup_aux[OF assms(1-3) r] r show ?thesis by blast
qed

lemma demo_state_inv: "one_upcall_per_uid (demo_state v)" "listed_live (demo_state v)"
  "msgs (demo_state v) a = None"
  by (simp_all add: one_upcall_per_uid_def listed_live_def linked_for_def demo_state_def)

theorem gss_setup_upcall_dedup_witness:
  "\<exists>s1 s2. gss_setup_upcall demo_auth (demo_cred RPC_GSS_SVC_NONE) (Some 5) 0 (demo_state 0) =
              Inr (Inr 5, s1) \<and>
            in_downcall s1 10 = [5] \<and> one_upcall_per_uid s1 \<and>
            gss_setup_upcall demo_auth (demo_cred RPC_GSS_SVC_NONE) (Some 6) 0 s1 =
              Inr (Inr 5, s2) \<and>
            in_downcall s2 10 = [5] \<and> msgs s2 6 = None \<and> one_upcall_per_uid s2 \<and>
            events s2 = [Rpc_queue_upcall 10 5 0]"
proof -
  let ?c = "demo_cred RPC_GSS_SVC_NONE"
  have enc0: "pipe_version (demo_state 0) < 0 \<or>
      gss_encode_msg (demo_state 0) demo_auth (cr_uid ?c) (gc_principal ?c) = Inr (native32 1000, 4)"
    by (simp add: gss_encode_msg_def demo_state_def gss_encode_v0_msg_def demo_cred_def)
  from gss_setup_upcall_dedup[OF demo_state_inv enc0, of 5 0] obtain r1 s1 where
    a1: "gss_setup_upcall demo_auth ?c (Some 5) 0 (demo_state 0) = Inr (r1, s1)"
    and i1: "one_upcall_per_uid s1" "listed_live s1"
    and c1: "r1 = Inr 5" "in_downcall s1 10 = [5]" "events s1 = [Rpc_queue_upcall 10 5 0]"
      "linked_for s1 10 1000 = [5]"
    by (auto simp add: demo_state_def demo_auth_def demo_cred_def)
  have pv1: "pipe_version s1 = 0" and m6: "msgs s1 6 = None" and m5: "\<exists>m. msgs s1 5 = Some m \<and> msg_uid m = 1000"
    using a1
    by (auto simp add: gss_setup_upcall_def gss_alloc_msg_def get_pipe_version_def gss_encode_msg_def
        gss_encode_v0_msg_def gss_add_msg_def gss_find_upcall_def demo_state_def demo_auth_def
        demo_cred_def msg_update_def log_event_def Let_def)
  have enc1: "pipe_version s1 < 0 \<or>
      gss_encode_msg s1 demo_auth (cr_uid ?c) (gc_principal ?c) = Inr (native32 1000, 4)"
    by (simp add: gss_encode_msg_def pv1 gss_encode_v0_msg_def demo_cred_def)
  have f1: "find_upcall (msgs s1) (in_downcall s1 10) 1000 = Some 5"
    using m5 c1(2) by auto
  from gss_setup_upcall_dedup[OF i1 m6 enc1, of 0] obtain r2 s2 where
    a2: "gss_setup_upcall demo_auth ?c (Some 6) 0 s1 = Inr (r2, s2)"
    and i2: "one_upcall_per_uid s2"
    and c2: "r2 = Inr 5" "in_downcall s2 = in_downcall s1" "msgs s2 6 = None" "events s2 = events s1"
    using f1 by (auto simp add: pv1 demo_auth_def demo_cred_def)
  show ?thesis using a1 i1 c1 a2 i2 c2 by auto
qed


subsection \<open>The cooldown of a negative credential\<close>

lemma range_aux:
  fixes e D h :: nat
  assumes "D \<le> h" "e < h" "e < 2 * h" "D < 2 * h" 
  shows "(\<not> (if D \<le> e then e - D else 2 * h + e - D) < h) \<longleftrightarrow> e < D"
  using assms by auto

lemma unat_sub_cases:
  fixes a b :: "'w::len word"
  shows "unat (a - b) =
    (if unat b \<le> unat a then unat a - unat b else 2 ^ LENGTH('w) + unat a - unat b)"
  by (simp add: unat_sub_if' add.commute)

lemma range_open_iff:
  fixes now b D :: "'w::len word"
  assumes "unat D \<le> 2 ^ (LENGTH('w) - 1)"
  shows "time_in_range_open now b (b + D) \<longleftrightarrow> unat (now - b) < unat D"
proof -
  let ?e = "now - b"
  let ?h = "(2::nat) ^ (LENGTH('w) - 1)"
  have eq: "now - (b + D) = ?e - D" by simp
  have a: "time_after_eq now b \<longleftrightarrow> unat ?e < ?h"
    unfolding time_after_eq_def by (rule sint_nonneg_iff_unat)
  have b: "time_before now (b + D) \<longleftrightarrow> \<not> unat (?e - D) < ?h"
    unfolding time_before_def time_after_def eq
    using sint_nonneg_iff_unat[of "?e - D"] by linarith
  have lt: "unat ?e < 2 * ?h" "unat D < 2 * ?h"
    using unsigned_less[of ?e, where 'a=nat] unsigned_less[of D, where 'a=nat]
      half_double[where 'w='w] by simp_all
  have c: "unat ?e < ?h \<Longrightarrow> (\<not> unat (?e - D) < ?h) \<longleftrightarrow> unat ?e < unat D"
    using range_aux[OF assms _ lt]
    unfolding unat_sub_cases[of ?e D] half_double[where 'w='w] by simp
  show ?thesis
  proof (cases "unat ?e < ?h")
    case True
    then show ?thesis unfolding time_in_range_open_def a b using c by simp
  next
    case False
    then have "\<not> unat ?e < unat D" using assms by linarith
    then show ?thesis unfolding time_in_range_open_def a b using False by simp
  qed
qed

lemma delay_ticks:
  fixes d :: u32
  assumes "32 \<le> LENGTH('w::len)" "unat d * hz < 2 ^ 31"
  shows "unat (ucast (d * of_nat hz) :: 'w word) = unat d * hz"
proof -
  have lt: "unat d * hz < 2 ^ 32" using assms(2) by simp
  have "unat (d * of_nat hz) = unat d * hz"
    using lt by (simp add: unat_word_ariths unat_of_nat take_bit_eq_mod mod_mult_right_eq)
  moreover have "unat (ucast (d * of_nat hz :: u32) :: 'w word) = unat (d * of_nat hz :: u32)"
  proof -
    have "unat (d * of_nat hz :: u32) < 2 ^ 32"
      using unsigned_less[of "d * of_nat hz :: u32", where 'a=nat] by simp
    also have "(2::nat) ^ 32 \<le> 2 ^ LENGTH('w)"
      using assms(1) by (rule power_increasing) simp
    finally show ?thesis by (simp add: unsigned_ucast_eq take_bit_eq_mod)
  qed
  ultimately show ?thesis by simp
qed

lemma cooldown_interval:
  fixes env :: "('w::len) refresh_env"
  assumes "32 \<le> LENGTH('w)" "unat (rf_delay env) * rf_HZ env < 2 ^ 31"
  shows "time_in_range_open (rf_jiffies env) ts
           (ts + ucast (rf_delay env * of_nat (rf_HZ env))) \<longleftrightarrow>
         unat (rf_jiffies env - ts) < unat (rf_delay env) * rf_HZ env"
proof -
  have "(2::nat) ^ 31 \<le> 2 ^ (LENGTH('w) - 1)"
    using assms(1) by (intro power_increasing) simp_all
  then have "unat (ucast (rf_delay env * of_nat (rf_HZ env)) :: 'w word) \<le> 2 ^ (LENGTH('w) - 1)"
    using assms(2) unfolding delay_ticks[OF assms] by linarith
  from range_open_iff[OF this] show ?thesis unfolding delay_ticks[OF assms] .
qed

text \<open>Claim C6. A refresh of a credential with the NEGATIVE flag, at a time in the interval
  that \<open>time_in_range_open\<close> takes from the time stamp of the last upcall to that time plus
  \<open>expired_cred_retry_delay * HZ\<close>, returns \<open>-EKEYEXPIRED\<close> at once: the task and the
  state, with the log of the upcalls queued, are as before. Any other refresh goes on with
  the rest of \<open>gss_refresh\<close>. When jiffies are at least 32 bits wide and the delay in ticks
  is below \<open>2 ^ 31\<close>, the interval is half-open: the ticks elapsed since the time stamp,
  modulo the width of jiffies, are less than the delay in ticks. The delay defaults to
  \<open>GSS_RETRY_EXPIRED\<close>, 5 seconds.\<close>

theorem gss_refresh_cooldown:
  fixes env :: "('w::len) refresh_env"
  shows "gss_refresh env task s =
           (if test_bit RPCAUTH_CRED_NEGATIVE (cr_flags (task_cred task)) \<and>
               time_in_range_open (rf_jiffies env) (gc_upcall_timestamp (task_cred task))
                 (gc_upcall_timestamp (task_cred task) +
                    ucast (rf_delay env * of_nat (rf_HZ env)))
            then Inr (- EKEYEXPIRED, task, s)
            else gss_refresh_rest env task s) \<and>
         (32 \<le> LENGTH('w) \<and> unat (rf_delay env) * rf_HZ env < 2 ^ 31 \<longrightarrow>
            (time_in_range_open (rf_jiffies env) (gc_upcall_timestamp (task_cred task))
               (gc_upcall_timestamp (task_cred task) +
                  ucast (rf_delay env * of_nat (rf_HZ env))) \<longleftrightarrow>
             unat (rf_jiffies env - gc_upcall_timestamp (task_cred task))
               < unat (rf_delay env) * rf_HZ env)) \<and>
         unat GSS_RETRY_EXPIRED = 5"
proof (intro conjI impI)
  show "gss_refresh env task s =
           (if test_bit RPCAUTH_CRED_NEGATIVE (cr_flags (task_cred task)) \<and>
               time_in_range_open (rf_jiffies env) (gc_upcall_timestamp (task_cred task))
                 (gc_upcall_timestamp (task_cred task) +
                    ucast (rf_delay env * of_nat (rf_HZ env)))
            then Inr (- EKEYEXPIRED, task, s)
            else gss_refresh_rest env task s)"
    by (simp add: gss_refresh_def gss_cred_is_negative_entry_def Let_def)
next
  assume "32 \<le> LENGTH('w) \<and> unat (rf_delay env) * rf_HZ env < 2 ^ 31"
  then show "time_in_range_open (rf_jiffies env) (gc_upcall_timestamp (task_cred task))
               (gc_upcall_timestamp (task_cred task) +
                  ucast (rf_delay env * of_nat (rf_HZ env))) \<longleftrightarrow>
             unat (rf_jiffies env - gc_upcall_timestamp (task_cred task))
               < unat (rf_delay env) * rf_HZ env"
    using cooldown_interval[of env] by blast
next
  show "unat GSS_RETRY_EXPIRED = 5" by (simp add: GSS_RETRY_EXPIRED_def)
qed

lemma demo_negative_cred:
  "cr_flags (task_cred demo_negative_task) = {RPCAUTH_CRED_NEW, RPCAUTH_CRED_NEGATIVE}"
  "gc_upcall_timestamp (task_cred demo_negative_task) = 1000"
  by (simp_all add: demo_negative_task_def task_cred_def)

lemma demo_refresh_env_simps:
  "rf_jiffies (demo_refresh_env now) = now"
  "rf_HZ (demo_refresh_env now) = 100"
  "rf_delay (demo_refresh_env now) = 5"
  by (simp_all add: demo_refresh_env_def GSS_RETRY_EXPIRED_def)

theorem gss_refresh_cooldown_witness:
  "32 \<le> LENGTH(32) \<and>
   unat (rf_delay (demo_refresh_env 1499)) * rf_HZ (demo_refresh_env 1499) < 2 ^ 31 \<and>
   test_bit RPCAUTH_CRED_NEGATIVE (cr_flags (task_cred demo_negative_task)) \<and>
   gc_upcall_timestamp (task_cred demo_negative_task) = 1000 \<and>
   gss_refresh (demo_refresh_env 1499) demo_negative_task (demo_state 1) =
     Inr (- EKEYEXPIRED, demo_negative_task, demo_state 1) \<and>
   gss_refresh (demo_refresh_env 1000) demo_negative_task (demo_state 1) =
     Inr (- EKEYEXPIRED, demo_negative_task, demo_state 1) \<and>
   gss_refresh (demo_refresh_env 1500) demo_negative_task (demo_state 1) =
     gss_refresh_rest (demo_refresh_env 1500) demo_negative_task (demo_state 1) \<and>
   gss_refresh (demo_refresh_env 999) demo_negative_task (demo_state 1) =
     gss_refresh_rest (demo_refresh_env 999) demo_negative_task (demo_state 1)"
  using gss_refresh_cooldown[of "demo_refresh_env 1499" demo_negative_task "demo_state 1"]
    gss_refresh_cooldown[of "demo_refresh_env 1000" demo_negative_task "demo_state 1"]
    gss_refresh_cooldown[of "demo_refresh_env 1500" demo_negative_task "demo_state 1"]
    gss_refresh_cooldown[of "demo_refresh_env 999" demo_negative_task "demo_state 1"]
  by (simp add: demo_negative_cred demo_refresh_env_simps test_bit_def GSS_RETRY_EXPIRED_def
      time_in_range_open_def time_after_eq_def time_before_def time_after_def)

subsection \<open>The errors of a downcall\<close>

lemma length_native32 [simp]: "length (native32 x) = 4"
  by (simp add: native32_def htonl_def)

lemma of_native32_native32 [simp]: "of_native32 (native32 x) = x"
  by (simp add: native32_def of_native32_def ntohl_htonl)

lemma fill_context_count:
  "ctx_count (snd (gss_fill_context env buf p ctx)) = ctx_count ctx"
  by (simp add: gss_fill_context_def Let_def split: sum.splits prod.splits)

lemma downcall_err_path:
  fixes env :: "('w::len) downcall_env"
  assumes len: "length src \<le> MSG_BUF_MAXSIZE" "4 \<le> length src"
    and ok: "dc_kmalloc_ok env" "dc_copy_ok env" "uid_valid (of_native32 (take 4 src))"
    and c: "dc_ctx env = Some c" "ctxs s c = None"
    and g: "find_upcall (msgs s) (in_downcall s pipe) (of_native32 (take 4 src)) = Some g"
           "msgs s g = Some m" "msg_pipe m = pipe" "2 \<le> msg_count m"
    and fill: "gss_fill_context env src 4 gss_alloc_context = (Inl err, ctx)"
  shows "gss_pipe_downcall env pipe src s =
     (let done = (\<lambda>e. s\<lparr>msgs := (msgs s)(g \<mapsto> m\<lparr>msg_errno := e, msg_count := msg_count m - 1\<rparr>),
                          in_downcall := (in_downcall s)(pipe := removeAll g (in_downcall s pipe)),
                          events := events s @ [Rpc_wake_up_status (Msg_rpc_waitqueue g) e,
                                                Wake_up_all (Msg_waitqueue g)]\<rparr>)
      in if err = - EACCES \<or> err = - EKEYEXPIRED then Inr (int (length src), done err)
         else if err = - EFAULT \<or> err = - ENOMEM \<or> err = - EINVAL \<or> err = - ENOSYS
         then Inr (err, done (- EAGAIN))
         else Inl BUG)"
proof -
  have cnt: "ctx_count ctx = 1"
    using fill_context_count[of env src 4 gss_alloc_context] fill
    by (simp add: gss_alloc_context_def)
  show ?thesis
    using len ok c g fill cnt
    by (auto simp add: gss_pipe_downcall_def Let_def simple_get_bytes_def gss_find_upcall_def
        msg_update_def list_del_init_def downcall_release_def gss_unhash_msg_locked_def
        gss_release_msg_def log_event_def gss_put_ctx_def gss_free_ctx_def fun_upd_idem)
qed

lemma downcall_err_props:
  fixes env :: "('w::len) downcall_env"
  assumes len: "length src \<le> MSG_BUF_MAXSIZE" "4 \<le> length src"
    and ok: "dc_kmalloc_ok env" "dc_copy_ok env" "uid_valid (of_native32 (take 4 src))"
    and c: "dc_ctx env = Some c" "ctxs s c = None"
    and g: "find_upcall (msgs s) (in_downcall s pipe) (of_native32 (take 4 src)) = Some g"
           "msgs s g = Some m" "msg_pipe m = pipe" "2 \<le> msg_count m"
    and fill: "gss_fill_context env src 4 gss_alloc_context = (Inl err, ctx)"
  shows "(err = - EACCES \<or> err = - EKEYEXPIRED \<longrightarrow>
          (\<exists>s1. gss_pipe_downcall env pipe src s = Inr (int (length src), s1) \<and>
                msgs s1 g = Some (m\<lparr>msg_errno := err, msg_count := msg_count m - 1\<rparr>) \<and>
                g \<notin> set (in_downcall s1 pipe) \<and> ctxs s1 = ctxs s)) \<and>
         (err = - EFAULT \<or> err = - ENOMEM \<or> err = - EINVAL \<or> err = - ENOSYS \<longrightarrow>
          (\<exists>s1. gss_pipe_downcall env pipe src s = Inr (err, s1) \<and>
                msgs s1 g = Some (m\<lparr>msg_errno := - EAGAIN, msg_count := msg_count m - 1\<rparr>) \<and>
                g \<notin> set (in_downcall s1 pipe) \<and> ctxs s1 = ctxs s)) \<and>
         (err \<notin> {- EACCES, - EKEYEXPIRED, - EFAULT, - ENOMEM, - EINVAL, - ENOSYS} \<longrightarrow>
          gss_pipe_downcall env pipe src s = Inl BUG)"
  unfolding downcall_err_path[OF assms] Let_def
  by (simp add: EACCES_def EKEYEXPIRED_def EFAULT_def ENOMEM_def EINVAL_def ENOSYS_def)

lemma fill_window_zero:
  assumes "16 \<le> length src" "of_native32 (take 4 (drop 8 src)) = 0"
  shows "fst (gss_fill_context env src 4 ctx) =
     Inl (if sint (of_native32 (take 4 (drop 12 src))) = - EKEYEXPIRED then - EKEYEXPIRED
          else - EACCES)"
  using assms
  by (simp add: gss_fill_context_def simple_get_bytes_def Let_def ERR_PTR_def MAX_ERRNO_def
      EKEYEXPIRED_def EACCES_def)

lemma callback_error:
  fixes s :: "('w::len) gss_state"
  assumes "msgs s g = Some m" "g \<notin> set (in_downcall s (msg_pipe m))" "msg_ctx m = None"
    "msg_errno m \<noteq> 0" "gc_upcall (task_cred task) = Some g"
  shows "\<exists>task' s'. gss_upcall_callback now task s = Inr (task', s') \<and>
     tk_status task' = msg_errno m \<and>
     cr_flags (task_cred task') =
       (if msg_errno m = - EKEYEXPIRED
        then insert RPCAUTH_CRED_NEGATIVE (cr_flags (task_cred task))
        else cr_flags (task_cred task)) \<and>
     gc_ctx (task_cred task') = gc_ctx (task_cred task) \<and>
     gc_upcall (task_cred task') = None \<and> ctxs s' = ctxs s"
  using assms
  by (auto simp add: gss_upcall_callback_def gss_handle_downcall_result_def Let_def
      gss_release_msg_def log_event_def msg_update_def is_linked_def put_pipe_version_def
      task_cred_def set_task_cred_def set_bit_def)

lemma create_wait_error:
  fixes s :: "('w::len) gss_state"
  assumes "msgs s g = Some m" "g \<notin> set (in_downcall s (msg_pipe m))" "msg_ctx m = None"
    "msg_errno m < 0"
  shows "\<exists>s'. gss_create_upcall_wait sig cred g s = Inr (Some (msg_errno m, cred, s')) \<and>
     ctxs s' = ctxs s"
  using assms
  by (auto simp add: gss_create_upcall_wait_def Let_def
      gss_release_msg_def msg_update_def is_linked_def put_pipe_version_def)

lemma demo_error_downcall_fields:
  "length (demo_error_downcall e) = 16"
  "of_native32 (take 4 (demo_error_downcall e)) = 1000"
  "of_native32 (take 4 (drop 8 (demo_error_downcall e))) = 0"
  "of_native32 (take 4 (drop 12 (demo_error_downcall e))) = e"
  "of_native32 (drop 12 (demo_error_downcall e)) = e"
  by (simp_all add: demo_error_downcall_def length_native32 of_native32_native32)

lemma demo_pending_fields:
  "ctxs demo_pending 30 = None"
  "find_upcall (msgs demo_pending) (in_downcall demo_pending 10) 1000 = Some 20"
  "msgs demo_pending 20 = Some demo_upcall_msg"
  "msg_pipe demo_upcall_msg = 10" "msg_count demo_upcall_msg = 2"
  "msg_ctx demo_upcall_msg = None"
  by (simp_all add: demo_pending_def demo_state_def demo_upcall_msg_def)

lemma demo_downcall_env_fields:
  "dc_kmalloc_ok (demo_downcall_env r)" "dc_copy_ok (demo_downcall_env r)"
  "dc_ctx (demo_downcall_env r) = Some 30" "dc_kmemdup_ok (demo_downcall_env r)"
  "gss_import_sec_context (dc_mech (demo_downcall_env r)) tok = (r, None)"
  by (simp_all add: demo_downcall_env_def)

lemma demo_waiting_task_cred: "task_cred demo_waiting_task = demo_new_cred"
  by (simp add: demo_waiting_task_def task_cred_def)

lemma downcall_alloc_fails:
  fixes env :: "('w::len) downcall_env"
  assumes "length src \<le> MSG_BUF_MAXSIZE" "4 \<le> length src"
    and "dc_kmalloc_ok env" "dc_copy_ok env" "uid_valid (of_native32 (take 4 src))"
    and "dc_ctx env = None"
  shows "gss_pipe_downcall env pipe src s = Inr (- ENOMEM, s)"
  using assms by (simp add: gss_pipe_downcall_def Let_def simple_get_bytes_def)

lemma fill_window_zero_ctx:
  assumes "16 \<le> length src" "of_native32 (take 4 (drop 8 src)) = 0"
  shows "gc_win (snd (gss_fill_context env src 4 ctx)) = 0"
    and "gc_gss_ctx (snd (gss_fill_context env src 4 ctx)) = gc_gss_ctx ctx"
  using assms
  by (simp_all add: gss_fill_context_def simple_get_bytes_def Let_def)

lemma downcall_release_form:
  fixes env :: "('w::len) downcall_env"
  assumes len: "length src \<le> MSG_BUF_MAXSIZE" "4 \<le> length src"
    and ok: "dc_kmalloc_ok env" "dc_copy_ok env" "uid_valid (of_native32 (take 4 src))"
    and c: "dc_ctx env = Some c" "ctxs s c = None"
    and g: "find_upcall (msgs s) (in_downcall s pipe) (of_native32 (take 4 src)) = Some g"
           "msgs s g = Some m" "msg_pipe m = pipe"
    and fill: "gss_fill_context env src 4 gss_alloc_context = (Inl err, ctx)"
    and err: "err = - EACCES \<or> err = - EKEYEXPIRED"
  shows "\<exists>s0. gss_pipe_downcall env pipe src s = downcall_release g c (int (length src)) s0 \<and>
     ctxs s0 = (ctxs s)(c \<mapsto> ctx) \<and>
     msgs s0 g = Some (m\<lparr>msg_count := msg_count m + 1, msg_errno := err\<rparr>)"
  using assms
  by (auto simp add: gss_pipe_downcall_def Let_def simple_get_bytes_def gss_find_upcall_def
        msg_update_def list_del_init_def)

text \<open>Claim C3, as amended. A downcall that passes the checks before context filling
  (length, copy, uid, a pending message for the uid that a waiter holds) and carries a
  window field of 0 with the four bytes after it.
  \<^item> The downcall allocates a context before it reads the window: when that allocation
    fails it returns \<open>-ENOMEM\<close> and the state is as before.
  \<^item> Otherwise it ends with the code from \<open>err_release_msg\<close> on, run in a state that holds
    the allocated context \<open>ctx0\<close> with one reference, the window 0 and no mechanism
    context; that code drops the reference, and after the downcall the contexts are those
    from before it.
  \<^item> The four bytes are read as a signed number: \<open>-EKEYEXPIRED\<close> becomes the errno of the
    message as it is, anything else becomes \<open>-EACCES\<close>; the downcall returns the length
    of the message; the message has no context.
  \<^item> For a task whose credential points to the message, \<open>gss_upcall_callback\<close> gives the
    task that errno, sets NEGATIVE on the credential for \<open>-EKEYEXPIRED\<close> and leaves its
    flags alone otherwise, and the credential has the context it had.
  \<^item> A caller that waits in \<open>gss_create_upcall\<close> returns that errno, and its credential
    is as it was, flags included.\<close>

theorem downcall_window_zero:
  fixes env :: "('w::len) downcall_env"
  assumes "length src \<le> MSG_BUF_MAXSIZE" "16 \<le> length src"
    and "dc_kmalloc_ok env" "dc_copy_ok env" "uid_valid (of_native32 (take 4 src))"
    and "find_upcall (msgs s) (in_downcall s pipe) (of_native32 (take 4 src)) = Some g"
    and "msgs s g = Some m" "msg_pipe m = pipe" "2 \<le> msg_count m" "msg_ctx m = None"
    and "of_native32 (take 4 (drop 8 src)) = 0"
    and "gc_upcall (task_cred task) = Some g"
  shows "(dc_ctx env = None \<longrightarrow> gss_pipe_downcall env pipe src s = Inr (- ENOMEM, s)) \<and>
     (dc_ctx env = Some c \<and> ctxs s c = None \<longrightarrow>
      (\<exists>s0 ctx0 s1 task' s2 s3.
         gss_pipe_downcall env pipe src s = downcall_release g c (int (length src)) s0 \<and>
         ctxs s0 = (ctxs s)(c \<mapsto> ctx0) \<and>
         ctx_count ctx0 = 1 \<and> gc_win ctx0 = 0 \<and> gc_gss_ctx ctx0 = None \<and>
         gss_pipe_downcall env pipe src s = Inr (int (length src), s1) \<and>
         msgs s1 g =
           Some (m\<lparr>msg_errno := (if sint (of_native32 (take 4 (drop 12 src))) = - EKEYEXPIRED
                                   then - EKEYEXPIRED else - EACCES),
                   msg_count := msg_count m - 1\<rparr>) \<and>
         ctxs s1 = ctxs s \<and>
         gss_upcall_callback now task s1 = Inr (task', s2) \<and>
         tk_status task' = (if sint (of_native32 (take 4 (drop 12 src))) = - EKEYEXPIRED
                            then - EKEYEXPIRED else - EACCES) \<and>
         cr_flags (task_cred task') =
           (if sint (of_native32 (take 4 (drop 12 src))) = - EKEYEXPIRED
            then insert RPCAUTH_CRED_NEGATIVE (cr_flags (task_cred task))
            else cr_flags (task_cred task)) \<and>
         gc_ctx (task_cred task') = gc_ctx (task_cred task) \<and> ctxs s2 = ctxs s \<and>
         gss_create_upcall_wait sig cred g s1 =
           Inr (Some (if sint (of_native32 (take 4 (drop 12 src))) = - EKEYEXPIRED
                      then - EKEYEXPIRED else - EACCES, cred, s3)) \<and>
         ctxs s3 = ctxs s))"
proof (intro conjI impI)
  have four: "4 \<le> length src" using assms(2) by simp
  assume "dc_ctx env = None"
  from downcall_alloc_fails[OF assms(1) four assms(3-5) this]
  show "gss_pipe_downcall env pipe src s = Inr (- ENOMEM, s)" .
next
  let ?e = "if sint (of_native32 (take 4 (drop 12 src))) = - EKEYEXPIRED
            then - EKEYEXPIRED else - EACCES"
  assume "dc_ctx env = Some c \<and> ctxs s c = None"
  then have c: "dc_ctx env = Some c" "ctxs s c = None" by simp_all
  obtain ctx0 where fill: "gss_fill_context env src 4 gss_alloc_context = (Inl ?e, ctx0)"
    using fill_window_zero[OF assms(2) assms(11), of env gss_alloc_context]
    by (cases "gss_fill_context env src 4 gss_alloc_context") simp
  have four: "4 \<le> length src" using assms(2) by simp
  have ee: "?e = - EACCES \<or> ?e = - EKEYEXPIRED" by simp
  have c0: "ctx_count ctx0 = 1" "gc_win ctx0 = 0" "gc_gss_ctx ctx0 = None"
    using fill_context_count[of env src 4 gss_alloc_context]
      fill_window_zero_ctx[OF assms(2) assms(11), of env gss_alloc_context] fill
    by (simp_all add: gss_alloc_context_def)
  from downcall_release_form[OF assms(1) four assms(3-5) c assms(6-8) fill ee]
  obtain s0 where s0:
    "gss_pipe_downcall env pipe src s = downcall_release g c (int (length src)) s0"
    "ctxs s0 = (ctxs s)(c \<mapsto> ctx0)"
    by blast
  from ee downcall_err_props[OF assms(1) four assms(3-5) c assms(6-9) fill]
  obtain s1 where s1: "gss_pipe_downcall env pipe src s = Inr (int (length src), s1)"
    "msgs s1 g = Some (m\<lparr>msg_errno := ?e, msg_count := msg_count m - 1\<rparr>)"
    "g \<notin> set (in_downcall s1 pipe)" "ctxs s1 = ctxs s"
    by blast
  let ?m1 = "m\<lparr>msg_errno := ?e, msg_count := msg_count m - 1\<rparr>"
  have nz: "msg_errno ?m1 \<noteq> 0" and neg: "msg_errno ?m1 < 0"
    by (simp_all add: EKEYEXPIRED_def EACCES_def)
  have nl: "g \<notin> set (in_downcall s1 (msg_pipe ?m1))" using s1(3) assms(8) by simp
  have nc: "msg_ctx ?m1 = None" using assms(10) by simp
  from callback_error[of s1 g ?m1 task now, OF s1(2) nl nc nz assms(12)]
  obtain task' s2 where cb: "gss_upcall_callback now task s1 = Inr (task', s2)"
    "tk_status task' = msg_errno ?m1"
    "cr_flags (task_cred task') =
       (if msg_errno ?m1 = - EKEYEXPIRED
        then insert RPCAUTH_CRED_NEGATIVE (cr_flags (task_cred task))
        else cr_flags (task_cred task))"
    "gc_ctx (task_cred task') = gc_ctx (task_cred task)" "ctxs s2 = ctxs s1"
    by blast
  from create_wait_error[of s1 g ?m1 sig cred, OF s1(2) nl nc neg]
  obtain s3 where sw: "gss_create_upcall_wait sig cred g s1 = Inr (Some (msg_errno ?m1, cred, s3))"
    "ctxs s3 = ctxs s1"
    by blast
  have e_iff: "(?e = - EKEYEXPIRED) \<longleftrightarrow>
               sint (of_native32 (take 4 (drop 12 src))) = - EKEYEXPIRED"
    by (simp add: EKEYEXPIRED_def EACCES_def)
  have flags: "cr_flags (task_cred task') =
       (if sint (of_native32 (take 4 (drop 12 src))) = - EKEYEXPIRED
        then insert RPCAUTH_CRED_NEGATIVE (cr_flags (task_cred task))
        else cr_flags (task_cred task))"
    using cb(3) e_iff by simp
  have st: "tk_status task' = ?e" using cb(2) by simp
  have sw': "gss_create_upcall_wait sig cred g s1 = Inr (Some (?e, cred, s3))"
    using sw(1) by simp
  show "\<exists>s0 ctx0 s1 task' s2 s3.
         gss_pipe_downcall env pipe src s = downcall_release g c (int (length src)) s0 \<and>
         ctxs s0 = (ctxs s)(c \<mapsto> ctx0) \<and>
         ctx_count ctx0 = 1 \<and> gc_win ctx0 = 0 \<and> gc_gss_ctx ctx0 = None \<and>
         gss_pipe_downcall env pipe src s = Inr (int (length src), s1) \<and>
         msgs s1 g = Some (m\<lparr>msg_errno := ?e, msg_count := msg_count m - 1\<rparr>) \<and>
         ctxs s1 = ctxs s \<and>
         gss_upcall_callback now task s1 = Inr (task', s2) \<and>
         tk_status task' = ?e \<and>
         cr_flags (task_cred task') =
           (if sint (of_native32 (take 4 (drop 12 src))) = - EKEYEXPIRED
            then insert RPCAUTH_CRED_NEGATIVE (cr_flags (task_cred task))
            else cr_flags (task_cred task)) \<and>
         gc_ctx (task_cred task') = gc_ctx (task_cred task) \<and> ctxs s2 = ctxs s \<and>
         gss_create_upcall_wait sig cred g s1 = Inr (Some (?e, cred, s3)) \<and>
         ctxs s3 = ctxs s"
    apply (rule exI[of _ s0], rule exI[of _ ctx0], rule exI[of _ s1], rule exI[of _ task'],
        rule exI[of _ s2], rule exI[of _ s3])
    apply (intro conjI)
    using s0 c0 s1(1,2,4) cb(1,4,5) flags st sw' sw(2) by simp_all
qed

theorem downcall_window_zero_witness:
  "length (demo_error_downcall (- 127)) \<le> MSG_BUF_MAXSIZE \<and>
   16 \<le> length (demo_error_downcall (- 127)) \<and>
   dc_kmalloc_ok (demo_downcall_env 0) \<and> dc_copy_ok (demo_downcall_env 0) \<and>
   uid_valid (of_native32 (take 4 (demo_error_downcall (- 127)))) \<and>
   find_upcall (msgs demo_pending) (in_downcall demo_pending 10)
     (of_native32 (take 4 (demo_error_downcall (- 127)))) = Some 20 \<and>
   msgs demo_pending 20 = Some demo_upcall_msg \<and> msg_pipe demo_upcall_msg = 10 \<and>
   2 \<le> msg_count demo_upcall_msg \<and> msg_ctx demo_upcall_msg = None \<and>
   of_native32 (take 4 (drop 8 (demo_error_downcall (- 127)))) = 0 \<and>
   gc_upcall (task_cred demo_waiting_task) = Some 20 \<and>
   dc_ctx (demo_downcall_env 0) = Some 30 \<and> ctxs demo_pending 30 = None \<and>
   gss_pipe_downcall ((demo_downcall_env 0)\<lparr>dc_ctx := None\<rparr>) 10 (demo_error_downcall (- 127))
     demo_pending = Inr (- ENOMEM, demo_pending) \<and>
   (\<exists>s0 ctx0 s1 task' s2 s3.
      gss_pipe_downcall (demo_downcall_env 0) 10 (demo_error_downcall (- 127)) demo_pending =
        downcall_release 20 30 16 s0 \<and>
      ctxs s0 30 = Some ctx0 \<and> ctx_count ctx0 = 1 \<and> gc_win ctx0 = 0 \<and>
      gss_pipe_downcall (demo_downcall_env 0) 10 (demo_error_downcall (- 127)) demo_pending =
        Inr (16, s1) \<and>
      map_option msg_errno (msgs s1 20) = Some (- EKEYEXPIRED) \<and>
      map_option msg_ctx (msgs s1 20) = Some None \<and>
      ctxs s1 = Map.empty \<and>
      gss_upcall_callback 6000 demo_waiting_task s1 = Inr (task', s2) \<and>
      tk_status task' = - EKEYEXPIRED \<and>
      cr_flags (task_cred task') = {RPCAUTH_CRED_NEGATIVE, RPCAUTH_CRED_NEW} \<and>
      gc_ctx (task_cred task') = None \<and>
      gss_create_upcall_wait False (demo_new_cred\<lparr>gc_upcall := None\<rparr>) 20 s1 =
        Inr (Some (- EKEYEXPIRED, demo_new_cred\<lparr>gc_upcall := None\<rparr>, s3)))"
proof -
  have h: "length (demo_error_downcall (- 127)) \<le> MSG_BUF_MAXSIZE"
    "16 \<le> length (demo_error_downcall (- 127))"
    "dc_kmalloc_ok (demo_downcall_env 0)" "dc_copy_ok (demo_downcall_env 0)"
    "uid_valid (of_native32 (take 4 (demo_error_downcall (- 127))))"
    "find_upcall (msgs demo_pending) (in_downcall demo_pending 10)
       (of_native32 (take 4 (demo_error_downcall (- 127)))) = Some 20"
    "msgs demo_pending 20 = Some demo_upcall_msg" "msg_pipe demo_upcall_msg = 10"
    "2 \<le> msg_count demo_upcall_msg" "msg_ctx demo_upcall_msg = None"
    "of_native32 (take 4 (drop 8 (demo_error_downcall (- 127)))) = 0"
    "gc_upcall (task_cred demo_waiting_task) = Some 20"
    by (simp_all add: demo_error_downcall_fields demo_pending_fields demo_downcall_env_fields
        demo_waiting_task_cred demo_new_cred_def MSG_BUF_MAXSIZE_def uid_valid_def)
  have hn: "dc_kmalloc_ok ((demo_downcall_env 0)\<lparr>dc_ctx := None\<rparr>)"
    "dc_copy_ok ((demo_downcall_env 0)\<lparr>dc_ctx := None\<rparr>)"
    "dc_ctx ((demo_downcall_env 0)\<lparr>dc_ctx := None\<rparr>) = None"
    by (simp_all add: demo_downcall_env_fields)
  have hc: "dc_ctx (demo_downcall_env 0) = Some 30" "ctxs demo_pending 30 = None"
    by (simp_all add: demo_pending_fields demo_downcall_env_fields)
  have e: "sint (of_native32 (take 4 (drop 12 (demo_error_downcall (- 127))))) = - EKEYEXPIRED"
    by (simp add: demo_error_downcall_fields EKEYEXPIRED_def)
  have cs: "ctxs demo_pending = Map.empty" by (simp add: demo_pending_def demo_state_def)
  have nomem: "gss_pipe_downcall ((demo_downcall_env 0)\<lparr>dc_ctx := None\<rparr>) 10
      (demo_error_downcall (- 127)) demo_pending = Inr (- ENOMEM, demo_pending)"
    using downcall_window_zero[OF h(1,2) hn(1,2) h(5-12)] hn(3) by blast
  from downcall_window_zero[OF h, of 30 6000 False "demo_new_cred\<lparr>gc_upcall := None\<rparr>"] hc
  obtain s0 ctx0 s1 task' s2 s3 where r:
    "gss_pipe_downcall (demo_downcall_env 0) 10 (demo_error_downcall (- 127)) demo_pending =
       downcall_release 20 30 (int (length (demo_error_downcall (- 127)))) s0"
    "ctxs s0 = (ctxs demo_pending)(30 \<mapsto> ctx0)" "ctx_count ctx0 = 1" "gc_win ctx0 = 0"
    "gss_pipe_downcall (demo_downcall_env 0) 10 (demo_error_downcall (- 127)) demo_pending =
       Inr (int (length (demo_error_downcall (- 127))), s1)"
    "msgs s1 20 = Some (demo_upcall_msg\<lparr>msg_errno := - EKEYEXPIRED,
                          msg_count := msg_count demo_upcall_msg - 1\<rparr>)"
    "ctxs s1 = ctxs demo_pending"
    "gss_upcall_callback 6000 demo_waiting_task s1 = Inr (task', s2)"
    "tk_status task' = - EKEYEXPIRED"
    "cr_flags (task_cred task') =
       insert RPCAUTH_CRED_NEGATIVE (cr_flags (task_cred demo_waiting_task))"
    "gc_ctx (task_cred task') = gc_ctx (task_cred demo_waiting_task)"
    "gss_create_upcall_wait False (demo_new_cred\<lparr>gc_upcall := None\<rparr>) 20 s1 =
       Inr (Some (- EKEYEXPIRED, demo_new_cred\<lparr>gc_upcall := None\<rparr>, s3))"
    unfolding e by auto
  have "gss_pipe_downcall (demo_downcall_env 0) 10 (demo_error_downcall (- 127)) demo_pending =
        downcall_release 20 30 16 s0 \<and>
      ctxs s0 30 = Some ctx0 \<and> ctx_count ctx0 = 1 \<and> gc_win ctx0 = 0 \<and>
      gss_pipe_downcall (demo_downcall_env 0) 10 (demo_error_downcall (- 127)) demo_pending =
        Inr (16, s1) \<and>
      map_option msg_errno (msgs s1 20) = Some (- EKEYEXPIRED) \<and>
      map_option msg_ctx (msgs s1 20) = Some None \<and>
      ctxs s1 = Map.empty \<and>
      gss_upcall_callback 6000 demo_waiting_task s1 = Inr (task', s2) \<and>
      tk_status task' = - EKEYEXPIRED \<and>
      cr_flags (task_cred task') = {RPCAUTH_CRED_NEGATIVE, RPCAUTH_CRED_NEW} \<and>
      gc_ctx (task_cred task') = None \<and>
      gss_create_upcall_wait False (demo_new_cred\<lparr>gc_upcall := None\<rparr>) 20 s1 =
        Inr (Some (- EKEYEXPIRED, demo_new_cred\<lparr>gc_upcall := None\<rparr>, s3))"
    using r cs
    by (simp add: demo_error_downcall_fields demo_pending_fields demo_waiting_task_cred
        demo_new_cred_def)
  then show ?thesis using h hc nomem by blast
qed

text \<open>The claim as stated says that a downcall with \<open>-EKEYEXPIRED\<close> marks the
  credential NEGATIVE. For a caller that waits in \<open>gss_create_upcall\<close> it does not: the
  caller returns \<open>-EKEYEXPIRED\<close> and the flags of its credential are NEW alone.\<close>

theorem downcall_sync_waiter_counterexample:
  "\<exists>s1 cred' s2.
     of_native32 (take 4 (drop 8 (demo_error_downcall (- 127)))) = 0 \<and>
     sint (of_native32 (take 4 (drop 12 (demo_error_downcall (- 127))))) = - EKEYEXPIRED \<and>
     gss_pipe_downcall (demo_downcall_env 0) 10 (demo_error_downcall (- 127)) demo_pending =
       Inr (16, s1) \<and>
     gss_create_upcall_wait False (demo_new_cred\<lparr>gc_upcall := None\<rparr>) 20 s1 =
       Inr (Some (- EKEYEXPIRED, cred', s2)) \<and>
     cr_flags cred' = {RPCAUTH_CRED_NEW} \<and>
     test_bit RPCAUTH_CRED_NEGATIVE (cr_flags cred') = False"
proof -
  have h: "length (demo_error_downcall (- 127)) \<le> MSG_BUF_MAXSIZE"
    "4 \<le> length (demo_error_downcall (- 127))"
    "dc_kmalloc_ok (demo_downcall_env 0)" "dc_copy_ok (demo_downcall_env 0)"
    "uid_valid (of_native32 (take 4 (demo_error_downcall (- 127))))"
    "dc_ctx (demo_downcall_env 0) = Some 30" "ctxs demo_pending 30 = None"
    "find_upcall (msgs demo_pending) (in_downcall demo_pending 10)
       (of_native32 (take 4 (demo_error_downcall (- 127)))) = Some 20"
    "msgs demo_pending 20 = Some demo_upcall_msg" "msg_pipe demo_upcall_msg = 10"
    "2 \<le> msg_count demo_upcall_msg"
    by (simp_all add: demo_error_downcall_fields demo_pending_fields demo_downcall_env_fields
        MSG_BUF_MAXSIZE_def uid_valid_def)
  have w: "of_native32 (take 4 (drop 8 (demo_error_downcall (- 127)))) = 0"
    and e: "sint (of_native32 (take 4 (drop 12 (demo_error_downcall (- 127))))) = - EKEYEXPIRED"
    by (simp_all add: demo_error_downcall_fields EKEYEXPIRED_def)
  have l: "16 \<le> length (demo_error_downcall (- 127))"
    by (simp add: demo_error_downcall_fields)
  obtain ctx where fill:
    "gss_fill_context (demo_downcall_env 0) (demo_error_downcall (- 127)) 4 gss_alloc_context =
       (Inl (- EKEYEXPIRED), ctx)"
    using fill_window_zero[OF l w, of "demo_downcall_env 0" gss_alloc_context] e
    by (cases "gss_fill_context (demo_downcall_env 0) (demo_error_downcall (- 127)) 4
                 gss_alloc_context") simp
  from downcall_err_props[OF h fill]
  obtain s1 where s1:
    "gss_pipe_downcall (demo_downcall_env 0) 10 (demo_error_downcall (- 127)) demo_pending =
       Inr (int (length (demo_error_downcall (- 127))), s1)"
    "msgs s1 20 = Some (demo_upcall_msg\<lparr>msg_errno := - EKEYEXPIRED,
                          msg_count := msg_count demo_upcall_msg - 1\<rparr>)"
    "20 \<notin> set (in_downcall s1 10)"
    by blast
  let ?m1 = "demo_upcall_msg\<lparr>msg_errno := - EKEYEXPIRED,
               msg_count := msg_count demo_upcall_msg - 1\<rparr>"
  have p: "20 \<notin> set (in_downcall s1 (msg_pipe ?m1))" "msg_ctx ?m1 = None" "msg_errno ?m1 < 0"
    using s1(3) by (simp_all add: demo_pending_fields EKEYEXPIRED_def)
  from create_wait_error[of s1 20 ?m1 False "demo_new_cred\<lparr>gc_upcall := None\<rparr>", OF s1(2) p]
  obtain s2 where
    "gss_create_upcall_wait False (demo_new_cred\<lparr>gc_upcall := None\<rparr>) 20 s1 =
       Inr (Some (- EKEYEXPIRED, demo_new_cred\<lparr>gc_upcall := None\<rparr>, s2))"
    by auto
  then show ?thesis
    apply -
    apply (rule exI[of _ s1], rule exI[of _ "demo_new_cred\<lparr>gc_upcall := None\<rparr>"],
        rule exI[of _ s2])
    using s1(1)
    by (simp add: demo_error_downcall_fields demo_new_cred_def test_bit_def EKEYEXPIRED_def)
qed

lemma fill_import:
  assumes "win \<noteq> 0" "length wire < 2 ^ 32" "length tok < 2 ^ 32" "dc_kmemdup_ok env"
    "gss_import_sec_context (dc_mech env) tok = (ret, h)" "ret < 0"
  shows "fst (gss_fill_context env
                (native32 uid @ native32 lifetime @ native32 win @
                 native32 (of_nat (length wire)) @ wire @
                 native32 (of_nat (length tok)) @ tok @ rest) 4 ctx) = ERR_PTR ret"
proof -
  have u: "unat (of_nat (length wire) :: u32) = length wire"
    "unat (of_nat (length tok) :: u32) = length tok"
    using assms(2,3) by (simp_all add: unat_of_nat take_bit_eq_mod)
  show ?thesis
    using assms(1,4,5,6) u
    by (simp add: gss_fill_context_def simple_get_bytes_def simple_get_netobj_def Let_def
        length_native32 of_native32_native32)
qed

text \<open>Claim C4. In a downcall that reaches \<open>gss_fill_context\<close>, when that returns an
  error: for \<open>-EFAULT\<close>, \<open>-ENOMEM\<close>, \<open>-EINVAL\<close> and \<open>-ENOSYS\<close> the errno of the
  message becomes \<open>-EAGAIN\<close> and the downcall returns the error; the task that waits for
  the message then gets the status \<open>-EAGAIN\<close> from \<open>gss_upcall_callback\<close>, a caller
  waiting in \<open>gss_create_upcall\<close> returns \<open>-EAGAIN\<close>, and the flags and the context of
  the credential are as before. For \<open>-EACCES\<close> and \<open>-EKEYEXPIRED\<close> the errno of the
  message is the error itself and the downcall returns the length of the message. Any other
  error is \<open>BUG\<close>. The error of \<open>gss_import_sec_context\<close> on the token of a complete
  message is the error of \<open>gss_fill_context\<close>, as \<open>ERR_PTR\<close> makes it.\<close>

theorem downcall_fill_errors:
  fixes env :: "('w::len) downcall_env"
  assumes "length src \<le> MSG_BUF_MAXSIZE" "4 \<le> length src"
    and "dc_kmalloc_ok env" "dc_copy_ok env" "uid_valid (of_native32 (take 4 src))"
    and "dc_ctx env = Some c" "ctxs s c = None"
    and "find_upcall (msgs s) (in_downcall s pipe) (of_native32 (take 4 src)) = Some g"
    and "msgs s g = Some m" "msg_pipe m = pipe" "2 \<le> msg_count m"
    and "gss_fill_context env src 4 gss_alloc_context = (Inl err, ctx)"
    and "msg_ctx m = None" "gc_upcall (task_cred task) = Some g"
  shows "(err \<in> {- EFAULT, - ENOMEM, - EINVAL, - ENOSYS} \<longrightarrow>
           (\<exists>s1 task' s2 s3.
              gss_pipe_downcall env pipe src s = Inr (err, s1) \<and>
              msgs s1 g = Some (m\<lparr>msg_errno := - EAGAIN, msg_count := msg_count m - 1\<rparr>) \<and>
              ctxs s1 = ctxs s \<and>
              gss_upcall_callback now task s1 = Inr (task', s2) \<and>
              tk_status task' = - EAGAIN \<and>
              cr_flags (task_cred task') = cr_flags (task_cred task) \<and>
              gc_ctx (task_cred task') = gc_ctx (task_cred task) \<and>
              gss_create_upcall_wait sig cred g s1 = Inr (Some (- EAGAIN, cred, s3)))) \<and>
         (err \<in> {- EACCES, - EKEYEXPIRED} \<longrightarrow>
           (\<exists>s1. gss_pipe_downcall env pipe src s = Inr (int (length src), s1) \<and>
                 msgs s1 g = Some (m\<lparr>msg_errno := err, msg_count := msg_count m - 1\<rparr>))) \<and>
         (err \<notin> {- EACCES, - EKEYEXPIRED, - EFAULT, - ENOMEM, - EINVAL, - ENOSYS} \<longrightarrow>
           gss_pipe_downcall env pipe src s = Inl BUG) \<and>
         (win \<noteq> 0 \<and> length wire < 2 ^ 32 \<and> length tok < 2 ^ 32 \<and> dc_kmemdup_ok env \<and>
          gss_import_sec_context (dc_mech env) tok = (ret, h) \<and> ret < 0 \<longrightarrow>
            fst (gss_fill_context env
                   (native32 uid @ native32 lifetime @ native32 win @
                    native32 (of_nat (length wire)) @ wire @
                    native32 (of_nat (length tok)) @ tok @ rest) 4 ctx0) = ERR_PTR ret)"
proof (intro conjI impI)
  assume tr: "err \<in> {- EFAULT, - ENOMEM, - EINVAL, - ENOSYS}"
  then have "err = - EFAULT \<or> err = - ENOMEM \<or> err = - EINVAL \<or> err = - ENOSYS" by simp
  with downcall_err_props[OF assms(1-12)]
  obtain s1 where s1: "gss_pipe_downcall env pipe src s = Inr (err, s1)"
    "msgs s1 g = Some (m\<lparr>msg_errno := - EAGAIN, msg_count := msg_count m - 1\<rparr>)"
    "g \<notin> set (in_downcall s1 pipe)" "ctxs s1 = ctxs s"
    by blast
  let ?m1 = "m\<lparr>msg_errno := - EAGAIN, msg_count := msg_count m - 1\<rparr>"
  have p: "g \<notin> set (in_downcall s1 (msg_pipe ?m1))" "msg_ctx ?m1 = None"
    using s1(3) assms(10,13) by simp_all
  have nz: "msg_errno ?m1 \<noteq> 0" and neg: "msg_errno ?m1 < 0" by (simp_all add: EAGAIN_def)
  from callback_error[of s1 g ?m1 task now, OF s1(2) p nz assms(14)]
  obtain task' s2 where cb: "gss_upcall_callback now task s1 = Inr (task', s2)"
    "tk_status task' = - EAGAIN"
    "cr_flags (task_cred task') = cr_flags (task_cred task)"
    "gc_ctx (task_cred task') = gc_ctx (task_cred task)"
    by (auto simp add: EAGAIN_def EKEYEXPIRED_def)
  from create_wait_error[of s1 g ?m1 sig cred, OF s1(2) p neg]
  obtain s3 where sw: "gss_create_upcall_wait sig cred g s1 = Inr (Some (- EAGAIN, cred, s3))"
    by auto
  show "\<exists>s1 task' s2 s3.
              gss_pipe_downcall env pipe src s = Inr (err, s1) \<and>
              msgs s1 g = Some (m\<lparr>msg_errno := - EAGAIN, msg_count := msg_count m - 1\<rparr>) \<and>
              ctxs s1 = ctxs s \<and>
              gss_upcall_callback now task s1 = Inr (task', s2) \<and>
              tk_status task' = - EAGAIN \<and>
              cr_flags (task_cred task') = cr_flags (task_cred task) \<and>
              gc_ctx (task_cred task') = gc_ctx (task_cred task) \<and>
              gss_create_upcall_wait sig cred g s1 = Inr (Some (- EAGAIN, cred, s3))"
    apply (rule exI[of _ s1], rule exI[of _ task'], rule exI[of _ s2], rule exI[of _ s3])
    using s1(1,2,4) cb sw by simp
next
  assume "err \<in> {- EACCES, - EKEYEXPIRED}"
  then have "err = - EACCES \<or> err = - EKEYEXPIRED" by simp
  with downcall_err_props[OF assms(1-12)]
  show "\<exists>s1. gss_pipe_downcall env pipe src s = Inr (int (length src), s1) \<and>
             msgs s1 g = Some (m\<lparr>msg_errno := err, msg_count := msg_count m - 1\<rparr>)"
    by blast
next
  assume "err \<notin> {- EACCES, - EKEYEXPIRED, - EFAULT, - ENOMEM, - EINVAL, - ENOSYS}"
  with downcall_err_props[OF assms(1-12)]
  show "gss_pipe_downcall env pipe src s = Inl BUG" by blast
next
  assume "win \<noteq> 0 \<and> length wire < 2 ^ 32 \<and> length tok < 2 ^ 32 \<and> dc_kmemdup_ok env \<and>
          gss_import_sec_context (dc_mech env) tok = (ret, h) \<and> ret < 0"
  then show "fst (gss_fill_context env
                   (native32 uid @ native32 lifetime @ native32 win @
                    native32 (of_nat (length wire)) @ wire @
                    native32 (of_nat (length tok)) @ tok @ rest) 4 ctx0) = ERR_PTR ret"
    using fill_import[of win wire tok env ret h uid lifetime rest ctx0] by blast
qed

lemma demo_context_downcall_fields:
  "length demo_context_downcall = 25"
  "of_native32 (take 4 demo_context_downcall) = 1000"
  by (simp_all add: demo_context_downcall_def length_native32 of_native32_native32)

lemma demo_context_fill:
  "r < 0 \<Longrightarrow>
   fst (gss_fill_context (demo_downcall_env r) demo_context_downcall 4 gss_alloc_context) =
     ERR_PTR r"
  using fill_import[of 128 "[7, 7]" "[1, 2, 3]" "demo_downcall_env r" r None 1000 0 "[]"
      gss_alloc_context]
  by (simp add: demo_downcall_env_fields demo_context_downcall_def)

theorem downcall_fill_errors_witness:
  "length demo_context_downcall \<le> MSG_BUF_MAXSIZE \<and> 4 \<le> length demo_context_downcall \<and>
   dc_kmalloc_ok (demo_downcall_env (- ENOSYS)) \<and> dc_copy_ok (demo_downcall_env (- ENOSYS)) \<and>
   uid_valid (of_native32 (take 4 demo_context_downcall)) \<and>
   dc_ctx (demo_downcall_env (- ENOSYS)) = Some 30 \<and> ctxs demo_pending 30 = None \<and>
   find_upcall (msgs demo_pending) (in_downcall demo_pending 10)
     (of_native32 (take 4 demo_context_downcall)) = Some 20 \<and>
   msgs demo_pending 20 = Some demo_upcall_msg \<and> msg_pipe demo_upcall_msg = 10 \<and>
   2 \<le> msg_count demo_upcall_msg \<and> msg_ctx demo_upcall_msg = None \<and>
   gc_upcall (task_cred demo_waiting_task) = Some 20 \<and>
   gss_import_sec_context (dc_mech (demo_downcall_env (- ENOSYS))) [1, 2, 3] =
     (- ENOSYS, None) \<and>
   fst (gss_fill_context (demo_downcall_env (- ENOSYS)) demo_context_downcall 4
          gss_alloc_context) = Inl (- ENOSYS) \<and>
   (\<exists>s1 task' s2 s3.
      gss_pipe_downcall (demo_downcall_env (- ENOSYS)) 10 demo_context_downcall demo_pending =
        Inr (- ENOSYS, s1) \<and>
      map_option msg_errno (msgs s1 20) = Some (- EAGAIN) \<and>
      ctxs s1 = Map.empty \<and>
      gss_upcall_callback 6000 demo_waiting_task s1 = Inr (task', s2) \<and>
      tk_status task' = - EAGAIN \<and>
      cr_flags (task_cred task') = {RPCAUTH_CRED_NEW} \<and>
      gc_ctx (task_cred task') = None \<and>
      gss_create_upcall_wait False demo_new_cred 20 s1 =
        Inr (Some (- EAGAIN, demo_new_cred, s3)))"
proof -
  have h: "length demo_context_downcall \<le> MSG_BUF_MAXSIZE" "4 \<le> length demo_context_downcall"
    "dc_kmalloc_ok (demo_downcall_env (- ENOSYS))" "dc_copy_ok (demo_downcall_env (- ENOSYS))"
    "uid_valid (of_native32 (take 4 demo_context_downcall))"
    "dc_ctx (demo_downcall_env (- ENOSYS)) = Some 30" "ctxs demo_pending 30 = None"
    "find_upcall (msgs demo_pending) (in_downcall demo_pending 10)
       (of_native32 (take 4 demo_context_downcall)) = Some 20"
    "msgs demo_pending 20 = Some demo_upcall_msg" "msg_pipe demo_upcall_msg = 10"
    "2 \<le> msg_count demo_upcall_msg"
    by (simp_all add: demo_context_downcall_fields demo_pending_fields demo_downcall_env_fields
        MSG_BUF_MAXSIZE_def uid_valid_def)
  have h2: "msg_ctx demo_upcall_msg = None" "gc_upcall (task_cred demo_waiting_task) = Some 20"
    "gss_import_sec_context (dc_mech (demo_downcall_env (- ENOSYS))) [1, 2, 3] =
       (- ENOSYS, None)"
    by (simp_all add: demo_pending_fields demo_downcall_env_fields demo_waiting_task_cred
        demo_new_cred_def)
  have f: "fst (gss_fill_context (demo_downcall_env (- ENOSYS)) demo_context_downcall 4
                  gss_alloc_context) = Inl (- ENOSYS)"
    using demo_context_fill[of "- ENOSYS"] by (simp add: ENOSYS_def ERR_PTR_def MAX_ERRNO_def)
  then obtain ctx where fill:
    "gss_fill_context (demo_downcall_env (- ENOSYS)) demo_context_downcall 4 gss_alloc_context =
       (Inl (- ENOSYS), ctx)"
    by (cases "gss_fill_context (demo_downcall_env (- ENOSYS)) demo_context_downcall 4
                 gss_alloc_context") simp
  have cs: "ctxs demo_pending = Map.empty" by (simp add: demo_pending_def demo_state_def)
  have "- ENOSYS \<in> {- EFAULT, - ENOMEM, - EINVAL, - ENOSYS}" by simp
  with downcall_fill_errors[OF h fill h2(1,2), of 6000 False demo_new_cred]
  obtain s1 task' s2 s3 where r:
    "gss_pipe_downcall (demo_downcall_env (- ENOSYS)) 10 demo_context_downcall demo_pending =
       Inr (- ENOSYS, s1)"
    "msgs s1 20 = Some (demo_upcall_msg\<lparr>msg_errno := - EAGAIN,
                          msg_count := msg_count demo_upcall_msg - 1\<rparr>)"
    "ctxs s1 = ctxs demo_pending"
    "gss_upcall_callback 6000 demo_waiting_task s1 = Inr (task', s2)"
    "tk_status task' = - EAGAIN"
    "cr_flags (task_cred task') = cr_flags (task_cred demo_waiting_task)"
    "gc_ctx (task_cred task') = gc_ctx (task_cred demo_waiting_task)"
    "gss_create_upcall_wait False demo_new_cred 20 s1 = Inr (Some (- EAGAIN, demo_new_cred, s3))"
    by blast
  have "gss_pipe_downcall (demo_downcall_env (- ENOSYS)) 10 demo_context_downcall demo_pending =
        Inr (- ENOSYS, s1) \<and>
      map_option msg_errno (msgs s1 20) = Some (- EAGAIN) \<and>
      ctxs s1 = Map.empty \<and>
      gss_upcall_callback 6000 demo_waiting_task s1 = Inr (task', s2) \<and>
      tk_status task' = - EAGAIN \<and>
      cr_flags (task_cred task') = {RPCAUTH_CRED_NEW} \<and>
      gc_ctx (task_cred task') = None \<and>
      gss_create_upcall_wait False demo_new_cred 20 s1 =
        Inr (Some (- EAGAIN, demo_new_cred, s3))"
    using r cs by (simp add: demo_waiting_task_cred demo_new_cred_def)
  then show ?thesis using h h2 f by blast
qed

lemma demo_downcall_bug:
  "gss_pipe_downcall (demo_downcall_env (- EIO)) 10 demo_context_downcall demo_pending = Inl BUG"
proof -
  have f: "fst (gss_fill_context (demo_downcall_env (- EIO)) demo_context_downcall 4
                  gss_alloc_context) = Inl (- EIO)"
    using demo_context_fill[of "- EIO"] by (simp add: EIO_def ERR_PTR_def MAX_ERRNO_def)
  then obtain ctx where fill:
    "gss_fill_context (demo_downcall_env (- EIO)) demo_context_downcall 4 gss_alloc_context =
       (Inl (- EIO), ctx)"
    by (cases "gss_fill_context (demo_downcall_env (- EIO)) demo_context_downcall 4
                 gss_alloc_context") simp
  have "- EIO \<notin> {- EACCES, - EKEYEXPIRED, - EFAULT, - ENOMEM, - EINVAL, - ENOSYS}"
    by (simp add: EIO_def EACCES_def EKEYEXPIRED_def EFAULT_def ENOMEM_def EINVAL_def ENOSYS_def)
  with downcall_err_props[of demo_context_downcall "demo_downcall_env (- EIO)" 30 demo_pending
      10 20 demo_upcall_msg "- EIO" ctx] fill
  show ?thesis
    by (simp add: demo_context_downcall_fields demo_pending_fields demo_downcall_env_fields
        MSG_BUF_MAXSIZE_def uid_valid_def)
qed
end
